theory Spec2Isabelle
  imports Complex_Main "HOL-Library.Sublist"
begin

section \<open>Actors of actor.py over an explicit store of numpy buffers\<close>

text \<open>
  The module actor.py defines actors that map an observation to an action index, and
  genetic actors whose weights can be read out as a genome and rebuilt from one.

  Modelling decisions.
  \<^item> A numpy array is a contiguous row-major block inside a buffer of the store
    \<open>bufs\<close>: its buffer index, its offset and its shape. \<open>copy\<close> and every arithmetic
    operator allocate a new buffer; \<open>reshape\<close> and a slice return a view on the same
    buffer; the in-place operators \<open>-=\<close> and \<open>/=\<close> overwrite the buffer of their target.
  \<^item> Observations, bounds and ranges carry a dtype, floating or integer. An in-place
    operator must store its result in the dtype of its target: numpy refuses to cast a
    floating result into an integer target and raises UFuncTypeError, a TypeError, before
    it looks at the shapes.
  \<^item> Floats are real numbers, and addition, subtraction, multiplication, division and the
    dot product are exact. A division by zero, whose numpy result is \<open>inf\<close> or \<open>nan\<close>,
    leaves the reals: the model answers \<open>NonFinite\<close> there.
  \<^item> The float64 value of \<open>1. / (1. + np.exp(-x))\<close> is not the real logistic function: it
    rounds, and it is exactly 1.0 from about 36.8 on. It is a function \<open>logistic\<close> of the
    machine, kept in the state; nothing is assumed about it.
  \<^item> \<open>np.random.random\<close> reads the next values of a stream \<open>rand\<close> at position \<open>pos\<close>.
  \<^item> An exception is the value \<open>Inl e\<close>, returned with the store as it is at that moment.
  \<^item> The weight matrices are two-dimensional and genomes, normalised observations and
    layer outputs one-dimensional by construction, so they have types of their own;
    observations, bounds and ranges have any shape.
\<close>

datatype error = TypeError | ValueError | NonFinite

datatype dtype = Floating | Integer

subsection \<open>product\<close>

fun product :: "nat list \<Rightarrow> error + nat" where
  "product [] = Inl TypeError"
| "product (x # xs) = Inr (foldl (\<lambda>x y. x * y) x xs)"

subsection \<open>Store, results and sequencing\<close>

record state =
  bufs :: "real list list"
  rand :: "nat \<Rightarrow> real"
  pos :: nat
  logistic :: "real \<Rightarrow> real"

type_synonym 'a run = "state \<Rightarrow> (error + 'a) \<times> state"

definition ret :: "'a \<Rightarrow> 'a run" where
  "ret x s = (Inr x, s)"

definition lift :: "error + 'a \<Rightarrow> 'a run" where
  "lift r s = (r, s)"

definition seq :: "'a run \<Rightarrow> ('a \<Rightarrow> 'b run) \<Rightarrow> 'b run" where
  "seq m f s = (case m s of (Inl e, s') \<Rightarrow> (Inl e, s') | (Inr x, s') \<Rightarrow> f x s')"

subsection \<open>Arrays\<close>

record block =
  buf :: nat
  off :: nat

record vector = block +
  len :: nat

record matrix = block +
  rows :: nat
  cols :: nat

record ndarray = block +
  shape :: "nat list"
  dtype :: dtype

definition rd :: "state \<Rightarrow> 'a block_scheme \<Rightarrow> nat \<Rightarrow> real list" where
  "rd s b k = take k (drop (off b) (bufs s ! buf b))"

definition vec_elems :: "state \<Rightarrow> vector \<Rightarrow> real list" where
  "vec_elems s v = rd s v (len v)"

definition mat_elems :: "state \<Rightarrow> matrix \<Rightarrow> real list" where
  "mat_elems s m = rd s m (rows m * cols m)"

definition nd_elems :: "state \<Rightarrow> ndarray \<Rightarrow> real list" where
  "nd_elems s a = rd s a (prod_list (shape a))"

definition alloc :: "real list \<Rightarrow> nat run" where
  "alloc xs s = (Inr (length (bufs s)), s\<lparr>bufs := bufs s @ [xs]\<rparr>)"

definition new_vector :: "real list \<Rightarrow> vector run" where
  "new_vector xs = seq (alloc xs) (\<lambda>p. ret \<lparr>buf = p, off = 0, len = length xs\<rparr>)"

definition new_matrix :: "nat \<Rightarrow> nat \<Rightarrow> real list \<Rightarrow> matrix run" where
  "new_matrix r c xs = seq (alloc xs) (\<lambda>p. ret \<lparr>buf = p, off = 0, rows = r, cols = c\<rparr>)"

definition new_ndarray :: "nat list \<Rightarrow> dtype \<Rightarrow> real list \<Rightarrow> ndarray run" where
  "new_ndarray sh dt xs = seq (alloc xs) (\<lambda>p. ret \<lparr>buf = p, off = 0, shape = sh, dtype = dt\<rparr>)"

definition store :: "'a block_scheme \<Rightarrow> real list \<Rightarrow> unit run" where
  "store b xs s =
     (let old = bufs s ! buf b
      in (Inr (), s\<lparr>bufs := (bufs s)[buf b := take (off b) old @ xs @ drop (off b + length xs) old]\<rparr>))"

text \<open>\<open>a.copy()\<close>: a new buffer with the same elements, and for an array of any shape
  the same dtype.\<close>

definition copy_vec :: "vector \<Rightarrow> vector run" where
  "copy_vec v s = new_vector (vec_elems s v) s"

definition copy_mat :: "matrix \<Rightarrow> matrix run" where
  "copy_mat m s = new_matrix (rows m) (cols m) (mat_elems s m) s"

definition copy_nd :: "ndarray \<Rightarrow> ndarray run" where
  "copy_nd a s = new_ndarray (shape a) (dtype a) (nd_elems s a) s"

text \<open>\<open>np.array(a, dtype=float)\<close>: a new floating array with the same elements.\<close>

definition float_array :: "ndarray \<Rightarrow> ndarray run" where
  "float_array a s = new_ndarray (shape a) Floating (nd_elems s a) s"

text \<open>\<open>np.reshape\<close>: a view on the same block; ValueError when the sizes differ.\<close>

definition reshape_nd :: "ndarray \<Rightarrow> nat \<Rightarrow> error + vector" where
  "reshape_nd a k =
     (if prod_list (shape a) = k then Inr \<lparr>buf = buf a, off = off a, len = k\<rparr>
      else Inl ValueError)"

definition reshape_mat :: "matrix \<Rightarrow> nat \<Rightarrow> error + vector" where
  "reshape_mat m k =
     (if rows m * cols m = k then Inr \<lparr>buf = buf m, off = off m, len = k\<rparr>
      else Inl ValueError)"

definition reshape_vec :: "vector \<Rightarrow> nat \<times> nat \<Rightarrow> error + matrix" where
  "reshape_vec v sh =
     (if len v = fst sh * snd sh
      then Inr \<lparr>buf = buf v, off = off v, rows = fst sh, cols = snd sh\<rparr>
      else Inl ValueError)"

text \<open>\<open>v[i:j]\<close> with non-negative bounds: a view, both bounds clipped to the length.\<close>

definition slice :: "vector \<Rightarrow> nat \<Rightarrow> nat \<Rightarrow> vector" where
  "slice v i j =
     (let a = min i (len v); b = min j (len v)
      in \<lparr>buf = buf v, off = off v + a, len = b - a\<rparr>)"

text \<open>
  Broadcasting of numpy: the shapes are aligned at their last dimension; two dimensions
  agree when they are equal or one of them is 1.
\<close>

fun bshape :: "nat list \<Rightarrow> nat list \<Rightarrow> nat list option" where
  "bshape [] ys = Some ys"
| "bshape xs [] = Some xs"
| "bshape (x # xs) (y # ys) =
     (if x = y \<or> y = 1 then map_option ((#) x) (bshape xs ys)
      else if x = 1 then map_option ((#) y) (bshape xs ys)
      else None)"

definition broadcast_shapes :: "nat list \<Rightarrow> nat list \<Rightarrow> nat list option" where
  "broadcast_shapes a b = map_option rev (bshape (rev a) (rev b))"

definition pad_shape :: "nat \<Rightarrow> nat list \<Rightarrow> nat list" where
  "pad_shape k sh = replicate (k - length sh) 1 @ sh"

fun bcast :: "nat list \<Rightarrow> nat list \<Rightarrow> real list \<Rightarrow> real list" where
  "bcast (t # ts) (d # ds) xs =
     (if d = t
      then concat (map (\<lambda>k. bcast ts ds (take (prod_list ds) (drop (k * prod_list ds) xs))) [0..<t])
      else concat (replicate t (bcast ts ds xs)))"
| "bcast ts ds xs = xs"

definition broadcast_to :: "nat list \<Rightarrow> state \<Rightarrow> ndarray \<Rightarrow> real list" where
  "broadcast_to sh s a = bcast sh (pad_shape (length sh) (shape a)) (nd_elems s a)"

text \<open>\<open>a - b\<close> on arrays: a new array of the broadcast shape, integer only when both
  operands are.\<close>

definition promote :: "dtype \<Rightarrow> dtype \<Rightarrow> dtype" where
  "promote a b = (if a = Integer \<and> b = Integer then Integer else Floating)"

definition sub_nd :: "ndarray \<Rightarrow> ndarray \<Rightarrow> ndarray run" where
  "sub_nd a b s =
     (case broadcast_shapes (shape a) (shape b) of
        None \<Rightarrow> (Inl ValueError, s)
      | Some sh \<Rightarrow>
          new_ndarray sh (promote (dtype a) (dtype b))
            (map2 (-) (broadcast_to sh s a) (broadcast_to sh s b)) s)"

text \<open>
  \<open>a -= b\<close> and \<open>a /= b\<close>: the result is written into the buffer of \<open>a\<close>, so it must have
  the dtype and the shape of \<open>a\<close>. The difference of an integer and a floating array is
  floating, and a quotient is always floating: with an integer target both raise
  TypeError, and numpy resolves the types before it broadcasts. Two integer arrays are
  subtracted in place; the wrap-around of a fixed-width integer is not written out,
  because the division that follows in both \<open>react_to\<close> raises on that path.
\<close>

definition isub_nd :: "ndarray \<Rightarrow> ndarray \<Rightarrow> unit run" where
  "isub_nd a b s =
     (if dtype a = Integer \<and> dtype b = Floating then (Inl TypeError, s)
      else if broadcast_shapes (shape a) (shape b) = Some (shape a)
      then store a (map2 (-) (nd_elems s a) (broadcast_to (shape a) s b)) s
      else (Inl ValueError, s))"

definition idiv_nd :: "ndarray \<Rightarrow> ndarray \<Rightarrow> unit run" where
  "idiv_nd a b s =
     (if dtype a = Integer then (Inl TypeError, s)
      else if broadcast_shapes (shape a) (shape b) = Some (shape a)
      then (let ps = zip (nd_elems s a) (broadcast_to (shape a) s b)
            in if list_ex (\<lambda>(x, d). d = 0) ps then (Inl NonFinite, s)
               else store a (map (\<lambda>(x, d). x / d) ps) s)
      else (Inl ValueError, s))"

text \<open>Element-wise operators with a scalar: a new array.\<close>

definition vmap :: "(real \<Rightarrow> real) \<Rightarrow> vector \<Rightarrow> vector run" where
  "vmap f v s = new_vector (map f (vec_elems s v)) s"

definition mmap :: "(real \<Rightarrow> real) \<Rightarrow> matrix \<Rightarrow> matrix run" where
  "mmap f m s = new_matrix (rows m) (cols m) (map f (mat_elems s m)) s"

text \<open>\<open>np.concatenate((a, b))\<close> of two vectors.\<close>

definition concatenate :: "vector \<Rightarrow> vector \<Rightarrow> vector run" where
  "concatenate a b s = new_vector (vec_elems s a @ vec_elems s b) s"

text \<open>\<open>m.dot(v)\<close> of a matrix and a vector; ValueError when the shapes are not aligned.\<close>

definition inner :: "real list \<Rightarrow> real list \<Rightarrow> real" where
  "inner xs ys = sum_list (map2 (*) xs ys)"

definition row :: "nat \<Rightarrow> real list \<Rightarrow> nat \<Rightarrow> real list" where
  "row c xs i = take c (drop (i * c) xs)"

definition matvec :: "nat \<Rightarrow> nat \<Rightarrow> real list \<Rightarrow> real list \<Rightarrow> real list" where
  "matvec r c ws xs = map (\<lambda>i. inner (row c ws i) xs) [0..<r]"

definition dot :: "matrix \<Rightarrow> vector \<Rightarrow> vector run" where
  "dot m v s =
     (if cols m = len v
      then new_vector (matvec (rows m) (cols m) (mat_elems s m) (vec_elems s v)) s
      else (Inl ValueError, s))"

text \<open>\<open>np.random.random((r, c))\<close>: the next \<open>r * c\<close> values of the stream.\<close>

definition random_matrix :: "nat \<Rightarrow> nat \<Rightarrow> matrix run" where
  "random_matrix r c s =
     new_matrix r c (map (\<lambda>k. rand s (pos s + k)) [0..<r * c]) (s\<lparr>pos := pos s + r * c\<rparr>)"

subsection \<open>Spaces and actors\<close>

record space =
  sp_shape :: "nat list"
  low :: ndarray
  high :: ndarray

record discrete =
  act_n :: nat

record perceptron_actor =
  observation_space :: space
  action_space :: discrete
  n_obs :: nat
  obs_range :: ndarray
  n_act :: nat
  perceptron_matrix :: matrix

record neural_net_actor =
  nn_observation_space :: space
  nn_action_space :: discrete
  nn_n_obs :: nat
  nn_obs_range :: ndarray
  nn_n_act :: nat
  layers :: "matrix list"

text \<open>\<open>(np.random.random((out_size, in_size)) * 2) - 1\<close>\<close>

definition random_weights :: "nat \<Rightarrow> nat \<Rightarrow> matrix run" where
  "random_weights out_size in_size =
     seq (random_matrix out_size in_size) (\<lambda>r.
     seq (mmap (\<lambda>x. x * 2) r) (\<lambda>r2.
     mmap (\<lambda>x. x - 1) r2))"

text \<open>The range \<open>np.array(high, dtype=float) - np.array(low, dtype=float)\<close>.\<close>

definition make_obs_range :: "space \<Rightarrow> ndarray run" where
  "make_obs_range sp =
     seq (float_array (high sp)) (\<lambda>hi.
     seq (float_array (low sp)) (\<lambda>lo.
     sub_nd hi lo))"

subsection \<open>PerceptronActor\<close>

definition perceptron_init :: "space \<Rightarrow> discrete \<Rightarrow> perceptron_actor run" where
  "perceptron_init sp act =
     seq (lift (product (sp_shape sp))) (\<lambda>n.
     seq (make_obs_range sp) (\<lambda>rng.
     seq (random_weights (act_n act) n) (\<lambda>m.
     ret \<lparr>observation_space = sp, action_space = act, n_obs = n, obs_range = rng,
          n_act = act_n act, perceptron_matrix = m\<rparr>)))"

text \<open>The scan that ends both \<open>react_to\<close>:
  \<^verbatim>\<open>i = 0
for j,x in enumerate(outputs):
    if x > outputs[i]:
        i = j
return i\<close>\<close>

definition scan_max :: "real list \<Rightarrow> nat" where
  "scan_max outputs = foldl (\<lambda>i (j, x). if x > outputs ! i then j else i) 0 (enumerate 0 outputs)"

definition argmax_of :: "vector \<Rightarrow> nat run" where
  "argmax_of outputs s = (Inr (scan_max (vec_elems s outputs)), s)"

text \<open>Lines 40 to 43: the copy, the two in-place operators, the reshape and its copy.\<close>

definition perceptron_normalize :: "perceptron_actor \<Rightarrow> ndarray \<Rightarrow> vector run" where
  "perceptron_normalize self observation =
     seq (copy_nd observation) (\<lambda>obs.
     seq (isub_nd obs (low (observation_space self))) (\<lambda>_.
     seq (idiv_nd obs (obs_range self)) (\<lambda>_.
     seq (lift (reshape_nd obs (n_obs self))) (\<lambda>v.
     copy_vec v))))"

definition perceptron_react_to :: "perceptron_actor \<Rightarrow> ndarray \<Rightarrow> nat run" where
  "perceptron_react_to self observation =
     seq (perceptron_normalize self observation) (\<lambda>obs.
     seq (dot (perceptron_matrix self) obs) (\<lambda>outputs.
     argmax_of outputs))"

subsection \<open>NeuralNetActor\<close>

fun init_layers :: "(nat \<times> nat) list \<Rightarrow> matrix list \<Rightarrow> matrix list run" where
  "init_layers [] acc = ret acc"
| "init_layers ((in_size, out_size) # ps) acc =
     seq (random_weights out_size in_size) (\<lambda>m. init_layers ps (acc @ [m]))"

definition nn_init :: "space \<Rightarrow> discrete \<Rightarrow> nat list \<Rightarrow> neural_net_actor run" where
  "nn_init sp act hidden_layers =
     seq (lift (product (sp_shape sp))) (\<lambda>n.
     seq (make_obs_range sp) (\<lambda>rng.
     seq (init_layers (zip ([n] @ hidden_layers) (hidden_layers @ [act_n act])) []) (\<lambda>ls.
     ret \<lparr>nn_observation_space = sp, nn_action_space = act, nn_n_obs = n,
          nn_obs_range = rng, nn_n_act = act_n act, layers = ls\<rparr>)))"

text \<open>
  \<open>1. / (1. + np.exp(-current_vector))\<close>: a new array that holds, for every element, the
  value the machine computes for this expression. The three temporaries of the line are
  dead when it ends, and float64 \<open>exp\<close> overflows in them for arguments that the quotient
  still maps to 0.0: the model allocates the result only.
\<close>

definition squash :: "vector \<Rightarrow> vector run" where
  "squash v s = new_vector (map (logistic s) (vec_elems s v)) s"

fun feed :: "matrix list \<Rightarrow> vector \<Rightarrow> vector run" where
  "feed [] current_vector = ret current_vector"
| "feed (layer # ls) current_vector =
     seq (dot layer current_vector) (\<lambda>v.
     seq (squash v) (\<lambda>w.
     feed ls w))"

definition nn_normalize :: "neural_net_actor \<Rightarrow> ndarray \<Rightarrow> vector run" where
  "nn_normalize self observation =
     seq (copy_nd observation) (\<lambda>obs.
     seq (isub_nd obs (low (nn_observation_space self))) (\<lambda>_.
     seq (idiv_nd obs (nn_obs_range self)) (\<lambda>_.
     lift (reshape_nd obs (nn_n_obs self)))))"

definition nn_react_to :: "neural_net_actor \<Rightarrow> ndarray \<Rightarrow> nat run" where
  "nn_react_to self observation =
     seq (nn_normalize self observation) (\<lambda>current_vector.
     seq (feed (layers self) current_vector) (\<lambda>out.
     argmax_of out))"

subsection \<open>GeneticPerceptronActor\<close>

definition perceptron_get_genome :: "perceptron_actor \<Rightarrow> vector run" where
  "perceptron_get_genome self =
     seq (copy_mat (perceptron_matrix self)) (\<lambda>c.
     seq (lift (reshape_mat c (n_obs self * n_act self))) (\<lambda>v.
     seq (vmap (\<lambda>x. x + 1) v) (\<lambda>w.
     vmap (\<lambda>x. x / 2) w)))"

definition perceptron_from_genome :: "perceptron_actor \<Rightarrow> vector \<Rightarrow> perceptron_actor run" where
  "perceptron_from_genome self genome =
     seq (perceptron_init (observation_space self) (action_space self)) (\<lambda>pa.
     seq (copy_vec genome) (\<lambda>c.
     seq (lift (reshape_vec c (rows (perceptron_matrix self), cols (perceptron_matrix self)))) (\<lambda>m.
     seq (mmap (\<lambda>x. 2 * x) m) (\<lambda>m2.
     seq (mmap (\<lambda>x. x - 1) m2) (\<lambda>m3.
     ret (pa\<lparr>perceptron_matrix := m3\<rparr>))))))"

subsection \<open>GeneticNNActor\<close>

fun encode_layers :: "matrix list \<Rightarrow> vector \<Rightarrow> vector run" where
  "encode_layers [] genome = ret genome"
| "encode_layers (layer # ls) genome =
     seq (copy_mat layer) (\<lambda>c.
     seq (lift (product [rows layer, cols layer])) (\<lambda>k.
     seq (lift (reshape_mat c k)) (\<lambda>v.
     seq (concatenate genome v) (\<lambda>g.
     encode_layers ls g))))"

definition nn_get_genome :: "neural_net_actor \<Rightarrow> vector run" where
  "nn_get_genome self =
     seq (new_vector []) (\<lambda>genome.
     seq (encode_layers (layers self) genome) (\<lambda>g.
     seq (vmap (\<lambda>x. x + 1) g) (\<lambda>w.
     vmap (\<lambda>x. x / 2) w)))"

fun decode_layers :: "vector \<Rightarrow> matrix list \<Rightarrow> nat \<Rightarrow> matrix list \<Rightarrow> matrix list run" where
  "decode_layers genome [] start acc = ret acc"
| "decode_layers genome (layer # ls) start acc =
     seq (lift (product [rows layer, cols layer])) (\<lambda>layer_size.
     seq (copy_vec (slice genome start (start + layer_size))) (\<lambda>c.
     seq (lift (reshape_vec c (rows layer, cols layer))) (\<lambda>new_layer.
     decode_layers genome ls (start + layer_size) (acc @ [new_layer]))))"

definition nn_from_genome :: "neural_net_actor \<Rightarrow> vector \<Rightarrow> neural_net_actor run" where
  "nn_from_genome self genome =
     seq (copy_vec genome) (\<lambda>c.
     seq (vmap (\<lambda>x. x * 2) c) (\<lambda>c2.
     seq (vmap (\<lambda>x. x - 1) c2) (\<lambda>g.
     seq (nn_init (nn_observation_space self) (nn_action_space self) []) (\<lambda>nna.
     seq (decode_layers g (layers self) 0 []) (\<lambda>ls.
     ret (nna\<lparr>layers := ls\<rparr>))))))"

subsection \<open>Well-formed references\<close>

text \<open>
  A Python reference always points to a live array that owns all its elements. In the
  model a block is a pair of numbers, so the theorems say which blocks are references
  of the store: the buffer exists and holds the block.
\<close>

definition valid :: "state \<Rightarrow> 'a block_scheme \<Rightarrow> nat \<Rightarrow> bool" where
  "valid s b k \<longleftrightarrow> buf b < length (bufs s) \<and> off b + k \<le> length (bufs s ! buf b)"

definition valid_vec :: "state \<Rightarrow> vector \<Rightarrow> bool" where
  "valid_vec s v \<longleftrightarrow> valid s v (len v)"

definition valid_mat :: "state \<Rightarrow> matrix \<Rightarrow> bool" where
  "valid_mat s m \<longleftrightarrow> valid s m (rows m * cols m)"

definition valid_nd :: "state \<Rightarrow> ndarray \<Rightarrow> bool" where
  "valid_nd s a \<longleftrightarrow> valid s a (prod_list (shape a))"

text \<open>A box space: both bounds are arrays of the shape of the space.\<close>

definition wf_space :: "state \<Rightarrow> space \<Rightarrow> bool" where
  "wf_space s sp \<longleftrightarrow>
     sp_shape sp \<noteq> [] \<and> shape (low sp) = sp_shape sp \<and> shape (high sp) = sp_shape sp \<and>
     valid_nd s (low sp) \<and> valid_nd s (high sp)"

text \<open>What both constructors establish, and \<open>from_genome\<close> keeps.\<close>

definition wf_perceptron :: "state \<Rightarrow> perceptron_actor \<Rightarrow> bool" where
  "wf_perceptron s a \<longleftrightarrow>
     wf_space s (observation_space a) \<and>
     n_obs a = prod_list (sp_shape (observation_space a)) \<and>
     n_act a = act_n (action_space a) \<and>
     shape (obs_range a) = sp_shape (observation_space a) \<and> valid_nd s (obs_range a) \<and>
     rows (perceptron_matrix a) = n_act a \<and> cols (perceptron_matrix a) = n_obs a \<and>
     valid_mat s (perceptron_matrix a)"

definition wf_nn :: "state \<Rightarrow> neural_net_actor \<Rightarrow> bool" where
  "wf_nn s a \<longleftrightarrow>
     wf_space s (nn_observation_space a) \<and>
     nn_n_obs a = prod_list (sp_shape (nn_observation_space a)) \<and>
     nn_n_act a = act_n (nn_action_space a) \<and>
     shape (nn_obs_range a) = sp_shape (nn_observation_space a) \<and> valid_nd s (nn_obs_range a) \<and>
     list_all (valid_mat s) (layers a)"

text \<open>The tie-break of the scan, in the words of the specification: \<open>i\<close> is below \<open>n\<close>,
  no value among the first \<open>n\<close> is greater, and every earlier value is smaller.\<close>

definition first_max :: "real list \<Rightarrow> nat \<Rightarrow> nat \<Rightarrow> bool" where
  "first_max outputs n i \<longleftrightarrow>
     i < n \<and> (\<forall>j<n. outputs ! j \<le> outputs ! i) \<and> (\<forall>k<i. outputs ! k < outputs ! i)"

subsection \<open>Functional readings used in the statements\<close>

text \<open>The logistic function over the reals, which the machine approximates.\<close>

definition sigmoid :: "real \<Rightarrow> real" where
  "sigmoid x = 1 / (1 + exp (- x))"

text \<open>What \<open>feed\<close> computes on the elements, with \<open>f\<close> for the logistic function of the
  machine: each layer is given by its shape and its elements in row-major order.\<close>

fun feed_spec ::
  "(real \<Rightarrow> real) \<Rightarrow> (nat \<times> nat \<times> real list) list \<Rightarrow> real list \<Rightarrow> error + real list" where
  "feed_spec f [] v = Inr v"
| "feed_spec f ((r, c, ws) # ls) v =
     (if c = length v then feed_spec f ls (map f (matvec r c ws v)) else Inl ValueError)"

definition layer_of :: "state \<Rightarrow> matrix \<Rightarrow> nat \<times> nat \<times> real list" where
  "layer_of s m = (rows m, cols m, mat_elems s m)"

text \<open>Consecutive pieces of the given sizes, at a running offset.\<close>

fun split_sizes :: "nat list \<Rightarrow> 'a list \<Rightarrow> 'a list list" where
  "split_sizes [] xs = []"
| "split_sizes (k # ks) xs = take k xs # split_sizes ks (drop k xs)"

subsection \<open>Concrete stores\<close>

text \<open>
  A machine for the examples: its logistic function is the real one below 37 and is 1
  from 37 on, where float64 rounds \<open>1 + exp (- x)\<close> to 1.
\<close>

definition ex_logistic :: "real \<Rightarrow> real" where
  "ex_logistic x = (if 37 \<le> x then 1 else sigmoid x)"

text \<open>
  A box space over two dimensions with low = [0, 0] and high = [2, 4], the observation
  [1, 2] once as a floating and once as an integer array, the range [2, 4], a weight
  matrix with rows [1/2, 0] and [0, 1/4], a genome of four elements, and a perceptron and
  a network without hidden layers that both hold this one matrix.
\<close>

definition ex_store :: state where
  "ex_store = \<lparr>bufs = [[0, 0], [2, 4], [1, 2], [2, 4], [1/2, 0, 0, 1/4], [3/4, 1/2, 1/2, 5/8]],
               rand = (\<lambda>k. 1 / (real k + 2)), pos = 0, logistic = ex_logistic\<rparr>"

definition ex_space :: space where
  "ex_space = \<lparr>sp_shape = [2], low = \<lparr>buf = 0, off = 0, shape = [2], dtype = Floating\<rparr>,
               high = \<lparr>buf = 1, off = 0, shape = [2], dtype = Floating\<rparr>\<rparr>"

definition ex_obs :: ndarray where
  "ex_obs = \<lparr>buf = 2, off = 0, shape = [2], dtype = Floating\<rparr>"

definition ex_obs_int :: ndarray where
  "ex_obs_int = \<lparr>buf = 2, off = 0, shape = [2], dtype = Integer\<rparr>"

definition ex_matrix :: matrix where
  "ex_matrix = \<lparr>buf = 4, off = 0, rows = 2, cols = 2\<rparr>"

definition ex_genome :: vector where
  "ex_genome = \<lparr>buf = 5, off = 0, len = 4\<rparr>"

definition ex_perceptron :: perceptron_actor where
  "ex_perceptron = \<lparr>observation_space = ex_space, action_space = \<lparr>act_n = 2\<rparr>, n_obs = 2,
      obs_range = \<lparr>buf = 3, off = 0, shape = [2], dtype = Floating\<rparr>, n_act = 2,
      perceptron_matrix = ex_matrix\<rparr>"

definition ex_nn :: neural_net_actor where
  "ex_nn = \<lparr>nn_observation_space = ex_space, nn_action_space = \<lparr>act_n = 2\<rparr>, nn_n_obs = 2,
      nn_obs_range = \<lparr>buf = 3, off = 0, shape = [2], dtype = Floating\<rparr>, nn_n_act = 2,
      layers = [ex_matrix]\<rparr>"

text \<open>
  A second store for the network with hidden layers [4, 3] over five observation
  dimensions and two actions: the bounds, the range, three layers of 20, 12 and 6
  weights, and a genome of 38 elements.
\<close>

definition ex_store2 :: state where
  "ex_store2 = \<lparr>bufs = [replicate 5 0, replicate 5 1, replicate 5 1, replicate 20 (1/2),
                        replicate 12 (1/4), replicate 6 0, replicate 38 (3/4)],
                rand = (\<lambda>k. 1/2), pos = 0, logistic = ex_logistic\<rparr>"

definition ex_space2 :: space where
  "ex_space2 = \<lparr>sp_shape = [5], low = \<lparr>buf = 0, off = 0, shape = [5], dtype = Floating\<rparr>,
                high = \<lparr>buf = 1, off = 0, shape = [5], dtype = Floating\<rparr>\<rparr>"

definition ex_nn2 :: neural_net_actor where
  "ex_nn2 = \<lparr>nn_observation_space = ex_space2, nn_action_space = \<lparr>act_n = 2\<rparr>, nn_n_obs = 5,
      nn_obs_range = \<lparr>buf = 2, off = 0, shape = [5], dtype = Floating\<rparr>, nn_n_act = 2,
      layers = [\<lparr>buf = 3, off = 0, rows = 4, cols = 5\<rparr>, \<lparr>buf = 4, off = 0, rows = 3, cols = 4\<rparr>,
                \<lparr>buf = 5, off = 0, rows = 2, cols = 3\<rparr>]\<rparr>"

definition ex_genome2 :: vector where
  "ex_genome2 = \<lparr>buf = 6, off = 0, len = 38\<rparr>"

text \<open>
  A third store, where the logistic function saturates: 64 observation dimensions with
  low = 0 and high = 1, the observation at its upper bound, and a matrix whose first row
  holds 5/8 and whose second row holds 3/4 throughout, so that the two outputs of the
  matrix are 40 and 48.
\<close>

definition ex_store3 :: state where
  "ex_store3 = \<lparr>bufs = [replicate 64 0, replicate 64 1, replicate 64 1, replicate 64 1,
                        replicate 64 (5/8) @ replicate 64 (3/4)],
                rand = (\<lambda>k. 1/2), pos = 0, logistic = ex_logistic\<rparr>"

definition ex_space3 :: space where
  "ex_space3 = \<lparr>sp_shape = [64], low = \<lparr>buf = 0, off = 0, shape = [64], dtype = Floating\<rparr>,
                high = \<lparr>buf = 1, off = 0, shape = [64], dtype = Floating\<rparr>\<rparr>"

definition ex_obs3 :: ndarray where
  "ex_obs3 = \<lparr>buf = 2, off = 0, shape = [64], dtype = Floating\<rparr>"

definition ex_matrix3 :: matrix where
  "ex_matrix3 = \<lparr>buf = 4, off = 0, rows = 2, cols = 64\<rparr>"

definition ex_perceptron3 :: perceptron_actor where
  "ex_perceptron3 = \<lparr>observation_space = ex_space3, action_space = \<lparr>act_n = 2\<rparr>, n_obs = 64,
      obs_range = \<lparr>buf = 3, off = 0, shape = [64], dtype = Floating\<rparr>, n_act = 2,
      perceptron_matrix = ex_matrix3\<rparr>"

definition ex_nn3 :: neural_net_actor where
  "ex_nn3 = \<lparr>nn_observation_space = ex_space3, nn_action_space = \<lparr>act_n = 2\<rparr>, nn_n_obs = 64,
      nn_obs_range = \<lparr>buf = 3, off = 0, shape = [64], dtype = Floating\<rparr>, nn_n_act = 2,
      layers = [ex_matrix3]\<rparr>"

section \<open>Properties of the model\<close>

subsection \<open>The product of a shape\<close>

lemma foldl_mult_prod: "foldl (\<lambda>x y. x * y) (a::nat) xs = a * prod_list xs"
  by (induction xs arbitrary: a) (simp_all add: mult.assoc)

lemma product_nonempty: "xs \<noteq> [] \<Longrightarrow> product xs = Inr (prod_list xs)"
  by (cases xs) (simp_all add: foldl_mult_prod)

subsection \<open>The scan\<close>

lemma scan_step:
  assumes "first_max outputs n i" "n < length outputs"
  shows "first_max outputs (Suc n) (if outputs ! n > outputs ! i then n else i)"
  using assms unfolding first_max_def
  by (auto simp: less_Suc_eq intro: less_imp_le order.strict_trans1 order.trans)

lemma scan_inv:
  "xs = drop n outputs \<Longrightarrow> n \<le> length outputs \<Longrightarrow> first_max outputs n i \<Longrightarrow>
   first_max outputs (length outputs)
     (foldl (\<lambda>i (j, x). if x > outputs ! i then j else i) i (enumerate n xs))"
proof (induction xs arbitrary: n i)
  case Nil
  then show ?case by simp
next
  case (Cons x xs)
  have n: "n < length outputs" using Cons.prems(1,2)
    by (metis drop_all leI list.distinct(1))
  have x: "x = outputs ! n" and xs: "xs = drop (Suc n) outputs"
    using Cons.prems(1) n by (simp_all add: Cons_nth_drop_Suc[symmetric])
  have "first_max outputs (Suc n) (if outputs ! n > outputs ! i then n else i)"
    by (rule scan_step[OF Cons.prems(3) n])
  from Cons.IH[OF xs _ this] n show ?case by (simp add: x)
qed

lemma scan_max_first_max:
  assumes "outputs \<noteq> []"
  shows "first_max outputs (length outputs) (scan_max outputs)"
proof -
  obtain x xs where o: "outputs = x # xs" using assms by (cases outputs) auto
  have f: "first_max outputs 1 0" by (simp add: first_max_def)
  have "first_max outputs (length outputs)
     (foldl (\<lambda>i (j, x). if x > outputs ! i then j else i) 0 (enumerate 1 (drop 1 outputs)))"
    by (rule scan_inv[OF refl _ f]) (simp add: o)
  then show ?thesis by (simp add: scan_max_def o)
qed




subsection \<open>Reading the store\<close>

lemma rd_length: "valid s b k \<Longrightarrow> length (rd s b k) = k"
  by (auto simp: valid_def rd_def)

lemma prefix_nth: "prefix xs ys \<Longrightarrow> n < length xs \<Longrightarrow> ys ! n = xs ! n"
  by (auto simp: prefix_def nth_append)

lemma rd_prefix: "prefix (bufs s) (bufs t) \<Longrightarrow> buf b < length (bufs s) \<Longrightarrow> rd t b k = rd s b k"
  by (simp add: rd_def prefix_nth)

lemma valid_prefix: "prefix (bufs s) (bufs t) \<Longrightarrow> valid s b k \<Longrightarrow> valid t b k"
  by (auto simp: valid_def prefix_nth dest: prefix_length_le)

lemma vec_elems_length: "valid_vec s v \<Longrightarrow> length (vec_elems s v) = len v"
  by (simp add: valid_vec_def vec_elems_def rd_length)

lemma mat_elems_length: "valid_mat s m \<Longrightarrow> length (mat_elems s m) = rows m * cols m"
  by (simp add: valid_mat_def mat_elems_def rd_length)

lemma nd_elems_length: "valid_nd s a \<Longrightarrow> length (nd_elems s a) = prod_list (shape a)"
  by (simp add: valid_nd_def nd_elems_def rd_length)

lemma vec_elems_prefix:
  "prefix (bufs s) (bufs t) \<Longrightarrow> valid_vec s v \<Longrightarrow> vec_elems t v = vec_elems s v"
  by (simp add: vec_elems_def valid_vec_def valid_def rd_prefix)

lemma mat_elems_prefix:
  "prefix (bufs s) (bufs t) \<Longrightarrow> valid_mat s m \<Longrightarrow> mat_elems t m = mat_elems s m"
  by (simp add: mat_elems_def valid_mat_def valid_def rd_prefix)

lemma nd_elems_prefix:
  "prefix (bufs s) (bufs t) \<Longrightarrow> valid_nd s a \<Longrightarrow> nd_elems t a = nd_elems s a"
  by (simp add: nd_elems_def valid_nd_def valid_def rd_prefix)

lemma valid_vec_prefix: "prefix (bufs s) (bufs t) \<Longrightarrow> valid_vec s v \<Longrightarrow> valid_vec t v"
  by (simp add: valid_vec_def valid_prefix)

lemma valid_mat_prefix: "prefix (bufs s) (bufs t) \<Longrightarrow> valid_mat s m \<Longrightarrow> valid_mat t m"
  by (simp add: valid_mat_def valid_prefix)

lemma valid_nd_prefix: "prefix (bufs s) (bufs t) \<Longrightarrow> valid_nd s a \<Longrightarrow> valid_nd t a"
  by (simp add: valid_nd_def valid_prefix)

lemma wf_space_prefix: "prefix (bufs s) (bufs t) \<Longrightarrow> wf_space s sp \<Longrightarrow> wf_space t sp"
  by (simp add: wf_space_def valid_nd_prefix)

lemma list_all_valid_mat_prefix:
  "prefix (bufs s) (bufs t) \<Longrightarrow> list_all (valid_mat s) ms \<Longrightarrow> list_all (valid_mat t) ms"
  by (induction ms) (simp_all add: valid_mat_prefix)

lemma map_mat_elems_prefix:
  "prefix (bufs s) (bufs t) \<Longrightarrow> list_all (valid_mat s) ms \<Longrightarrow>
   map (mat_elems t) ms = map (mat_elems s) ms"
  by (induction ms) (simp_all add: mat_elems_prefix)

lemma wf_perceptron_prefix:
  "prefix (bufs s) (bufs t) \<Longrightarrow> wf_perceptron s a \<Longrightarrow> wf_perceptron t a"
  by (simp add: wf_perceptron_def wf_space_prefix valid_nd_prefix valid_mat_prefix)

lemma wf_nn_prefix:
  "prefix (bufs s) (bufs t) \<Longrightarrow> wf_nn s a \<Longrightarrow> wf_nn t a"
  by (simp add: wf_nn_def wf_space_prefix valid_nd_prefix list_all_valid_mat_prefix)

subsection \<open>Allocation\<close>

lemma new_vector_run:
  "new_vector xs s =
     (Inr \<lparr>buf = length (bufs s), off = 0, len = length xs\<rparr>, s\<lparr>bufs := bufs s @ [xs]\<rparr>)"
  by (simp add: new_vector_def seq_def alloc_def ret_def)

lemma new_matrix_run:
  "new_matrix r c xs s =
     (Inr \<lparr>buf = length (bufs s), off = 0, rows = r, cols = c\<rparr>, s\<lparr>bufs := bufs s @ [xs]\<rparr>)"
  by (simp add: new_matrix_def seq_def alloc_def ret_def)

lemma new_ndarray_run:
  "new_ndarray sh dt xs s =
     (Inr \<lparr>buf = length (bufs s), off = 0, shape = sh, dtype = dt\<rparr>, s\<lparr>bufs := bufs s @ [xs]\<rparr>)"
  by (simp add: new_ndarray_def seq_def alloc_def ret_def)

subsection \<open>Broadcasting of equal shapes\<close>

lemma bshape_same: "bshape xs xs = Some xs"
  by (induction xs) simp_all

lemma broadcast_shapes_same: "broadcast_shapes sh sh = Some sh"
  by (simp add: broadcast_shapes_def bshape_same)

lemma pad_shape_same: "pad_shape (length sh) sh = sh"
  by (simp add: pad_shape_def)

lemma concat_chunks:
  "concat (map (\<lambda>k. take n (drop (k * n) xs)) [0..<t]) = take (t * n) xs"
proof (induction t)
  case 0
  then show ?case by simp
next
  case (Suc t)
  have "take (Suc t * n) xs = take (t * n) xs @ take n (drop (t * n) xs)"
    by (simp add: take_add[symmetric] add.commute)
  with Suc show ?case by simp
qed

lemma bcast_same: "length xs \<le> prod_list sh \<Longrightarrow> bcast sh sh xs = xs"
proof (induction sh arbitrary: xs)
  case Nil
  then show ?case by simp
next
  case (Cons t ts)
  have "bcast (t # ts) (t # ts) xs
      = concat (map (\<lambda>k. take (prod_list ts) (drop (k * prod_list ts) xs)) [0..<t])"
    by (simp add: Cons.IH)
  also have "\<dots> = xs"
    using Cons.prems by (simp add: concat_chunks)
  finally show ?case .
qed

lemma wf_space_lengths:
  assumes "wf_space s sp"
  shows "length (nd_elems s (high sp)) = prod_list (sp_shape sp)"
    and "length (nd_elems s (low sp)) = prod_list (sp_shape sp)"
    and "buf (low sp) < length (bufs s)" and "buf (high sp) < length (bufs s)"
proof -
  have v: "valid_nd s (high sp)" "valid_nd s (low sp)"
    and sh: "shape (high sp) = sp_shape sp" "shape (low sp) = sp_shape sp"
    using assms by (simp_all add: wf_space_def)
  show "length (nd_elems s (high sp)) = prod_list (sp_shape sp)"
    using nd_elems_length[OF v(1)] sh by simp
  show "length (nd_elems s (low sp)) = prod_list (sp_shape sp)"
    using nd_elems_length[OF v(2)] sh by simp
  show "buf (low sp) < length (bufs s)" "buf (high sp) < length (bufs s)"
    using v by (simp_all add: valid_nd_def valid_def)
qed

lemma rd_length_le: "length (rd s b k) \<le> k"
  by (simp add: rd_def)

lemma broadcast_to_same: "shape a = sh \<Longrightarrow> broadcast_to sh s a = nd_elems s a"
  by (simp add: broadcast_to_def pad_shape_same bcast_same nd_elems_def rd_length_le)

lemma sub_nd_same:
  "shape a = shape b \<Longrightarrow>
   sub_nd a b s =
     new_ndarray (shape a) (promote (dtype a) (dtype b)) (map2 (-) (nd_elems s a) (nd_elems s b)) s"
  by (simp add: sub_nd_def broadcast_shapes_same broadcast_to_same)

lemma rd_old: "buf b < length (bufs s) \<Longrightarrow> rd (s\<lparr>bufs := bufs s @ C\<rparr>) b k = rd s b k"
  by (simp add: rd_def nth_append)

lemma rd_new:
  "rd (s\<lparr>bufs := bufs s @ C\<rparr>) \<lparr>buf = length (bufs s) + i, off = 0, \<dots> = e\<rparr> k = take k (C ! i)"
  by (simp add: rd_def nth_append)

lemma rd_new0:
  "rd (s\<lparr>bufs := bufs s @ C\<rparr>) \<lparr>buf = length (bufs s), off = 0, \<dots> = e\<rparr> k = take k (C ! 0)"
  using rd_new[of s C 0] by simp

lemma make_obs_range_run:
  assumes "wf_space s sp"
  shows "make_obs_range sp s =
     (Inr \<lparr>buf = length (bufs s) + 2, off = 0, shape = sp_shape sp, dtype = Floating\<rparr>,
      s\<lparr>bufs := bufs s @ [nd_elems s (high sp), nd_elems s (low sp),
                          map2 (-) (nd_elems s (high sp)) (nd_elems s (low sp))]\<rparr>)"
proof -
  note h = wf_space_lengths(1)[OF assms] and l = wf_space_lengths(2)[OF assms]
    and bl = wf_space_lengths(3)[OF assms]
  have sh: "shape (high sp) = sp_shape sp" "shape (low sp) = sp_shape sp"
    using assms by (simp_all add: wf_space_def)
  show ?thesis
    using h l bl
    by (simp add: make_obs_range_def seq_def float_array_def new_ndarray_run sub_nd_same sh
        promote_def nd_elems_def rd_old rd_new rd_new0)
qed

lemma random_weights_run:
  "random_weights r c s =
     (Inr \<lparr>buf = length (bufs s) + 2, off = 0, rows = r, cols = c\<rparr>,
      s\<lparr>bufs := bufs s @ [map (\<lambda>k. rand s (pos s + k)) [0..<r * c],
                          map (\<lambda>k. rand s (pos s + k) * 2) [0..<r * c],
                          map (\<lambda>k. rand s (pos s + k) * 2 - 1) [0..<r * c]],
        pos := pos s + r * c\<rparr>)"
  by (simp add: random_weights_def seq_def random_matrix_def new_matrix_run mmap_def
      mat_elems_def rd_def nth_append o_def)

lemma perceptron_init_run:
  assumes "wf_space s sp"
  shows "perceptron_init sp act s =
     (Inr \<lparr>observation_space = sp, action_space = act, n_obs = prod_list (sp_shape sp),
           obs_range = \<lparr>buf = length (bufs s) + 2, off = 0, shape = sp_shape sp,
                        dtype = Floating\<rparr>,
           n_act = act_n act,
           perceptron_matrix = \<lparr>buf = length (bufs s) + 5, off = 0, rows = act_n act,
                                 cols = prod_list (sp_shape sp)\<rparr>\<rparr>,
      s\<lparr>bufs := bufs s @ [nd_elems s (high sp), nd_elems s (low sp),
                          map2 (-) (nd_elems s (high sp)) (nd_elems s (low sp)),
                          map (\<lambda>k. rand s (pos s + k)) [0..<act_n act * prod_list (sp_shape sp)],
                          map (\<lambda>k. rand s (pos s + k) * 2) [0..<act_n act * prod_list (sp_shape sp)],
                          map (\<lambda>k. rand s (pos s + k) * 2 - 1) [0..<act_n act * prod_list (sp_shape sp)]],
        pos := pos s + act_n act * prod_list (sp_shape sp)\<rparr>)"
proof -
  have ne: "sp_shape sp \<noteq> []" using assms by (simp add: wf_space_def)
  show ?thesis
    by (simp add: perceptron_init_def seq_def lift_def product_nonempty[OF ne]
        make_obs_range_run[OF assms] random_weights_run ret_def)
qed

lemma perceptron_init_spec:
  assumes "wf_space s sp"
  shows "\<exists>A s'. perceptron_init sp act s = (Inr A, s') \<and> prefix (bufs s) (bufs s') \<and>
           wf_perceptron s' A \<and> observation_space A = sp \<and> action_space A = act \<and>
           length (bufs s) \<le> buf (perceptron_matrix A) \<and>
           mat_elems s' (perceptron_matrix A) =
             map (\<lambda>k. rand s (pos s + k) * 2 - 1) [0..<act_n act * prod_list (sp_shape sp)] \<and>
           nd_elems s' (obs_range A) = map2 (-) (nd_elems s (high sp)) (nd_elems s (low sp)) \<and>
           dtype (obs_range A) = Floating \<and> logistic s' = logistic s"
proof -
  note h = wf_space_lengths(1)[OF assms] and l = wf_space_lengths(2)[OF assms]
  show ?thesis
    using h l
    by (simp add: perceptron_init_run[OF assms] wf_perceptron_def valid_nd_def valid_mat_def
        valid_def mat_elems_def nd_elems_def[of "_\<lparr>bufs := _, pos := _\<rparr>"] rd_def nth_append
        wf_space_prefix[OF _ assms])
qed

subsection \<open>The in-place operators on a fresh copy\<close>

lemma list_ex_zip_zero:
  "length xs = length ds \<Longrightarrow> list_ex (\<lambda>(x, d). d = (0::real)) (zip xs ds) \<longleftrightarrow> 0 \<in> set ds"
  by (induction xs ds rule: list_induct2) auto

lemma isub_nd_fresh:
  assumes "shape b = sh" "buf b < length (bufs s)" "length xs = prod_list sh"
    "length (nd_elems s b) = prod_list sh"
  shows "isub_nd \<lparr>buf = length (bufs s), off = 0, shape = sh, dtype = dt\<rparr> b
           (s\<lparr>bufs := bufs s @ [xs]\<rparr>)
       = (if dt = Integer \<and> dtype b = Floating then (Inl TypeError, s\<lparr>bufs := bufs s @ [xs]\<rparr>)
          else (Inr (), s\<lparr>bufs := bufs s @ [map2 (-) xs (nd_elems s b)]\<rparr>))"
  using assms
  by (simp add: isub_nd_def broadcast_shapes_same broadcast_to_same store_def nd_elems_def
      rd_old rd_new0)

lemma idiv_nd_fresh:
  assumes "shape b = sh" "buf b < length (bufs s)" "length xs = prod_list sh"
    "length (nd_elems s b) = prod_list sh"
  shows "idiv_nd \<lparr>buf = length (bufs s), off = 0, shape = sh, dtype = dt\<rparr> b
           (s\<lparr>bufs := bufs s @ [xs]\<rparr>)
       = (if dt = Integer then (Inl TypeError, s\<lparr>bufs := bufs s @ [xs]\<rparr>)
          else if 0 \<in> set (nd_elems s b) then (Inl NonFinite, s\<lparr>bufs := bufs s @ [xs]\<rparr>)
          else (Inr (), s\<lparr>bufs := bufs s @ [map2 (/) xs (nd_elems s b)]\<rparr>))"
  using assms
  by (simp add: idiv_nd_def broadcast_shapes_same broadcast_to_same store_def nd_elems_def
      rd_old rd_new0 list_ex_zip_zero)

subsection \<open>Normalisation\<close>

lemma perceptron_normalize_run:
  assumes wf: "wf_perceptron s A" and v: "valid_nd s obs"
    and sh: "shape obs = sp_shape (observation_space A)" and fl: "dtype obs = Floating"
  shows "perceptron_normalize A obs s =
     (if 0 \<in> set (nd_elems s (obs_range A))
      then (Inl NonFinite,
            s\<lparr>bufs := bufs s @ [map2 (-) (nd_elems s obs) (nd_elems s (low (observation_space A)))]\<rparr>)
      else (Inr \<lparr>buf = length (bufs s) + 1, off = 0, len = n_obs A\<rparr>,
            s\<lparr>bufs := bufs s @
              [map2 (/) (map2 (-) (nd_elems s obs) (nd_elems s (low (observation_space A))))
                        (nd_elems s (obs_range A)),
               map2 (/) (map2 (-) (nd_elems s obs) (nd_elems s (low (observation_space A))))
                        (nd_elems s (obs_range A))]\<rparr>))"
proof -
  let ?sp = "observation_space A"
  have sp: "wf_space s ?sp" using wf by (simp add: wf_perceptron_def)
  note l = wf_space_lengths(2)[OF sp] and bl = wf_space_lengths(3)[OF sp]
  have shl: "shape (low ?sp) = sp_shape ?sp" using sp by (simp add: wf_space_def)
  have shr: "shape (obs_range A) = sp_shape ?sp" and vr: "valid_nd s (obs_range A)"
    and n: "n_obs A = prod_list (sp_shape ?sp)"
    using wf by (simp_all add: wf_perceptron_def)
  have r: "length (nd_elems s (obs_range A)) = prod_list (sp_shape ?sp)"
    using nd_elems_length[OF vr] shr by simp
  have br: "buf (obs_range A) < length (bufs s)" using vr by (simp add: valid_nd_def valid_def)
  have x: "length (nd_elems s obs) = prod_list (sp_shape ?sp)"
    using nd_elems_length[OF v] sh by simp
  show ?thesis
    using l r x
    by (simp add: perceptron_normalize_def seq_def copy_nd_def new_ndarray_run sh fl
        isub_nd_fresh[OF shl bl x l] idiv_nd_fresh[OF shr br _ r] lift_def reshape_nd_def n
        copy_vec_def new_vector_run vec_elems_def rd_new0)
qed

text \<open>An integer observation: the copy is an integer array, and the subtraction of a
  floating bound, or else the division, raises TypeError.\<close>

lemma perceptron_normalize_int:
  assumes wf: "wf_perceptron s A" and v: "valid_nd s obs"
    and sh: "shape obs = sp_shape (observation_space A)" and it: "dtype obs = Integer"
  shows "fst (perceptron_normalize A obs s) = Inl TypeError"
proof -
  let ?sp = "observation_space A"
  have sp: "wf_space s ?sp" using wf by (simp add: wf_perceptron_def)
  note l = wf_space_lengths(2)[OF sp] and bl = wf_space_lengths(3)[OF sp]
  have shl: "shape (low ?sp) = sp_shape ?sp" using sp by (simp add: wf_space_def)
  have shr: "shape (obs_range A) = sp_shape ?sp" and vr: "valid_nd s (obs_range A)"
    using wf by (simp_all add: wf_perceptron_def)
  have r: "length (nd_elems s (obs_range A)) = prod_list (sp_shape ?sp)"
    using nd_elems_length[OF vr] shr by simp
  have br: "buf (obs_range A) < length (bufs s)" using vr by (simp add: valid_nd_def valid_def)
  have x: "length (nd_elems s obs) = prod_list (sp_shape ?sp)"
    using nd_elems_length[OF v] sh by simp
  show ?thesis
    using l r x
    by (simp add: perceptron_normalize_def seq_def copy_nd_def new_ndarray_run sh it
        isub_nd_fresh[OF shl bl x l] idiv_nd_fresh[OF shr br _ r])
qed

lemma nn_normalize_run:
  assumes wf: "wf_nn s B" and v: "valid_nd s obs"
    and sh: "shape obs = sp_shape (nn_observation_space B)" and fl: "dtype obs = Floating"
  shows "nn_normalize B obs s =
     (if 0 \<in> set (nd_elems s (nn_obs_range B))
      then (Inl NonFinite,
            s\<lparr>bufs := bufs s @ [map2 (-) (nd_elems s obs) (nd_elems s (low (nn_observation_space B)))]\<rparr>)
      else (Inr \<lparr>buf = length (bufs s), off = 0, len = nn_n_obs B\<rparr>,
            s\<lparr>bufs := bufs s @
              [map2 (/) (map2 (-) (nd_elems s obs) (nd_elems s (low (nn_observation_space B))))
                        (nd_elems s (nn_obs_range B))]\<rparr>))"
proof -
  let ?sp = "nn_observation_space B"
  have sp: "wf_space s ?sp" using wf by (simp add: wf_nn_def)
  note l = wf_space_lengths(2)[OF sp] and bl = wf_space_lengths(3)[OF sp]
  have shl: "shape (low ?sp) = sp_shape ?sp" using sp by (simp add: wf_space_def)
  have shr: "shape (nn_obs_range B) = sp_shape ?sp" and vr: "valid_nd s (nn_obs_range B)"
    and n: "nn_n_obs B = prod_list (sp_shape ?sp)"
    using wf by (simp_all add: wf_nn_def)
  have r: "length (nd_elems s (nn_obs_range B)) = prod_list (sp_shape ?sp)"
    using nd_elems_length[OF vr] shr by simp
  have br: "buf (nn_obs_range B) < length (bufs s)" using vr by (simp add: valid_nd_def valid_def)
  have x: "length (nd_elems s obs) = prod_list (sp_shape ?sp)"
    using nd_elems_length[OF v] sh by simp
  show ?thesis
    using l r x
    by (simp add: nn_normalize_def seq_def copy_nd_def new_ndarray_run sh fl
        isub_nd_fresh[OF shl bl x l] idiv_nd_fresh[OF shr br _ r] lift_def reshape_nd_def n)
qed

lemma nn_normalize_int:
  assumes wf: "wf_nn s B" and v: "valid_nd s obs"
    and sh: "shape obs = sp_shape (nn_observation_space B)" and it: "dtype obs = Integer"
  shows "fst (nn_normalize B obs s) = Inl TypeError"
proof -
  let ?sp = "nn_observation_space B"
  have sp: "wf_space s ?sp" using wf by (simp add: wf_nn_def)
  note l = wf_space_lengths(2)[OF sp] and bl = wf_space_lengths(3)[OF sp]
  have shl: "shape (low ?sp) = sp_shape ?sp" using sp by (simp add: wf_space_def)
  have shr: "shape (nn_obs_range B) = sp_shape ?sp" and vr: "valid_nd s (nn_obs_range B)"
    using wf by (simp_all add: wf_nn_def)
  have r: "length (nd_elems s (nn_obs_range B)) = prod_list (sp_shape ?sp)"
    using nd_elems_length[OF vr] shr by simp
  have br: "buf (nn_obs_range B) < length (bufs s)" using vr by (simp add: valid_nd_def valid_def)
  have x: "length (nd_elems s obs) = prod_list (sp_shape ?sp)"
    using nd_elems_length[OF v] sh by simp
  show ?thesis
    using l r x
    by (simp add: nn_normalize_def seq_def copy_nd_def new_ndarray_run sh it
        isub_nd_fresh[OF shl bl x l] idiv_nd_fresh[OF shr br _ r])
qed

subsection \<open>dot, squash and feed\<close>

lemma matvec_length: "length (matvec r c ws xs) = r"
  by (simp add: matvec_def)

lemma dot_run:
  "dot m v s =
     (if cols m = len v
      then (Inr \<lparr>buf = length (bufs s), off = 0, len = rows m\<rparr>,
            s\<lparr>bufs := bufs s @ [matvec (rows m) (cols m) (mat_elems s m) (vec_elems s v)]\<rparr>)
      else (Inl ValueError, s))"
  by (simp add: dot_def new_vector_run matvec_length)

lemma vmap_run:
  "vmap f v s =
     (Inr \<lparr>buf = length (bufs s), off = 0, len = length (vec_elems s v)\<rparr>,
      s\<lparr>bufs := bufs s @ [map f (vec_elems s v)]\<rparr>)"
  by (simp add: vmap_def new_vector_run)

lemma squash_run:
  "squash v s =
     (Inr \<lparr>buf = length (bufs s), off = 0, len = length (vec_elems s v)\<rparr>,
      s\<lparr>bufs := bufs s @ [map (logistic s) (vec_elems s v)]\<rparr>)"
  by (simp add: squash_def new_vector_run)

lemma layer_of_prefix:
  "prefix (bufs s) (bufs t) \<Longrightarrow> list_all (valid_mat s) ls \<Longrightarrow>
   map (layer_of t) ls = map (layer_of s) ls"
  by (induction ls) (simp_all add: layer_of_def mat_elems_prefix)

lemma valid_new:
  "i < length C \<Longrightarrow> k \<le> length (C ! i) \<Longrightarrow>
   valid (s\<lparr>bufs := bufs s @ C\<rparr>) \<lparr>buf = length (bufs s) + i, off = 0, \<dots> = e\<rparr> k"
  by (simp add: valid_def nth_append)

lemma feed_run:
  "valid_vec s v \<Longrightarrow> list_all (valid_mat s) ls \<Longrightarrow>
   \<exists>r s'. feed ls v s = (r, s') \<and> prefix (bufs s) (bufs s') \<and>
     (case feed_spec (logistic s) (map (layer_of s) ls) (vec_elems s v) of
        Inl e \<Rightarrow> r = Inl e
      | Inr xs \<Rightarrow> \<exists>w. r = Inr w \<and> valid_vec s' w \<and> vec_elems s' w = xs)"
proof (induction ls arbitrary: v s)
  case Nil
  then show ?case by (simp add: ret_def)
next
  case (Cons m ls)
  have lv: "length (vec_elems s v) = len v" by (rule vec_elems_length[OF Cons.prems(1)])
  show ?case
  proof (cases "cols m = len v")
    case False
    then show ?thesis by (simp add: dot_run seq_def layer_of_def lv)
  next
    case True
    define ys where "ys = matvec (rows m) (cols m) (mat_elems s m) (vec_elems s v)"
    define f where "f = logistic s"
    define t where "t = s\<lparr>bufs := bufs s @ [ys, map f ys]\<rparr>"
    define w where "w = \<lparr>buf = length (bufs s) + 1, off = 0, len = rows m\<rparr>"
    have ly: "length ys = rows m" by (simp add: ys_def matvec_length)
    define v1 where "v1 = \<lparr>buf = length (bufs s), off = 0, len = rows m\<rparr>"
    define s1 where "s1 = s\<lparr>bufs := bufs s @ [ys]\<rparr>"
    have d: "dot m v s = (Inr v1, s1)"
      using True by (simp add: dot_run ys_def v1_def s1_def)
    have e1: "vec_elems s1 v1 = ys"
      using rd_new0[of s "[ys]" _ "rows m"] ly by (simp add: vec_elems_def v1_def s1_def)
    have f1: "logistic s1 = f" by (simp add: s1_def f_def)
    have q: "squash v1 s1 = (Inr w, t)"
      by (simp add: squash_run e1 f1 ly) (simp add: s1_def t_def w_def)
    have step: "feed (m # ls) v s = feed ls w t"
      by (simp add: seq_def d q)
    have pt: "prefix (bufs s) (bufs t)" by (simp add: t_def)
    have ft: "logistic t = f" by (simp add: t_def f_def)
    have vw: "valid_vec t w"
      using valid_new[of 1 "[ys, map f ys]" "rows m" s]
      by (simp add: valid_vec_def t_def w_def ly)
    have ew: "vec_elems t w = map f ys"
      using rd_new[of s "[ys, map f ys]" 1 _ "rows m"]
      by (simp add: vec_elems_def t_def w_def ly)
    have vl: "list_all (valid_mat t) ls"
      using list_all_valid_mat_prefix[OF pt] Cons.prems(2) by simp
    have lo: "map (layer_of t) ls = map (layer_of s) ls"
      by (rule layer_of_prefix[OF pt]) (use Cons.prems(2) in simp)
    obtain r s' where r: "feed ls w t = (r, s')" "prefix (bufs t) (bufs s')"
      and c: "case feed_spec (logistic t) (map (layer_of t) ls) (vec_elems t w) of
        Inl e \<Rightarrow> r = Inl e
      | Inr xs \<Rightarrow> \<exists>w. r = Inr w \<and> valid_vec s' w \<and> vec_elems s' w = xs"
      using Cons.IH[OF vw vl] by blast
    have "prefix (bufs s) (bufs s')" using pt r(2) by (rule prefix_order.trans)
    moreover have "feed_spec (logistic s) (map (layer_of s) (m # ls)) (vec_elems s v)
        = feed_spec (logistic t) (map (layer_of t) ls) (vec_elems t w)"
      using True by (simp add: layer_of_def[of s m] lv lo ew ys_def ft) (simp add: f_def)
    ultimately show ?thesis using step r(1) c by simp
  qed
qed

lemma perceptron_react_to_run:
  assumes wf: "wf_perceptron s A" and v: "valid_nd s obs"
    and sh: "shape obs = sp_shape (observation_space A)" and fl: "dtype obs = Floating"
  shows "fst (perceptron_react_to A obs s) =
     (if 0 \<in> set (nd_elems s (obs_range A)) then Inl NonFinite
      else Inr (scan_max (matvec (n_act A) (n_obs A) (mat_elems s (perceptron_matrix A))
             (map2 (/) (map2 (-) (nd_elems s obs) (nd_elems s (low (observation_space A))))
                       (nd_elems s (obs_range A))))))"
    and "prefix (bufs s) (bufs (snd (perceptron_react_to A obs s)))"
proof -
  let ?sp = "observation_space A"
  let ?zs = "map2 (/) (map2 (-) (nd_elems s obs) (nd_elems s (low ?sp))) (nd_elems s (obs_range A))"
  have sp: "wf_space s ?sp" using wf by (simp add: wf_perceptron_def)
  note l = wf_space_lengths(2)[OF sp]
  have shr: "shape (obs_range A) = sp_shape ?sp" and vr: "valid_nd s (obs_range A)"
    and n: "n_obs A = prod_list (sp_shape ?sp)"
    and m: "rows (perceptron_matrix A) = n_act A" "cols (perceptron_matrix A) = n_obs A"
    and vm: "valid_mat s (perceptron_matrix A)"
    using wf by (simp_all add: wf_perceptron_def)
  have r: "length (nd_elems s (obs_range A)) = prod_list (sp_shape ?sp)"
    using nd_elems_length[OF vr] shr by simp
  have x: "length (nd_elems s obs) = prod_list (sp_shape ?sp)"
    using nd_elems_length[OF v] sh by simp
  have lz: "length ?zs = n_obs A" using l r x n by simp
  have bm: "buf (perceptron_matrix A) < length (bufs s)"
    using vm by (simp add: valid_mat_def valid_def)
  define ws where "ws = mat_elems s (perceptron_matrix A)"
  define out where "out = matvec (n_act A) (n_obs A) ws ?zs"
  define s2 where "s2 = s\<lparr>bufs := bufs s @ [?zs, ?zs]\<rparr>"
  define x2 where "x2 = \<lparr>buf = length (bufs s) + 1, off = 0, len = n_obs A\<rparr>"
  have ex: "vec_elems s2 x2 = ?zs"
    using rd_new[of s "[?zs, ?zs]" 1 _ "n_obs A"] lz by (simp add: vec_elems_def s2_def x2_def)
  have em: "mat_elems s2 (perceptron_matrix A) = ws"
    using rd_old[OF bm, of "[?zs, ?zs]"] by (simp add: mat_elems_def s2_def ws_def)
  have d: "dot (perceptron_matrix A) x2 s2 =
      (Inr \<lparr>buf = length (bufs s2), off = 0, len = n_act A\<rparr>, s2\<lparr>bufs := bufs s2 @ [out]\<rparr>)"
    by (simp add: dot_run m ex em out_def) (simp add: x2_def)
  have eo: "vec_elems (s2\<lparr>bufs := bufs s2 @ [out]\<rparr>) \<lparr>buf = length (bufs s2), off = 0, len = n_act A\<rparr> = out"
    using rd_new0[of s2 "[out]" _ "n_act A"] by (simp add: vec_elems_def out_def matvec_length)
  have e: "perceptron_react_to A obs s =
     (if 0 \<in> set (nd_elems s (obs_range A))
      then (Inl NonFinite,
            s\<lparr>bufs := bufs s @ [map2 (-) (nd_elems s obs) (nd_elems s (low ?sp))]\<rparr>)
      else (Inr (scan_max (matvec (n_act A) (n_obs A) (mat_elems s (perceptron_matrix A)) ?zs)),
            s2\<lparr>bufs := bufs s2 @ [out]\<rparr>))"
  proof (cases "0 \<in> set (nd_elems s (obs_range A))")
    case True
    then show ?thesis
      by (simp add: perceptron_react_to_def seq_def perceptron_normalize_run[OF wf v sh fl])
  next
    case False
    have "perceptron_normalize A obs s = (Inr x2, s2)"
      using False by (simp add: perceptron_normalize_run[OF wf v sh fl] x2_def s2_def)
    then show ?thesis
      using False by (simp add: perceptron_react_to_def seq_def d argmax_of_def eo)
        (simp add: out_def ws_def)
  qed
  show "fst (perceptron_react_to A obs s) =
     (if 0 \<in> set (nd_elems s (obs_range A)) then Inl NonFinite
      else Inr (scan_max (matvec (n_act A) (n_obs A) (mat_elems s (perceptron_matrix A)) ?zs)))"
    by (simp add: e)
  show "prefix (bufs s) (bufs (snd (perceptron_react_to A obs s)))"
    by (simp add: e s2_def)
qed

lemma perceptron_react_to_int:
  assumes wf: "wf_perceptron s A" and v: "valid_nd s obs"
    and sh: "shape obs = sp_shape (observation_space A)" and it: "dtype obs = Integer"
  shows "fst (perceptron_react_to A obs s) = Inl TypeError"
proof -
  obtain s1 where "perceptron_normalize A obs s = (Inl TypeError, s1)"
    using perceptron_normalize_int[OF wf v sh it]
    by (cases "perceptron_normalize A obs s") simp
  then show ?thesis by (simp add: perceptron_react_to_def seq_def)
qed

lemma nn_react_to_run:
  assumes wf: "wf_nn s B" and v: "valid_nd s obs"
    and sh: "shape obs = sp_shape (nn_observation_space B)" and fl: "dtype obs = Floating"
  shows "fst (nn_react_to B obs s) =
     (if 0 \<in> set (nd_elems s (nn_obs_range B)) then Inl NonFinite
      else map_sum id scan_max (feed_spec (logistic s) (map (layer_of s) (layers B))
             (map2 (/) (map2 (-) (nd_elems s obs) (nd_elems s (low (nn_observation_space B))))
                       (nd_elems s (nn_obs_range B)))))"
    and "prefix (bufs s) (bufs (snd (nn_react_to B obs s)))"
proof -
  let ?sp = "nn_observation_space B"
  let ?zs = "map2 (/) (map2 (-) (nd_elems s obs) (nd_elems s (low ?sp))) (nd_elems s (nn_obs_range B))"
  have sp: "wf_space s ?sp" using wf by (simp add: wf_nn_def)
  note l = wf_space_lengths(2)[OF sp]
  have shr: "shape (nn_obs_range B) = sp_shape ?sp" and vr: "valid_nd s (nn_obs_range B)"
    and n: "nn_n_obs B = prod_list (sp_shape ?sp)"
    and vl: "list_all (valid_mat s) (layers B)"
    using wf by (simp_all add: wf_nn_def)
  have r: "length (nd_elems s (nn_obs_range B)) = prod_list (sp_shape ?sp)"
    using nd_elems_length[OF vr] shr by simp
  have x: "length (nd_elems s obs) = prod_list (sp_shape ?sp)"
    using nd_elems_length[OF v] sh by simp
  define zs where "zs = ?zs"
  have lz: "length zs = nn_n_obs B" using l r x n by (simp add: zs_def)
  define s1 where "s1 = s\<lparr>bufs := bufs s @ [zs]\<rparr>"
  define x1 where "x1 = \<lparr>buf = length (bufs s), off = 0, len = nn_n_obs B\<rparr>"
  have p1: "prefix (bufs s) (bufs s1)" by (simp add: s1_def)
  have ex: "vec_elems s1 x1 = ?zs"
    using rd_new0[of s "[zs]" _ "nn_n_obs B"] lz by (simp add: vec_elems_def s1_def x1_def zs_def)
  have vx: "valid_vec s1 x1"
    using lz by (simp add: valid_vec_def valid_def s1_def x1_def)
  have norm: "0 \<notin> set (nd_elems s (nn_obs_range B)) \<Longrightarrow> nn_normalize B obs s = (Inr x1, s1)"
    by (simp add: nn_normalize_run[OF wf v sh fl] x1_def s1_def zs_def)
  have vl1: "list_all (valid_mat s1) (layers B)"
    by (rule list_all_valid_mat_prefix[OF p1 vl])
  have lo: "map (layer_of s1) (layers B) = map (layer_of s) (layers B)"
    by (rule layer_of_prefix[OF p1 vl])
  obtain r' s' where f: "feed (layers B) x1 s1 = (r', s')" and p2: "prefix (bufs s1) (bufs s')"
    and c: "case feed_spec (logistic s1) (map (layer_of s1) (layers B)) (vec_elems s1 x1) of
        Inl e \<Rightarrow> r' = Inl e
      | Inr xs \<Rightarrow> \<exists>w. r' = Inr w \<and> valid_vec s' w \<and> vec_elems s' w = xs"
    using feed_run[OF vx vl1] by blast
  have ps: "prefix (bufs s) (bufs s')" using p1 p2 by (rule prefix_order.trans)
  have l1: "logistic s1 = logistic s" by (simp add: s1_def)
  have e: "0 \<notin> set (nd_elems s (nn_obs_range B)) \<Longrightarrow>
      nn_react_to B obs s =
        (case r' of Inl e \<Rightarrow> (Inl e, s') | Inr w \<Rightarrow> (Inr (scan_max (vec_elems s' w)), s'))"
    using f
    by (simp add: nn_react_to_def seq_def norm argmax_of_def split: sum.splits)
  show "fst (nn_react_to B obs s) =
     (if 0 \<in> set (nd_elems s (nn_obs_range B)) then Inl NonFinite
      else map_sum id scan_max (feed_spec (logistic s) (map (layer_of s) (layers B)) ?zs))"
  proof (cases "0 \<in> set (nd_elems s (nn_obs_range B))")
    case True
    then show ?thesis by (simp add: nn_react_to_def seq_def nn_normalize_run[OF wf v sh fl])
  next
    case False
    show ?thesis
      using c False by (auto simp: e[OF False] lo ex l1 split: sum.splits)
  qed
  show "prefix (bufs s) (bufs (snd (nn_react_to B obs s)))"
  proof (cases "0 \<in> set (nd_elems s (nn_obs_range B))")
    case True
    then show ?thesis by (simp add: nn_react_to_def seq_def nn_normalize_run[OF wf v sh fl])
  next
    case False
    show ?thesis using ps by (simp add: e[OF False] split: sum.splits)
  qed
qed

lemma nn_react_to_int:
  assumes wf: "wf_nn s B" and v: "valid_nd s obs"
    and sh: "shape obs = sp_shape (nn_observation_space B)" and it: "dtype obs = Integer"
  shows "fst (nn_react_to B obs s) = Inl TypeError"
proof -
  obtain s1 where "nn_normalize B obs s = (Inl TypeError, s1)"
    using nn_normalize_int[OF wf v sh it]
    by (cases "nn_normalize B obs s") simp
  then show ?thesis by (simp add: nn_react_to_def seq_def)
qed

subsection \<open>The codec of the perceptron\<close>

lemma perceptron_get_genome_run:
  assumes "valid_mat s (perceptron_matrix A)"
    and "rows (perceptron_matrix A) * cols (perceptron_matrix A) = n_obs A * n_act A"
  shows "perceptron_get_genome A s =
     (Inr \<lparr>buf = length (bufs s) + 2, off = 0, len = n_obs A * n_act A\<rparr>,
      s\<lparr>bufs := bufs s @ [mat_elems s (perceptron_matrix A),
                          map (\<lambda>x. x + 1) (mat_elems s (perceptron_matrix A)),
                          map (\<lambda>x. (x + 1) / 2) (mat_elems s (perceptron_matrix A))]\<rparr>)"
  using assms mat_elems_length[OF assms(1)]
  by (simp add: perceptron_get_genome_def seq_def copy_mat_def new_matrix_run lift_def
      reshape_mat_def vmap_def new_vector_run vec_elems_def rd_def nth_append)

lemma perceptron_from_genome_run_aux:
  assumes "vec_elems s g = xs" "length xs = r * c"
  shows "seq (copy_vec g) (\<lambda>c'.
     seq (lift (reshape_vec c' (r, c))) (\<lambda>m.
     seq (mmap (\<lambda>x. 2 * x) m) (\<lambda>m2.
     seq (mmap (\<lambda>x. x - 1) m2) (\<lambda>m3.
     ret (pa\<lparr>perceptron_matrix := m3\<rparr>))))) s =
     (Inr (pa\<lparr>perceptron_matrix := \<lparr>buf = length (bufs s) + 2, off = 0, rows = r, cols = c\<rparr>\<rparr>),
      s\<lparr>bufs := bufs s @ [xs, map (\<lambda>x. 2 * x) xs, map (\<lambda>x. 2 * x - 1) xs]\<rparr>)"
  using assms
  by (simp add: seq_def copy_vec_def new_vector_run lift_def reshape_vec_def mmap_def
      new_matrix_run mat_elems_def rd_def nth_append o_def ret_def)

lemma perceptron_from_genome_run:
  assumes wf: "wf_perceptron s A" and vg: "valid_vec s g"
    and lg: "len g = rows (perceptron_matrix A) * cols (perceptron_matrix A)"
  shows "\<exists>A' s'. perceptron_from_genome A g s = (Inr A', s') \<and> prefix (bufs s) (bufs s') \<and>
           wf_perceptron s' A' \<and>
           observation_space A' = observation_space A \<and> action_space A' = action_space A \<and>
           rows (perceptron_matrix A') = rows (perceptron_matrix A) \<and>
           cols (perceptron_matrix A') = cols (perceptron_matrix A) \<and>
           length (bufs s) \<le> buf (perceptron_matrix A') \<and>
           mat_elems s' (perceptron_matrix A') = map (\<lambda>x. 2 * x - 1) (vec_elems s g)"
proof -
  let ?r = "rows (perceptron_matrix A)" and ?c = "cols (perceptron_matrix A)"
  have sp: "wf_space s (observation_space A)" using wf by (simp add: wf_perceptron_def)
  obtain pa s1 where i: "perceptron_init (observation_space A) (action_space A) s = (Inr pa, s1)"
    and p1: "prefix (bufs s) (bufs s1)" and wpa: "wf_perceptron s1 pa"
    and f: "observation_space pa = observation_space A" "action_space pa = action_space A"
    using perceptron_init_spec[OF sp] by blast
  define xs where "xs = vec_elems s g"
  have e1: "vec_elems s1 g = xs" using vec_elems_prefix[OF p1 vg] by (simp add: xs_def)
  have lx: "length xs = ?r * ?c" using vec_elems_length[OF vg] lg by (simp add: xs_def)
  define m3 where "m3 = \<lparr>buf = length (bufs s1) + 2, off = 0, rows = ?r, cols = ?c\<rparr>"
  define s2 where "s2 = s1\<lparr>bufs := bufs s1 @ [xs, map (\<lambda>x. 2 * x) xs, map (\<lambda>x. 2 * x - 1) xs]\<rparr>"
  have run: "perceptron_from_genome A g s = (Inr (pa\<lparr>perceptron_matrix := m3\<rparr>), s2)"
    using perceptron_from_genome_run_aux[OF e1 lx, of pa]
    by (simp add: perceptron_from_genome_def seq_def[of "perceptron_init _ _"] i m3_def s2_def)
  have p2: "prefix (bufs s1) (bufs s2)" by (simp add: s2_def)
  have ps: "prefix (bufs s) (bufs s2)" using p1 p2 by (rule prefix_order.trans)
  have em: "mat_elems s2 m3 = map (\<lambda>x. 2 * x - 1) xs"
    using rd_new[of s1 "[xs, map (\<lambda>x. 2 * x) xs, map (\<lambda>x. 2 * x - 1) xs]" 2 _ "?r * ?c"] lx
    by (simp add: mat_elems_def m3_def s2_def)
  have vm: "valid_mat s2 m3"
    using valid_new[of 2 "[xs, map (\<lambda>x. 2 * x) xs, map (\<lambda>x. 2 * x - 1) xs]" "?r * ?c" s1] lx
    by (simp add: valid_mat_def m3_def s2_def)
  have rc: "?r = n_act A" "?c = n_obs A" "n_act A = act_n (action_space A)"
    "n_obs A = prod_list (sp_shape (observation_space A))"
    using wf by (simp_all add: wf_perceptron_def)
  have wpa2: "wf_perceptron s2 pa" by (rule wf_perceptron_prefix[OF p2 wpa])
  have w: "wf_perceptron s2 (pa\<lparr>perceptron_matrix := m3\<rparr>)"
    using wpa2 vm f rc by (simp add: wf_perceptron_def) (simp add: m3_def)
  have fr: "length (bufs s) \<le> buf m3"
    using prefix_length_le[OF p1] by (simp add: m3_def)
  show ?thesis
    using run ps w f em fr by (simp add: xs_def) (simp add: m3_def)
qed

subsection \<open>The codec of the network\<close>

lemma encode_layers_run:
  "valid_vec s g \<Longrightarrow> list_all (valid_mat s) ls \<Longrightarrow>
   \<exists>g' s'. encode_layers ls g s = (Inr g', s') \<and> prefix (bufs s) (bufs s') \<and>
     valid_vec s' g' \<and> vec_elems s' g' = vec_elems s g @ concat (map (mat_elems s) ls)"
proof (induction ls arbitrary: g s)
  case Nil
  then show ?case by (simp add: ret_def)
next
  case (Cons m ls)
  define ws where "ws = mat_elems s m"
  define xs where "xs = vec_elems s g"
  have vm: "valid_mat s m" and vl: "list_all (valid_mat s) ls" using Cons.prems(2) by simp_all
  have lw: "length ws = rows m * cols m" using mat_elems_length[OF vm] by (simp add: ws_def)
  have lx: "length xs = len g" using vec_elems_length[OF Cons.prems(1)] by (simp add: xs_def)
  have bg: "buf g < length (bufs s)" using Cons.prems(1) by (simp add: valid_vec_def valid_def)
  define t where "t = s\<lparr>bufs := bufs s @ [ws, xs @ ws]\<rparr>"
  define g2 where "g2 = \<lparr>buf = length (bufs s) + 1, off = 0, len = length (xs @ ws)\<rparr>"
  have pt: "prefix (bufs s) (bufs t)" by (simp add: t_def)
  have c: "copy_mat m s = (Inr \<lparr>buf = length (bufs s), off = 0, rows = rows m, cols = cols m\<rparr>,
                           s\<lparr>bufs := bufs s @ [ws]\<rparr>)"
    by (simp add: copy_mat_def new_matrix_run ws_def)
  have e1: "vec_elems (s\<lparr>bufs := bufs s @ [ws]\<rparr>) g = xs"
    using rd_old[OF bg, of "[ws]"] by (simp add: vec_elems_def xs_def)
  have e2: "vec_elems (s\<lparr>bufs := bufs s @ [ws]\<rparr>)
              \<lparr>buf = length (bufs s), off = 0, len = rows m * cols m\<rparr> = ws"
    using rd_new0[of s "[ws]" _ "rows m * cols m"] lw by (simp add: vec_elems_def)
  have step: "encode_layers (m # ls) g s = encode_layers ls g2 t"
    by (simp add: seq_def c lift_def reshape_mat_def concatenate_def e1 e2 new_vector_run
        t_def g2_def)
  have vg2: "valid_vec t g2" by (simp add: valid_vec_def valid_def t_def g2_def nth_append)
  have eg2: "vec_elems t g2 = xs @ ws"
    using rd_new[of s "[ws, xs @ ws]" 1 _ "length (xs @ ws)"]
    by (simp add: vec_elems_def t_def g2_def)
  have vlt: "list_all (valid_mat t) ls" by (rule list_all_valid_mat_prefix[OF pt vl])
  have me: "map (mat_elems t) ls = map (mat_elems s) ls" by (rule map_mat_elems_prefix[OF pt vl])
  obtain g' s' where r: "encode_layers ls g2 t = (Inr g', s')" "prefix (bufs t) (bufs s')"
    "valid_vec s' g'" "vec_elems s' g' = vec_elems t g2 @ concat (map (mat_elems t) ls)"
    using Cons.IH[OF vg2 vlt] by blast
  have "prefix (bufs s) (bufs s')" using pt r(2) by (rule prefix_order.trans)
  then show ?case using step r by (simp add: eg2 me xs_def ws_def)
qed

lemma nn_get_genome_run:
  assumes vl: "list_all (valid_mat s) (layers B)"
  shows "\<exists>g s'. nn_get_genome B s = (Inr g, s') \<and> prefix (bufs s) (bufs s') \<and>
     valid_vec s' g \<and>
     vec_elems s' g = map (\<lambda>x. (x + 1) / 2) (concat (map (mat_elems s) (layers B))) \<and>
     len g = length (concat (map (mat_elems s) (layers B)))"
proof -
  define s0 where "s0 = s\<lparr>bufs := bufs s @ [[]]\<rparr>"
  define g0 where "g0 = \<lparr>buf = length (bufs s), off = 0, len = 0\<rparr>"
  have p0: "prefix (bufs s) (bufs s0)" by (simp add: s0_def)
  have n: "new_vector [] s = (Inr g0, s0)" by (simp add: new_vector_run g0_def s0_def)
  have vg0: "valid_vec s0 g0" by (simp add: valid_vec_def valid_def s0_def g0_def)
  have eg0: "vec_elems s0 g0 = []" by (simp add: vec_elems_def rd_def g0_def)
  have vl0: "list_all (valid_mat s0) (layers B)" by (rule list_all_valid_mat_prefix[OF p0 vl])
  have me: "map (mat_elems s0) (layers B) = map (mat_elems s) (layers B)"
    by (rule map_mat_elems_prefix[OF p0 vl])
  obtain g1 s1 where r: "encode_layers (layers B) g0 s0 = (Inr g1, s1)"
    "prefix (bufs s0) (bufs s1)" "valid_vec s1 g1"
    "vec_elems s1 g1 = vec_elems s0 g0 @ concat (map (mat_elems s0) (layers B))"
    using encode_layers_run[OF vg0 vl0] by blast
  define ys where "ys = concat (map (mat_elems s) (layers B))"
  have e1: "vec_elems s1 g1 = ys" using r(4) by (simp add: eg0 me ys_def)
  define s2 where "s2 = s1\<lparr>bufs := bufs s1 @ [map (\<lambda>x. x + 1) ys, map (\<lambda>x. (x + 1) / 2) ys]\<rparr>"
  define g2 where "g2 = \<lparr>buf = length (bufs s1) + 1, off = 0, len = length ys\<rparr>"
  have e2: "vec_elems (s1\<lparr>bufs := bufs s1 @ [map (\<lambda>x. x + 1) ys]\<rparr>)
       \<lparr>buf = length (bufs s1), off = 0, len = length ys\<rparr> = map (\<lambda>x. x + 1) ys"
    using rd_new0[of s1 "[map (\<lambda>x. x + 1) ys]" _ "length ys"] by (simp add: vec_elems_def)
  have run: "nn_get_genome B s = (Inr g2, s2)"
    by (simp add: nn_get_genome_def seq_def n r(1) vmap_run e1 e2 g2_def s2_def o_def)
  have p2: "prefix (bufs s1) (bufs s2)" by (simp add: s2_def)
  have ps: "prefix (bufs s) (bufs s2)"
    using p0 r(2) p2 by (meson prefix_order.trans)
  have vg2: "valid_vec s2 g2" by (simp add: valid_vec_def valid_def s2_def g2_def nth_append)
  have eg2: "vec_elems s2 g2 = map (\<lambda>x. (x + 1) / 2) ys"
    using rd_new[of s1 "[map (\<lambda>x. x + 1) ys, map (\<lambda>x. (x + 1) / 2) ys]" 1 _ "length ys"]
    by (simp add: vec_elems_def s2_def g2_def)
  show ?thesis using run ps vg2 eg2 by (simp add: ys_def) (simp add: g2_def ys_def)
qed

lemma slice_elems:
  assumes "valid_vec s g" "start + k \<le> len g"
  shows "slice g start (start + k) = \<lparr>buf = buf g, off = off g + start, len = k\<rparr>"
    and "vec_elems s (slice g start (start + k)) = take k (drop start (vec_elems s g))"
proof -
  show a: "slice g start (start + k) = \<lparr>buf = buf g, off = off g + start, len = k\<rparr>"
    using assms(2) by (simp add: slice_def Let_def min_def)
  show "vec_elems s (slice g start (start + k)) = take k (drop start (vec_elems s g))"
    unfolding a using assms(2) by (simp add: vec_elems_def rd_def drop_take add.commute)
qed

lemma decode_layers_run:
  "valid_vec s g \<Longrightarrow> start + sum_list (map (\<lambda>m. rows m * cols m) ls) \<le> len g \<Longrightarrow>
   \<exists>ms s'. decode_layers g ls start acc s = (Inr (acc @ ms), s') \<and>
     prefix (bufs s) (bufs s') \<and> list_all (valid_mat s') ms \<and>
     map (\<lambda>m. (rows m, cols m)) ms = map (\<lambda>m. (rows m, cols m)) ls \<and>
     map (mat_elems s') ms
       = split_sizes (map (\<lambda>m. rows m * cols m) ls) (drop start (vec_elems s g)) \<and>
     list_all (\<lambda>m. length (bufs s) \<le> buf m) ms"
proof (induction ls arbitrary: start acc s)
  case Nil
  then show ?case by (simp add: ret_def)
next
  case (Cons m ls)
  define k where "k = rows m * cols m"
  define xs where "xs = take k (drop start (vec_elems s g))"
  have b: "start + k \<le> len g" using Cons.prems(2) by (simp add: k_def)
  have lx: "length xs = k"
    using vec_elems_length[OF Cons.prems(1)] b by (simp add: xs_def)
  define t where "t = s\<lparr>bufs := bufs s @ [xs]\<rparr>"
  define nl where "nl = \<lparr>buf = length (bufs s), off = 0, rows = rows m, cols = cols m\<rparr>"
  have pt: "prefix (bufs s) (bufs t)" by (simp add: t_def)
  have step: "decode_layers g (m # ls) start acc s = decode_layers g ls (start + k) (acc @ [nl]) t"
    using lx
    by (simp add: seq_def lift_def k_def[symmetric] copy_vec_def
        slice_elems(2)[OF Cons.prems(1) b] xs_def[symmetric] new_vector_run reshape_vec_def
        t_def nl_def)
  have vgt: "valid_vec t g" by (rule valid_vec_prefix[OF pt Cons.prems(1)])
  have egt: "vec_elems t g = vec_elems s g" by (rule vec_elems_prefix[OF pt Cons.prems(1)])
  have b2: "start + k + sum_list (map (\<lambda>m. rows m * cols m) ls) \<le> len g"
    using Cons.prems(2) by (simp add: k_def)
  obtain ms s' where r: "decode_layers g ls (start + k) (acc @ [nl]) t = (Inr ((acc @ [nl]) @ ms), s')"
    "prefix (bufs t) (bufs s')" "list_all (valid_mat s') ms"
    "map (\<lambda>m. (rows m, cols m)) ms = map (\<lambda>m. (rows m, cols m)) ls"
    "map (mat_elems s') ms
       = split_sizes (map (\<lambda>m. rows m * cols m) ls) (drop (start + k) (vec_elems t g))"
    "list_all (\<lambda>m. length (bufs t) \<le> buf m) ms"
    using Cons.IH[OF vgt b2] by blast
  have ps: "prefix (bufs s) (bufs s')" using pt r(2) by (rule prefix_order.trans)
  have vnl: "valid_mat t nl" using lx by (simp add: valid_mat_def valid_def t_def nl_def k_def)
  have enl: "mat_elems t nl = xs"
    using rd_new0[of s "[xs]" _ "rows m * cols m"] lx
    by (simp add: mat_elems_def t_def nl_def k_def)
  have vnl': "valid_mat s' nl" by (rule valid_mat_prefix[OF r(2) vnl])
  have enl': "mat_elems s' nl = xs" using mat_elems_prefix[OF r(2) vnl] enl by simp
  have fr: "list_all (\<lambda>m. length (bufs s) \<le> buf m) ms"
    using r(6) by (auto simp: t_def list_all_iff)
  have "decode_layers g (m # ls) start acc s = (Inr (acc @ (nl # ms)), s')"
    using step r(1) by simp
  moreover have "map (mat_elems s') (nl # ms)
       = split_sizes (map (\<lambda>m. rows m * cols m) (m # ls)) (drop start (vec_elems s g))"
    using r(5) by (simp add: enl' xs_def k_def egt add.commute)
  moreover have "map (\<lambda>m. (rows m, cols m)) (nl # ms) = map (\<lambda>m. (rows m, cols m)) (m # ls)"
    using r(4) by (simp add: nl_def)
  moreover have "list_all (valid_mat s') (nl # ms)" using vnl' r(3) by simp
  moreover have "list_all (\<lambda>m. length (bufs s) \<le> buf m) (nl # ms)"
    using fr by (simp add: nl_def)
  ultimately show ?case using ps by blast
qed

subsection \<open>Construction of the network\<close>

lemma random_weights_spec:
  "\<exists>m t. random_weights r c s = (Inr m, t) \<and> prefix (bufs s) (bufs t) \<and> valid_mat t m \<and>
     rows m = r \<and> cols m = c \<and> rand t = rand s \<and> length (bufs s) \<le> buf m \<and>
     mat_elems t m = map (\<lambda>k. rand s (pos s + k) * 2 - 1) [0..<r * c]"
  by (simp add: random_weights_run valid_mat_def valid_def mat_elems_def rd_def nth_append)

lemma init_layers_run:
  "\<exists>ms s'. init_layers ps acc s = (Inr (acc @ ms), s') \<and> prefix (bufs s) (bufs s') \<and>
     list_all (valid_mat s') ms \<and>
     map (\<lambda>m. (rows m, cols m)) ms = map (\<lambda>(i, u). (u, i)) ps \<and>
     rand s' = rand s \<and> list_all (\<lambda>m. length (bufs s) \<le> buf m) ms \<and>
     (\<forall>m\<in>set ms. \<forall>w\<in>set (mat_elems s' m). \<exists>k. w = rand s k * 2 - 1)"
proof (induction ps arbitrary: acc s)
  case Nil
  then show ?case by (simp add: ret_def)
next
  case (Cons p ps)
  obtain i o' where p: "p = (i, o')" by (cases p)
  obtain m t where w: "random_weights o' i s = (Inr m, t)" "prefix (bufs s) (bufs t)"
    "valid_mat t m" "rows m = o'" "cols m = i" "rand t = rand s" "length (bufs s) \<le> buf m"
    "mat_elems t m = map (\<lambda>k. rand s (pos s + k) * 2 - 1) [0..<o' * i]"
    using random_weights_spec[of o' i s] by blast
  obtain ms s' where r: "init_layers ps (acc @ [m]) t = (Inr ((acc @ [m]) @ ms), s')"
    "prefix (bufs t) (bufs s')" "list_all (valid_mat s') ms"
    "map (\<lambda>m. (rows m, cols m)) ms = map (\<lambda>(i, u). (u, i)) ps"
    "rand s' = rand t" "list_all (\<lambda>m. length (bufs t) \<le> buf m) ms"
    "\<forall>m\<in>set ms. \<forall>w\<in>set (mat_elems s' m). \<exists>k. w = rand t k * 2 - 1"
    using Cons.IH[of "acc @ [m]" t] by blast
  have ps': "prefix (bufs s) (bufs s')" using w(2) r(2) by (rule prefix_order.trans)
  have vm: "valid_mat s' m" by (rule valid_mat_prefix[OF r(2) w(3)])
  have em: "mat_elems s' m = map (\<lambda>k. rand s (pos s + k) * 2 - 1) [0..<o' * i]"
    using mat_elems_prefix[OF r(2) w(3)] w(8) by simp
  have fr: "list_all (\<lambda>m. length (bufs s) \<le> buf m) ms"
    using r(6) prefix_length_le[OF w(2)] by (auto simp: list_all_iff)
  have "init_layers (p # ps) acc s = (Inr (acc @ (m # ms)), s')"
    using w(1) r(1) by (simp add: p seq_def)
  moreover have "list_all (valid_mat s') (m # ms)" using vm r(3) by simp
  moreover have "map (\<lambda>m. (rows m, cols m)) (m # ms) = map (\<lambda>(i, u). (u, i)) (p # ps)"
    using r(4) w(4,5) by (simp add: p)
  moreover have "rand s' = rand s" using r(5) w(6) by simp
  moreover have "list_all (\<lambda>m. length (bufs s) \<le> buf m) (m # ms)" using fr w(7) by simp
  moreover have "\<forall>m\<in>set (m # ms). \<forall>w\<in>set (mat_elems s' m). \<exists>k. w = rand s k * 2 - 1"
    using r(7) w(6) by (auto simp: em)
  ultimately show ?case using ps' by blast
qed

lemma nn_init_spec:
  assumes "wf_space s sp"
  shows "\<exists>B s'. nn_init sp act hidden s = (Inr B, s') \<and> prefix (bufs s) (bufs s') \<and>
           wf_nn s' B \<and> nn_observation_space B = sp \<and> nn_action_space B = act \<and>
           map (\<lambda>m. (rows m, cols m)) (layers B)
             = map (\<lambda>(i, u). (u, i))
                 (zip (prod_list (sp_shape sp) # hidden) (hidden @ [act_n act])) \<and>
           list_all (\<lambda>m. length (bufs s) \<le> buf m) (layers B) \<and>
           (\<forall>m\<in>set (layers B). \<forall>w\<in>set (mat_elems s' m). \<exists>k. w = rand s k * 2 - 1) \<and>
           nd_elems s' (nn_obs_range B) = map2 (-) (nd_elems s (high sp)) (nd_elems s (low sp)) \<and>
           dtype (nn_obs_range B) = Floating"
proof -
  have ne: "sp_shape sp \<noteq> []" using assms by (simp add: wf_space_def)
  define rng where "rng = \<lparr>buf = length (bufs s) + 2, off = 0, shape = sp_shape sp,
                           dtype = Floating\<rparr>"
  define C where "C = [nd_elems s (high sp), nd_elems s (low sp),
                          map2 (-) (nd_elems s (high sp)) (nd_elems s (low sp))]"
  define s1 where "s1 = s\<lparr>bufs := bufs s @ C\<rparr>"
  have mk: "make_obs_range sp s = (Inr rng, s1)"
    by (simp add: make_obs_range_run[OF assms] rng_def s1_def C_def)
  have p1: "prefix (bufs s) (bufs s1)" by (simp add: s1_def)
  have vr: "valid_nd s1 rng"
    using wf_space_lengths(1,2)[OF assms]
    by (simp add: valid_nd_def valid_def s1_def rng_def C_def nth_append)
  obtain ms s' where r: "init_layers (zip ([prod_list (sp_shape sp)] @ hidden) (hidden @ [act_n act])) [] s1
        = (Inr ([] @ ms), s')"
    "prefix (bufs s1) (bufs s')" "list_all (valid_mat s') ms"
    "map (\<lambda>m. (rows m, cols m)) ms
       = map (\<lambda>(i, u). (u, i)) (zip ([prod_list (sp_shape sp)] @ hidden) (hidden @ [act_n act]))"
    "rand s' = rand s1" "list_all (\<lambda>m. length (bufs s1) \<le> buf m) ms"
    "\<forall>m\<in>set ms. \<forall>w\<in>set (mat_elems s' m). \<exists>k. w = rand s1 k * 2 - 1"
    using init_layers_run[of _ "[]" s1] by blast
  define B where "B = \<lparr>nn_observation_space = sp, nn_action_space = act,
      nn_n_obs = prod_list (sp_shape sp), nn_obs_range = rng, nn_n_act = act_n act, layers = ms\<rparr>"
  have run: "nn_init sp act hidden s = (Inr B, s')"
    using r(1) by (simp add: nn_init_def seq_def lift_def product_nonempty[OF ne] mk ret_def B_def)
  have ps: "prefix (bufs s) (bufs s')" using p1 r(2) by (rule prefix_order.trans)
  have wf: "wf_nn s' B"
    using wf_space_prefix[OF ps assms] valid_nd_prefix[OF r(2) vr] r(3)
    by (simp add: wf_nn_def B_def) (simp add: rng_def)
  have fr: "list_all (\<lambda>m. length (bufs s) \<le> buf m) ms"
    using r(6) prefix_length_le[OF p1] by (auto simp: list_all_iff)
  have rs: "rand s1 = rand s" by (simp add: s1_def)
  have er1: "nd_elems s1 rng = map2 (-) (nd_elems s (high sp)) (nd_elems s (low sp))"
    using wf_space_lengths(1,2)[OF assms]
    by (simp add: nd_elems_def[of "_\<lparr>bufs := _\<rparr>"] rd_def nth_append s1_def rng_def C_def)
  have er: "nd_elems s' rng = map2 (-) (nd_elems s (high sp)) (nd_elems s (low sp))"
    using nd_elems_prefix[OF r(2) vr] er1 by simp
  have dr: "dtype rng = Floating" by (simp add: rng_def)
  show ?thesis
    using run ps wf r(4) fr r(7) er dr by (simp add: B_def rs)
qed

lemma nn_from_genome_run:
  assumes wf: "wf_nn s B" and vg: "valid_vec s g"
    and lg: "sum_list (map (\<lambda>m. rows m * cols m) (layers B)) \<le> len g"
  shows "\<exists>B' s'. nn_from_genome B g s = (Inr B', s') \<and> prefix (bufs s) (bufs s') \<and>
           wf_nn s' B' \<and>
           nn_observation_space B' = nn_observation_space B \<and>
           nn_action_space B' = nn_action_space B \<and>
           map (\<lambda>m. (rows m, cols m)) (layers B') = map (\<lambda>m. (rows m, cols m)) (layers B) \<and>
           map (mat_elems s') (layers B')
             = split_sizes (map (\<lambda>m. rows m * cols m) (layers B))
                 (map (\<lambda>x. x * 2 - 1) (vec_elems s g)) \<and>
           list_all (\<lambda>m. length (bufs s) \<le> buf m) (layers B')"
proof -
  define xs where "xs = vec_elems s g"
  define ys where "ys = map (\<lambda>x. x * 2 - 1) xs"
  have lx: "length xs = len g" using vec_elems_length[OF vg] by (simp add: xs_def)
  define s3 where "s3 = s\<lparr>bufs := bufs s @ [xs, map (\<lambda>x. x * 2) xs, ys]\<rparr>"
  define g3 where "g3 = \<lparr>buf = length (bufs s) + 2, off = 0, len = len g\<rparr>"
  have pre: "seq (copy_vec g) (\<lambda>c. seq (vmap (\<lambda>x. x * 2) c) (\<lambda>c2. seq (vmap (\<lambda>x. x - 1) c2) k)) s
      = k g3 s3" for k :: "vector \<Rightarrow> neural_net_actor run"
    using lx
    by (simp add: seq_def copy_vec_def new_vector_run vmap_def xs_def[symmetric]
        vec_elems_def[of "_\<lparr>bufs := _\<rparr>"] rd_def nth_append o_def s3_def g3_def ys_def)
  have p3: "prefix (bufs s) (bufs s3)" by (simp add: s3_def)
  have vg3: "valid_vec s3 g3"
    using lx by (simp add: valid_vec_def valid_def s3_def g3_def nth_append ys_def)
  have eg3: "vec_elems s3 g3 = ys"
    using rd_new[of s "[xs, map (\<lambda>x. x * 2) xs, ys]" 2 _ "len g"] lx
    by (simp add: vec_elems_def s3_def g3_def ys_def)
  have sp3: "wf_space s3 (nn_observation_space B)"
    using wf_space_prefix[OF p3] wf by (simp add: wf_nn_def)
  obtain nna s4 where i: "nn_init (nn_observation_space B) (nn_action_space B) [] s3 = (Inr nna, s4)"
    and p4: "prefix (bufs s3) (bufs s4)" and wn: "wf_nn s4 nna"
    and f: "nn_observation_space nna = nn_observation_space B"
      "nn_action_space nna = nn_action_space B"
    using nn_init_spec[OF sp3, of "nn_action_space B" "[]"] by blast
  have vg4: "valid_vec s4 g3" by (rule valid_vec_prefix[OF p4 vg3])
  have eg4: "vec_elems s4 g3 = ys" using vec_elems_prefix[OF p4 vg3] eg3 by simp
  have lg4: "0 + sum_list (map (\<lambda>m. rows m * cols m) (layers B)) \<le> len g3"
    using lg by (simp add: g3_def)
  obtain ms s5 where d: "decode_layers g3 (layers B) 0 [] s4 = (Inr ([] @ ms), s5)"
    "prefix (bufs s4) (bufs s5)" "list_all (valid_mat s5) ms"
    "map (\<lambda>m. (rows m, cols m)) ms = map (\<lambda>m. (rows m, cols m)) (layers B)"
    "map (mat_elems s5) ms
       = split_sizes (map (\<lambda>m. rows m * cols m) (layers B)) (drop 0 (vec_elems s4 g3))"
    "list_all (\<lambda>m. length (bufs s4) \<le> buf m) ms"
    using decode_layers_run[OF vg4 lg4, of "[]"] by blast
  have d1: "decode_layers g3 (layers B) 0 [] s4 = (Inr ms, s5)" using d(1) by simp
  have run: "nn_from_genome B g s = (Inr (nna\<lparr>layers := ms\<rparr>), s5)"
    unfolding nn_from_genome_def pre by (simp add: seq_def i ret_def d1)
  have ps: "prefix (bufs s) (bufs s5)"
    using p3 p4 d(2) by (meson prefix_order.trans)
  have w5: "wf_nn s5 (nna\<lparr>layers := ms\<rparr>)"
    using wf_nn_prefix[OF d(2) wn] d(3) by (simp add: wf_nn_def)
  have fr: "list_all (\<lambda>m. length (bufs s) \<le> buf m) ms"
    using d(6) prefix_length_le[OF p3] prefix_length_le[OF p4] by (auto simp: list_all_iff)
  show ?thesis
    using run ps w5 f d(4) d(5) fr by (simp add: eg4 ys_def xs_def)
qed

subsection \<open>The logistic function of the machine stays\<close>

lemma seq_logistic:
  assumes "logistic (snd (m s)) = L"
    and "\<And>x t. m s = (Inr x, t) \<Longrightarrow> logistic t = L \<Longrightarrow> logistic (snd (f x t)) = L"
  shows "logistic (snd (seq m f s)) = L"
  using assms by (cases "m s") (auto simp: seq_def split: sum.splits)

lemma lift_logistic: "logistic (snd (lift r s)) = logistic s"
  by (simp add: lift_def)

lemma copy_vec_logistic: "logistic (snd (copy_vec v s)) = logistic s"
  by (simp add: copy_vec_def new_vector_run)

lemma vmap_logistic: "logistic (snd (vmap f v s)) = logistic s"
  by (simp add: vmap_run)

lemma random_weights_logistic: "logistic (snd (random_weights r c s)) = logistic s"
  by (simp add: random_weights_run)

lemma make_obs_range_logistic: "logistic (snd (make_obs_range sp s)) = logistic s"
  by (simp add: make_obs_range_def seq_def float_array_def new_ndarray_run sub_nd_def
      split: option.splits)

lemma init_layers_logistic: "logistic (snd (init_layers ps acc s)) = logistic s"
proof (induction ps arbitrary: acc s)
  case Nil
  then show ?case by (simp add: ret_def)
next
  case (Cons p ps)
  obtain i u where p: "p = (i, u)" by (cases p)
  show ?case
    unfolding p init_layers.simps
  proof (rule seq_logistic)
    show "logistic (snd (random_weights u i s)) = logistic s" by (rule random_weights_logistic)
  next
    fix x and t :: state
    assume "logistic t = logistic s"
    then show "logistic (snd (init_layers ps (acc @ [x]) t)) = logistic s"
      using Cons.IH[of "acc @ [x]" t] by simp
  qed
qed

lemma nn_init_logistic: "logistic (snd (nn_init sp act hidden s)) = logistic s"
  unfolding nn_init_def
proof (rule seq_logistic)
  show "logistic (snd (lift (product (sp_shape sp)) s)) = logistic s" by (rule lift_logistic)
next
  fix n and t :: state
  assume t: "logistic t = logistic s"
  show "logistic (snd (seq (make_obs_range sp) (\<lambda>rng.
          seq (init_layers (zip ([n] @ hidden) (hidden @ [act_n act])) []) (\<lambda>ls.
          ret \<lparr>nn_observation_space = sp, nn_action_space = act, nn_n_obs = n,
               nn_obs_range = rng, nn_n_act = act_n act, layers = ls\<rparr>)) t)) = logistic s"
  proof (rule seq_logistic)
    show "logistic (snd (make_obs_range sp t)) = logistic s"
      using make_obs_range_logistic[of sp t] t by simp
  next
    fix rng and u :: state
    assume u: "logistic u = logistic s"
    show "logistic (snd (seq (init_layers (zip ([n] @ hidden) (hidden @ [act_n act])) []) (\<lambda>ls.
          ret \<lparr>nn_observation_space = sp, nn_action_space = act, nn_n_obs = n,
               nn_obs_range = rng, nn_n_act = act_n act, layers = ls\<rparr>) u)) = logistic s"
    proof (rule seq_logistic)
      show "logistic (snd (init_layers (zip ([n] @ hidden) (hidden @ [act_n act])) [] u)) = logistic s"
        using init_layers_logistic[of _ "[]" u] u by simp
    next
      fix ls and w :: state
      assume "logistic w = logistic s"
      then show "logistic (snd (ret \<lparr>nn_observation_space = sp, nn_action_space = act, nn_n_obs = n,
               nn_obs_range = rng, nn_n_act = act_n act, layers = ls\<rparr> w)) = logistic s"
        by (simp add: ret_def)
    qed
  qed
qed

lemma decode_layers_logistic:
  "logistic (snd (decode_layers g ls start acc s)) = logistic s"
proof (induction ls arbitrary: start acc s)
  case Nil
  then show ?case by (simp add: ret_def)
next
  case (Cons m ls)
  show ?case
    unfolding decode_layers.simps
  proof (rule seq_logistic)
    show "logistic (snd (lift (product [rows m, cols m]) s)) = logistic s" by (rule lift_logistic)
  next
    fix k and t :: state
    assume t: "logistic t = logistic s"
    show "logistic (snd (seq (copy_vec (slice g start (start + k))) (\<lambda>c.
            seq (lift (reshape_vec c (rows m, cols m))) (\<lambda>new_layer.
            decode_layers g ls (start + k) (acc @ [new_layer]))) t)) = logistic s"
    proof (rule seq_logistic)
      show "logistic (snd (copy_vec (slice g start (start + k)) t)) = logistic s"
        using copy_vec_logistic[of _ t] t by simp
    next
      fix c and u :: state
      assume u: "logistic u = logistic s"
      show "logistic (snd (seq (lift (reshape_vec c (rows m, cols m))) (\<lambda>new_layer.
            decode_layers g ls (start + k) (acc @ [new_layer])) u)) = logistic s"
      proof (rule seq_logistic)
        show "logistic (snd (lift (reshape_vec c (rows m, cols m)) u)) = logistic s"
          using lift_logistic[of _ u] u by simp
      next
        fix nl and w :: state
        assume "logistic w = logistic s"
        then show "logistic (snd (decode_layers g ls (start + k) (acc @ [nl]) w)) = logistic s"
          using Cons.IH[of "start + k" "acc @ [nl]" w] by simp
      qed
    qed
  qed
qed

lemma nn_from_genome_logistic: "logistic (snd (nn_from_genome B g s)) = logistic s"
  unfolding nn_from_genome_def
proof (rule seq_logistic)
  show "logistic (snd (copy_vec g s)) = logistic s" by (rule copy_vec_logistic)
next
  fix c and t :: state
  assume t: "logistic t = logistic s"
  show "logistic (snd (seq (vmap (\<lambda>x. x * 2) c) (\<lambda>c2.
          seq (vmap (\<lambda>x. x - 1) c2) (\<lambda>g.
          seq (nn_init (nn_observation_space B) (nn_action_space B) []) (\<lambda>nna.
          seq (decode_layers g (layers B) 0 []) (\<lambda>ls.
          ret (nna\<lparr>layers := ls\<rparr>))))) t)) = logistic s"
  proof (rule seq_logistic)
    show "logistic (snd (vmap (\<lambda>x. x * 2) c t)) = logistic s"
      using vmap_logistic[of _ c t] t by simp
  next
    fix c2 and u :: state
    assume u: "logistic u = logistic s"
    show "logistic (snd (seq (vmap (\<lambda>x. x - 1) c2) (\<lambda>g.
          seq (nn_init (nn_observation_space B) (nn_action_space B) []) (\<lambda>nna.
          seq (decode_layers g (layers B) 0 []) (\<lambda>ls.
          ret (nna\<lparr>layers := ls\<rparr>)))) u)) = logistic s"
    proof (rule seq_logistic)
      show "logistic (snd (vmap (\<lambda>x. x - 1) c2 u)) = logistic s"
        using vmap_logistic[of _ c2 u] u by simp
    next
      fix g3 and w :: state
      assume w: "logistic w = logistic s"
      show "logistic (snd (seq (nn_init (nn_observation_space B) (nn_action_space B) []) (\<lambda>nna.
          seq (decode_layers g3 (layers B) 0 []) (\<lambda>ls.
          ret (nna\<lparr>layers := ls\<rparr>))) w)) = logistic s"
      proof (rule seq_logistic)
        show "logistic (snd (nn_init (nn_observation_space B) (nn_action_space B) [] w)) = logistic s"
          using nn_init_logistic[of _ _ "[]" w] w by simp
      next
        fix nna and y :: state
        assume y: "logistic y = logistic s"
        show "logistic (snd (seq (decode_layers g3 (layers B) 0 []) (\<lambda>ls.
          ret (nna\<lparr>layers := ls\<rparr>)) y)) = logistic s"
        proof (rule seq_logistic)
          show "logistic (snd (decode_layers g3 (layers B) 0 [] y)) = logistic s"
            using decode_layers_logistic[of g3 _ 0 "[]" y] y by simp
        next
          fix ls and z :: state
          assume "logistic z = logistic s"
          then show "logistic (snd (ret (nna\<lparr>layers := ls\<rparr>) z)) = logistic s"
            by (simp add: ret_def)
        qed
      qed
    qed
  qed
qed

subsection \<open>Pieces of a concatenation\<close>

lemma split_sizes_concat: "split_sizes (map length xss) (concat xss @ rest) = xss"
  by (induction xss) simp_all

lemma split_sizes_concat': "split_sizes (map length xss) (concat xss) = xss"
  using split_sizes_concat[of xss "[]"] by simp

subsection \<open>What react_to writes\<close>

lemma seq_prefix:
  assumes "prefix (bufs s0) (bufs (snd (m s)))"
    and "\<And>x t. m s = (Inr x, t) \<Longrightarrow> prefix (bufs s0) (bufs (snd (f x t)))"
  shows "prefix (bufs s0) (bufs (snd (seq m f s)))"
  using assms by (cases "m s") (auto simp: seq_def split: sum.splits)

lemma isub_nd_last:
  "bufs t = B @ [x] \<Longrightarrow> buf a = length B \<Longrightarrow> \<exists>y. bufs (snd (isub_nd a b t)) = B @ [y]"
  by (simp add: isub_nd_def store_def)

lemma idiv_nd_last:
  "bufs t = B @ [x] \<Longrightarrow> buf a = length B \<Longrightarrow> \<exists>y. bufs (snd (idiv_nd a b t)) = B @ [y]"
  by (simp add: idiv_nd_def store_def Let_def)

lemma in_place_part:
  "\<exists>y. bufs (snd (seq (copy_nd observation) (\<lambda>obs.
         seq (isub_nd obs lo) (\<lambda>_. idiv_nd obs rng)) s)) = bufs s @ [y]"
proof -
  define obs where "obs = \<lparr>buf = length (bufs s), off = 0, shape = shape observation,
                           dtype = dtype observation\<rparr>"
  define s1 where "s1 = s\<lparr>bufs := bufs s @ [nd_elems s observation]\<rparr>"
  have c: "copy_nd observation s = (Inr obs, s1)"
    by (simp add: copy_nd_def new_ndarray_run obs_def s1_def)
  have b: "buf obs = length (bufs s)" by (simp add: obs_def)
  have b1: "bufs s1 = bufs s @ [nd_elems s observation]" by (simp add: s1_def)
  obtain y where y: "bufs (snd (isub_nd obs lo s1)) = bufs s @ [y]"
    using isub_nd_last[OF b1 b] by blast
  show ?thesis
  proof (cases "isub_nd obs lo s1")
    case (Pair r t)
    have t: "bufs t = bufs s @ [y]" using y Pair by simp
    show ?thesis
    proof (cases r)
      case (Inl e)
      then show ?thesis using Pair t by (simp add: seq_def c)
    next
      case (Inr u)
      obtain z where "bufs (snd (idiv_nd obs rng t)) = bufs s @ [z]"
        using idiv_nd_last[OF t b] by blast
      then show ?thesis using Pair Inr by (simp add: seq_def c)
    qed
  qed
qed

lemma seq_assoc: "seq (seq m f) g = seq m (\<lambda>x. seq (f x) g)"
  by (rule ext) (simp add: seq_def split: prod.splits sum.splits)

lemma perceptron_normalize_prefix:
  "prefix (bufs s) (bufs (snd (perceptron_normalize A obs s)))"
proof -
  have e: "perceptron_normalize A obs =
      seq (seq (copy_nd obs) (\<lambda>ob. seq (isub_nd ob (low (observation_space A)))
                                   (\<lambda>_. seq (idiv_nd ob (obs_range A)) (\<lambda>_. ret ob))))
          (\<lambda>ob. seq (lift (reshape_nd ob (n_obs A))) copy_vec)"
    unfolding perceptron_normalize_def seq_assoc
    by (rule ext) (simp add: seq_def ret_def split: prod.splits sum.splits)
  obtain y where y: "bufs (snd (seq (copy_nd obs) (\<lambda>ob.
         seq (isub_nd ob (low (observation_space A))) (\<lambda>_. idiv_nd ob (obs_range A))) s))
       = bufs s @ [y]"
    using in_place_part by blast
  have p: "prefix (bufs s) (bufs (snd (seq (copy_nd obs) (\<lambda>ob. seq (isub_nd ob (low (observation_space A)))
                                   (\<lambda>_. seq (idiv_nd ob (obs_range A)) (\<lambda>_. ret ob))) s)))"
    using y by (auto simp: seq_def ret_def split: prod.splits sum.splits)
  show ?thesis
    unfolding e
  proof (rule seq_prefix)
    show "prefix (bufs s) (bufs (snd (seq (copy_nd obs) (\<lambda>ob. seq (isub_nd ob (low (observation_space A)))
                                   (\<lambda>_. seq (idiv_nd ob (obs_range A)) (\<lambda>_. ret ob))) s)))"
      by (rule p)
  next
    fix x t
    assume "seq (copy_nd obs) (\<lambda>ob. seq (isub_nd ob (low (observation_space A)))
                                   (\<lambda>_. seq (idiv_nd ob (obs_range A)) (\<lambda>_. ret ob))) s = (Inr x, t)"
    then have "prefix (bufs s) (bufs t)" using p by simp
    then show "prefix (bufs s) (bufs (snd (seq (lift (reshape_nd x (n_obs A))) copy_vec t)))"
      by (auto simp: seq_def lift_def copy_vec_def new_vector_run reshape_nd_def
          intro: prefix_order.trans)
  qed
qed

lemma nn_normalize_prefix:
  "prefix (bufs s) (bufs (snd (nn_normalize B obs s)))"
proof -
  have e: "nn_normalize B obs =
      seq (seq (copy_nd obs) (\<lambda>ob. seq (isub_nd ob (low (nn_observation_space B)))
                                   (\<lambda>_. seq (idiv_nd ob (nn_obs_range B)) (\<lambda>_. ret ob))))
          (\<lambda>ob. lift (reshape_nd ob (nn_n_obs B)))"
    unfolding nn_normalize_def seq_assoc
    by (rule ext) (simp add: seq_def ret_def split: prod.splits sum.splits)
  obtain y where y: "bufs (snd (seq (copy_nd obs) (\<lambda>ob.
         seq (isub_nd ob (low (nn_observation_space B))) (\<lambda>_. idiv_nd ob (nn_obs_range B))) s))
       = bufs s @ [y]"
    using in_place_part by blast
  have p: "prefix (bufs s) (bufs (snd (seq (copy_nd obs) (\<lambda>ob. seq (isub_nd ob (low (nn_observation_space B)))
                                   (\<lambda>_. seq (idiv_nd ob (nn_obs_range B)) (\<lambda>_. ret ob))) s)))"
    using y by (auto simp: seq_def ret_def split: prod.splits sum.splits)
  show ?thesis
    unfolding e
  proof (rule seq_prefix)
    show "prefix (bufs s) (bufs (snd (seq (copy_nd obs) (\<lambda>ob. seq (isub_nd ob (low (nn_observation_space B)))
                                   (\<lambda>_. seq (idiv_nd ob (nn_obs_range B)) (\<lambda>_. ret ob))) s)))"
      by (rule p)
  next
    fix x t
    assume "seq (copy_nd obs) (\<lambda>ob. seq (isub_nd ob (low (nn_observation_space B)))
                                   (\<lambda>_. seq (idiv_nd ob (nn_obs_range B)) (\<lambda>_. ret ob))) s = (Inr x, t)"
    then have "prefix (bufs s) (bufs t)" using p by simp
    then show "prefix (bufs s) (bufs (snd (lift (reshape_nd x (nn_n_obs B)) t)))"
      by (simp add: lift_def)
  qed
qed

lemma dot_prefix: "prefix (bufs s0) (bufs s) \<Longrightarrow> prefix (bufs s0) (bufs (snd (dot m v s)))"
  by (auto simp: dot_run intro: prefix_order.trans)

lemma squash_prefix: "prefix (bufs s0) (bufs s) \<Longrightarrow> prefix (bufs s0) (bufs (snd (squash v s)))"
  by (auto simp: squash_run intro: prefix_order.trans)

lemma feed_prefix: "prefix (bufs s0) (bufs s) \<Longrightarrow> prefix (bufs s0) (bufs (snd (feed ls v s)))"
proof (induction ls arbitrary: v s)
  case Nil
  then show ?case by (simp add: ret_def)
next
  case (Cons m ls)
  show ?case
    unfolding feed.simps
  proof (rule seq_prefix)
    show "prefix (bufs s0) (bufs (snd (dot m v s)))" by (rule dot_prefix[OF Cons.prems])
  next
    fix x t
    assume "dot m v s = (Inr x, t)"
    then have pt: "prefix (bufs s0) (bufs t)" using dot_prefix[OF Cons.prems, of m v] by simp
    show "prefix (bufs s0) (bufs (snd (seq (squash x) (feed ls) t)))"
    proof (rule seq_prefix)
      show "prefix (bufs s0) (bufs (snd (squash x t)))" by (rule squash_prefix[OF pt])
    next
      fix y u
      assume "squash x t = (Inr y, u)"
      then have "prefix (bufs s0) (bufs u)" using squash_prefix[OF pt, of x] by simp
      then show "prefix (bufs s0) (bufs (snd (feed ls y u)))" by (rule Cons.IH)
    qed
  qed
qed

lemma perceptron_react_to_prefix:
  "prefix (bufs s) (bufs (snd (perceptron_react_to A obs s)))"
  unfolding perceptron_react_to_def
proof (rule seq_prefix)
  show "prefix (bufs s) (bufs (snd (perceptron_normalize A obs s)))"
    by (rule perceptron_normalize_prefix)
next
  fix x t
  assume "perceptron_normalize A obs s = (Inr x, t)"
  then have pt: "prefix (bufs s) (bufs t)" using perceptron_normalize_prefix[of s A obs] by simp
  show "prefix (bufs s) (bufs (snd (seq (dot (perceptron_matrix A) x) argmax_of t)))"
  proof (rule seq_prefix)
    show "prefix (bufs s) (bufs (snd (dot (perceptron_matrix A) x t)))" by (rule dot_prefix[OF pt])
  next
    fix y u
    assume "dot (perceptron_matrix A) x t = (Inr y, u)"
    then have "prefix (bufs s) (bufs u)" using dot_prefix[OF pt, of "perceptron_matrix A" x] by simp
    then show "prefix (bufs s) (bufs (snd (argmax_of y u)))" by (simp add: argmax_of_def)
  qed
qed

lemma nn_react_to_prefix:
  "prefix (bufs s) (bufs (snd (nn_react_to B obs s)))"
  unfolding nn_react_to_def
proof (rule seq_prefix)
  show "prefix (bufs s) (bufs (snd (nn_normalize B obs s)))"
    by (rule nn_normalize_prefix)
next
  fix x t
  assume "nn_normalize B obs s = (Inr x, t)"
  then have pt: "prefix (bufs s) (bufs t)" using nn_normalize_prefix[of s B obs] by simp
  show "prefix (bufs s) (bufs (snd (seq (feed (layers B) x) argmax_of t)))"
  proof (rule seq_prefix)
    show "prefix (bufs s) (bufs (snd (feed (layers B) x t)))" by (rule feed_prefix[OF pt])
  next
    fix y u
    assume "feed (layers B) x t = (Inr y, u)"
    then have "prefix (bufs s) (bufs u)" using feed_prefix[OF pt, of "layers B" x] by simp
    then show "prefix (bufs s) (bufs (snd (argmax_of y u)))" by (simp add: argmax_of_def)
  qed
qed

subsection \<open>Encoding and decoding again\<close>

lemma perceptron_get_genome_spec:
  assumes vm: "valid_mat s (perceptron_matrix A)"
    and r: "rows (perceptron_matrix A) = n_act A" and c: "cols (perceptron_matrix A) = n_obs A"
  shows "\<exists>g s'. perceptron_get_genome A s = (Inr g, s') \<and> prefix (bufs s) (bufs s') \<and>
     valid_vec s' g \<and>
     len g = rows (perceptron_matrix A) * cols (perceptron_matrix A) \<and>
     vec_elems s' g = map (\<lambda>w. (w + 1) / 2) (mat_elems s (perceptron_matrix A))"
proof -
  have rc: "rows (perceptron_matrix A) * cols (perceptron_matrix A) = n_obs A * n_act A"
    using r c by (simp add: mult.commute)
  define ws where "ws = mat_elems s (perceptron_matrix A)"
  have lw: "length ws = n_obs A * n_act A"
    using mat_elems_length[OF vm] rc by (simp add: ws_def)
  define g where "g = \<lparr>buf = length (bufs s) + 2, off = 0, len = n_obs A * n_act A\<rparr>"
  define s' where "s' = s\<lparr>bufs := bufs s @ [ws, map (\<lambda>x. x + 1) ws, map (\<lambda>x. (x + 1) / 2) ws]\<rparr>"
  have run: "perceptron_get_genome A s = (Inr g, s')"
    by (simp add: perceptron_get_genome_run[OF vm rc] g_def s'_def ws_def)
  have "prefix (bufs s) (bufs s')" by (simp add: s'_def)
  moreover have "valid_vec s' g"
    using lw by (simp add: valid_vec_def valid_def s'_def g_def nth_append)
  moreover have "vec_elems s' g = map (\<lambda>w. (w + 1) / 2) ws"
    using rd_new[of s "[ws, map (\<lambda>x. x + 1) ws, map (\<lambda>x. (x + 1) / 2) ws]" 2 _ "n_obs A * n_act A"] lw
    by (simp add: vec_elems_def s'_def g_def)
  moreover have "len g = rows (perceptron_matrix A) * cols (perceptron_matrix A)"
    using rc by (simp add: g_def)
  ultimately show ?thesis using run by (simp add: ws_def)
qed

lemma map_length_mat_elems:
  "list_all (valid_mat s) ls \<Longrightarrow>
   map length (map (mat_elems s) ls) = map (\<lambda>m. rows m * cols m) ls"
  by (induction ls) (simp_all add: mat_elems_length)

lemma length_concat_mat_elems:
  "list_all (valid_mat s) ls \<Longrightarrow>
   length (concat (map (mat_elems s) ls)) = sum_list (map (\<lambda>m. rows m * cols m) ls)"
  by (induction ls) (simp_all add: mat_elems_length)

lemma decode_encode: "(\<lambda>x. 2 * x - 1) \<circ> (\<lambda>w. (w + 1) / 2) = (\<lambda>w::real. w)"
  by (rule ext) (simp add: field_simps)

lemma decode_encode': "(\<lambda>x. x * 2 - 1) \<circ> (\<lambda>w. (w + 1) / 2) = (\<lambda>w::real. w)"
  by (rule ext) (simp add: field_simps)

lemma perceptron_roundtrip:
  assumes wf: "wf_perceptron s A"
  shows "\<exists>g s2 A' s3. perceptron_get_genome A s = (Inr g, s2) \<and>
     perceptron_from_genome A g s2 = (Inr A', s3) \<and>
     rows (perceptron_matrix A') = rows (perceptron_matrix A) \<and>
     cols (perceptron_matrix A') = cols (perceptron_matrix A) \<and>
     mat_elems s3 (perceptron_matrix A') = mat_elems s (perceptron_matrix A)"
proof -
  have vm: "valid_mat s (perceptron_matrix A)"
    and r: "rows (perceptron_matrix A) = n_act A" and c: "cols (perceptron_matrix A) = n_obs A"
    using wf by (simp_all add: wf_perceptron_def)
  obtain g s2 where g: "perceptron_get_genome A s = (Inr g, s2)" "prefix (bufs s) (bufs s2)"
    "valid_vec s2 g" "len g = rows (perceptron_matrix A) * cols (perceptron_matrix A)"
    "vec_elems s2 g = map (\<lambda>w. (w + 1) / 2) (mat_elems s (perceptron_matrix A))"
    using perceptron_get_genome_spec[OF vm r c] by blast
  have wf2: "wf_perceptron s2 A" by (rule wf_perceptron_prefix[OF g(2) wf])
  obtain A' s3 where f: "perceptron_from_genome A g s2 = (Inr A', s3)"
    "rows (perceptron_matrix A') = rows (perceptron_matrix A)"
    "cols (perceptron_matrix A') = cols (perceptron_matrix A)"
    "mat_elems s3 (perceptron_matrix A') = map (\<lambda>x. 2 * x - 1) (vec_elems s2 g)"
    using perceptron_from_genome_run[OF wf2 g(3) g(4)] by blast
  have "mat_elems s3 (perceptron_matrix A') = mat_elems s (perceptron_matrix A)"
    by (simp add: f(4) g(5) decode_encode)
  then show ?thesis using g(1) f(1,2,3) by blast
qed

lemma split_sizes_map: "split_sizes ks (map f xs) = map (map f) (split_sizes ks xs)"
  by (induction ks arbitrary: xs) (simp_all add: take_map drop_map)

lemma nn_roundtrip:
  assumes wf: "wf_nn s B"
  shows "\<exists>g s2 B' s3. nn_get_genome B s = (Inr g, s2) \<and>
     nn_from_genome B g s2 = (Inr B', s3) \<and>
     map (\<lambda>m. (rows m, cols m)) (layers B') = map (\<lambda>m. (rows m, cols m)) (layers B) \<and>
     map (mat_elems s3) (layers B') = map (mat_elems s) (layers B)"
proof -
  have vl: "list_all (valid_mat s) (layers B)" using wf by (simp add: wf_nn_def)
  define xss where "xss = map (mat_elems s) (layers B)"
  obtain g s2 where g: "nn_get_genome B s = (Inr g, s2)" "prefix (bufs s) (bufs s2)"
    "valid_vec s2 g" "vec_elems s2 g = map (\<lambda>x. (x + 1) / 2) (concat xss)"
    "len g = length (concat xss)"
    using nn_get_genome_run[OF vl] unfolding xss_def by blast
  have wf2: "wf_nn s2 B" by (rule wf_nn_prefix[OF g(2) wf])
  have sz: "map (\<lambda>m. rows m * cols m) (layers B) = map length xss"
    using map_length_mat_elems[OF vl] by (simp add: xss_def)
  have lg: "sum_list (map (\<lambda>m. rows m * cols m) (layers B)) \<le> len g"
    using length_concat_mat_elems[OF vl] g(5) by (simp add: xss_def)
  obtain B' s3 where f: "nn_from_genome B g s2 = (Inr B', s3)"
    "map (\<lambda>m. (rows m, cols m)) (layers B') = map (\<lambda>m. (rows m, cols m)) (layers B)"
    "map (mat_elems s3) (layers B')
       = split_sizes (map (\<lambda>m. rows m * cols m) (layers B))
           (map (\<lambda>x. x * 2 - 1) (vec_elems s2 g))"
    using nn_from_genome_run[OF wf2 g(3) lg] by blast
  have "map (mat_elems s3) (layers B') = xss"
    by (simp add: f(3) g(4) sz decode_encode' split_sizes_concat')
  then show ?thesis using g(1) f(1,2) by (auto simp: xss_def)
qed

subsection \<open>Normalisation against the bounds\<close>

lemma map2_normalized:
  "length xs = length ls \<Longrightarrow> length ls = length hs \<Longrightarrow>
   map2 (/) (map2 (-) xs ls) (map2 (-) hs ls)
     = map (\<lambda>(x, l, h). (x - l) / (h - l)) (zip xs (zip ls hs))"
  by (induction xs ls hs rule: list_induct3) simp_all

lemma range_nonzero:
  "list_all2 (<) ls hs \<Longrightarrow> (0::real) \<notin> set (map2 (-) hs ls)"
  by (induction ls hs rule: list_all2_induct) auto

lemma perceptron_normalize_spec:
  assumes wf: "wf_perceptron s A" and v: "valid_nd s obs"
    and sh: "shape obs = sp_shape (observation_space A)" and fl: "dtype obs = Floating"
    and nz: "0 \<notin> set (nd_elems s (obs_range A))"
  shows "\<exists>x s2. perceptron_normalize A obs s = (Inr x, s2) \<and> len x = n_obs A \<and>
     vec_elems s2 x = map2 (/) (map2 (-) (nd_elems s obs) (nd_elems s (low (observation_space A))))
                        (nd_elems s (obs_range A)) \<and>
     length (vec_elems s2 x) = n_obs A"
proof -
  let ?sp = "observation_space A"
  define zs where "zs = map2 (/) (map2 (-) (nd_elems s obs) (nd_elems s (low ?sp)))
                        (nd_elems s (obs_range A))"
  have sp: "wf_space s ?sp" using wf by (simp add: wf_perceptron_def)
  note l = wf_space_lengths(2)[OF sp]
  have shr: "shape (obs_range A) = sp_shape ?sp" and vr: "valid_nd s (obs_range A)"
    and n: "n_obs A = prod_list (sp_shape ?sp)"
    using wf by (simp_all add: wf_perceptron_def)
  have r: "length (nd_elems s (obs_range A)) = prod_list (sp_shape ?sp)"
    using nd_elems_length[OF vr] shr by simp
  have x: "length (nd_elems s obs) = prod_list (sp_shape ?sp)"
    using nd_elems_length[OF v] sh by simp
  have lz: "length zs = n_obs A" using l r x n by (simp add: zs_def)
  define s2 where "s2 = s\<lparr>bufs := bufs s @ [zs, zs]\<rparr>"
  define x2 where "x2 = \<lparr>buf = length (bufs s) + 1, off = 0, len = n_obs A\<rparr>"
  have run: "perceptron_normalize A obs s = (Inr x2, s2)"
    using nz by (simp add: perceptron_normalize_run[OF wf v sh fl] x2_def s2_def zs_def)
  have ex: "vec_elems s2 x2 = zs"
    using rd_new[of s "[zs, zs]" 1 _ "n_obs A"] lz by (simp add: vec_elems_def s2_def x2_def)
  show ?thesis using run ex lz by (simp add: zs_def) (simp add: x2_def)
qed

lemma nn_normalize_spec:
  assumes wf: "wf_nn s B" and v: "valid_nd s obs"
    and sh: "shape obs = sp_shape (nn_observation_space B)" and fl: "dtype obs = Floating"
    and nz: "0 \<notin> set (nd_elems s (nn_obs_range B))"
  shows "\<exists>x s2. nn_normalize B obs s = (Inr x, s2) \<and> len x = nn_n_obs B \<and>
     vec_elems s2 x = map2 (/) (map2 (-) (nd_elems s obs) (nd_elems s (low (nn_observation_space B))))
                        (nd_elems s (nn_obs_range B)) \<and>
     length (vec_elems s2 x) = nn_n_obs B"
proof -
  let ?sp = "nn_observation_space B"
  define zs where "zs = map2 (/) (map2 (-) (nd_elems s obs) (nd_elems s (low ?sp)))
                        (nd_elems s (nn_obs_range B))"
  have sp: "wf_space s ?sp" using wf by (simp add: wf_nn_def)
  note l = wf_space_lengths(2)[OF sp]
  have shr: "shape (nn_obs_range B) = sp_shape ?sp" and vr: "valid_nd s (nn_obs_range B)"
    and n: "nn_n_obs B = prod_list (sp_shape ?sp)"
    using wf by (simp_all add: wf_nn_def)
  have r: "length (nd_elems s (nn_obs_range B)) = prod_list (sp_shape ?sp)"
    using nd_elems_length[OF vr] shr by simp
  have x: "length (nd_elems s obs) = prod_list (sp_shape ?sp)"
    using nd_elems_length[OF v] sh by simp
  have lz: "length zs = nn_n_obs B" using l r x n by (simp add: zs_def)
  define s2 where "s2 = s\<lparr>bufs := bufs s @ [zs]\<rparr>"
  define x2 where "x2 = \<lparr>buf = length (bufs s), off = 0, len = nn_n_obs B\<rparr>"
  have run: "nn_normalize B obs s = (Inr x2, s2)"
    using nz by (simp add: nn_normalize_run[OF wf v sh fl] x2_def s2_def zs_def)
  have ex: "vec_elems s2 x2 = zs"
    using rd_new0[of s "[zs]" _ "nn_n_obs B"] lz by (simp add: vec_elems_def s2_def x2_def)
  show ?thesis using run ex lz by (simp add: zs_def) (simp add: x2_def)
qed

subsection \<open>react_to reads only what existed\<close>

lemma perceptron_react_to_stable:
  assumes wf: "wf_perceptron s A" and v: "valid_nd s obs"
    and sh: "shape obs = sp_shape (observation_space A)"
    and p: "prefix (bufs s) (bufs t)"
  shows "fst (perceptron_react_to A obs t) = fst (perceptron_react_to A obs s)"
proof -
  have wft: "wf_perceptron t A" by (rule wf_perceptron_prefix[OF p wf])
  have vt: "valid_nd t obs" by (rule valid_nd_prefix[OF p v])
  have sp: "wf_space s (observation_space A)" and vr: "valid_nd s (obs_range A)"
    and vm: "valid_mat s (perceptron_matrix A)"
    using wf by (simp_all add: wf_perceptron_def)
  have vl: "valid_nd s (low (observation_space A))" using sp by (simp add: wf_space_def)
  show ?thesis
  proof (cases "dtype obs")
    case Floating
    show ?thesis
      by (simp add: perceptron_react_to_run(1)[OF wft vt sh Floating]
          perceptron_react_to_run(1)[OF wf v sh Floating]
          nd_elems_prefix[OF p v] nd_elems_prefix[OF p vr] nd_elems_prefix[OF p vl]
          mat_elems_prefix[OF p vm])
  next
    case Integer
    show ?thesis
      by (simp add: perceptron_react_to_int[OF wft vt sh Integer]
          perceptron_react_to_int[OF wf v sh Integer])
  qed
qed

lemma nn_react_to_stable:
  assumes wf: "wf_nn s B" and v: "valid_nd s obs"
    and sh: "shape obs = sp_shape (nn_observation_space B)"
    and p: "prefix (bufs s) (bufs t)" and lg: "logistic t = logistic s"
  shows "fst (nn_react_to B obs t) = fst (nn_react_to B obs s)"
proof -
  have wft: "wf_nn t B" by (rule wf_nn_prefix[OF p wf])
  have vt: "valid_nd t obs" by (rule valid_nd_prefix[OF p v])
  have sp: "wf_space s (nn_observation_space B)" and vr: "valid_nd s (nn_obs_range B)"
    and vm: "list_all (valid_mat s) (layers B)"
    using wf by (simp_all add: wf_nn_def)
  have vl: "valid_nd s (low (nn_observation_space B))" using sp by (simp add: wf_space_def)
  show ?thesis
  proof (cases "dtype obs")
    case Floating
    show ?thesis
      by (simp add: nn_react_to_run(1)[OF wft vt sh Floating]
          nn_react_to_run(1)[OF wf v sh Floating] lg
          nd_elems_prefix[OF p v] nd_elems_prefix[OF p vr] nd_elems_prefix[OF p vl]
          layer_of_prefix[OF p vm])
  next
    case Integer
    show ?thesis
      by (simp add: nn_react_to_int[OF wft vt sh Integer] nn_react_to_int[OF wf v sh Integer])
  qed
qed

subsection \<open>The logistic function keeps the order\<close>

lemma sigmoid_strict_mono: "strict_mono sigmoid"
proof (rule strict_monoI)
  fix x y :: real
  assume "x < y"
  then have "exp (- y) < exp (- x)" by simp
  then have "1 + exp (- y) < 1 + exp (- x)" by simp
  moreover have "0 < 1 + exp (- y)" using exp_gt_zero[of "- y"] by linarith
  ultimately show "sigmoid x < sigmoid y"
    unfolding sigmoid_def by (simp add: frac_less2)
qed

section \<open>The concrete store is well formed\<close>

lemma ex_wf_space: "wf_space ex_store ex_space"
  by (simp add: wf_space_def valid_nd_def valid_def ex_store_def ex_space_def)

lemma ex_wf_perceptron: "wf_perceptron ex_store ex_perceptron"
  using ex_wf_space
  by (simp add: wf_perceptron_def ex_perceptron_def valid_nd_def valid_mat_def valid_def
      ex_store_def ex_space_def ex_matrix_def)

lemma ex_wf_nn: "wf_nn ex_store ex_nn"
  using ex_wf_space
  by (simp add: wf_nn_def ex_nn_def valid_nd_def valid_mat_def valid_def
      ex_store_def ex_space_def ex_matrix_def)

lemma ex_valid_obs: "valid_nd ex_store ex_obs"
  by (simp add: valid_nd_def valid_def ex_store_def ex_obs_def)

lemma ex_shape_obs: "shape ex_obs = sp_shape ex_space"
  by (simp add: ex_obs_def ex_space_def)

lemma ex_dtype_obs: "dtype ex_obs = Floating"
  by (simp add: ex_obs_def)

lemma ex_valid_obs_int: "valid_nd ex_store ex_obs_int"
  by (simp add: valid_nd_def valid_def ex_store_def ex_obs_int_def)

lemma ex_shape_obs_int: "shape ex_obs_int = sp_shape ex_space"
  by (simp add: ex_obs_int_def ex_space_def)

lemma ex_dtype_obs_int: "dtype ex_obs_int = Integer"
  by (simp add: ex_obs_int_def)

lemma ex_store_logistic: "logistic ex_store = ex_logistic"
  by (simp add: ex_store_def)

lemma ex_reads:
  "nd_elems ex_store ex_obs = [1, 2]"
  "nd_elems ex_store (low ex_space) = [0, 0]"
  "nd_elems ex_store (high ex_space) = [2, 4]"
  "nd_elems ex_store (obs_range ex_perceptron) = [2, 4]"
  "nd_elems ex_store (nn_obs_range ex_nn) = [2, 4]"
  "mat_elems ex_store ex_matrix = [1/2, 0, 0, 1/4]"
  "vec_elems ex_store ex_genome = [3/4, 1/2, 1/2, 5/8]"
  by (simp_all add: nd_elems_def mat_elems_def vec_elems_def rd_def ex_store_def ex_obs_def
      ex_space_def ex_perceptron_def ex_nn_def ex_matrix_def ex_genome_def)

lemma ex_reads_int: "nd_elems ex_store ex_obs_int = [1, 2]"
  by (simp add: nd_elems_def rd_def ex_store_def ex_obs_int_def)

lemma matvec_2_2:
  "matvec 2 2 [a, b, c, d] [x, y] = [a * x + b * y, c * x + d * y]"
  by (simp add: matvec_def row_def inner_def upt_rec)

lemma ex_fields:
  "observation_space ex_perceptron = ex_space" "n_obs ex_perceptron = 2"
  "n_act ex_perceptron = 2" "perceptron_matrix ex_perceptron = ex_matrix"
  "nn_observation_space ex_nn = ex_space" "nn_n_obs ex_nn = 2" "nn_n_act ex_nn = 2"
  "layers ex_nn = [ex_matrix]" "rows ex_matrix = 2" "cols ex_matrix = 2" "len ex_genome = 4"
  by (simp_all add: ex_perceptron_def ex_nn_def ex_matrix_def ex_genome_def)

lemma ex_perceptron_react: "fst (perceptron_react_to ex_perceptron ex_obs ex_store) = Inr 0"
  using perceptron_react_to_run(1)[OF ex_wf_perceptron ex_valid_obs]
  by (simp add: ex_reads ex_fields ex_shape_obs ex_dtype_obs matvec_2_2 scan_max_def)

lemma ex_nn_react: "fst (nn_react_to ex_nn ex_obs ex_store) = Inr 0"
  using nn_react_to_run(1)[OF ex_wf_nn ex_valid_obs]
  by (simp add: ex_reads ex_fields ex_shape_obs ex_dtype_obs layer_of_def matvec_2_2
      scan_max_def ex_store_logistic ex_logistic_def strict_mono_less[OF sigmoid_strict_mono])

section \<open>The claims\<close>

text \<open>
  Claim C10. The helper \<open>product\<close> is undefined on the empty sequence: \<open>reduce\<close> without
  an initial value raises TypeError there. Hence the constructors of PerceptronActor and
  NeuralNetActor fail with that error, before allocating anything, when the shape of the
  observation space is the empty sequence, and no actor is produced. On every non-empty
  shape \<open>product\<close> returns the product of its elements.
\<close>

theorem product_empty_shape:
  "product [] = Inl TypeError \<and>
   (sp_shape sp = [] \<longrightarrow>
      perceptron_init sp act s = (Inl TypeError, s) \<and>
      nn_init sp act hidden s = (Inl TypeError, s)) \<and>
   (xs \<noteq> [] \<longrightarrow> product xs = Inr (prod_list xs))"
  by (simp add: perceptron_init_def nn_init_def seq_def lift_def product_nonempty)

theorem product_empty_shape_witness:
  "sp_shape (ex_space\<lparr>sp_shape := []\<rparr>) = [] \<and>
   perceptron_init (ex_space\<lparr>sp_shape := []\<rparr>) \<lparr>act_n = 2\<rparr> ex_store = (Inl TypeError, ex_store) \<and>
   nn_init (ex_space\<lparr>sp_shape := []\<rparr>) \<lparr>act_n = 2\<rparr> [4, 3] ex_store = (Inl TypeError, ex_store) \<and>
   [2, 3, 4] \<noteq> ([] :: nat list) \<and> product [2, 3, 4] = Inr 24"
  using product_empty_shape[of "ex_space\<lparr>sp_shape := []\<rparr>" "\<lparr>act_n = 2\<rparr>" ex_store "[4, 3]" "[2, 3, 4]"]
  by simp

text \<open>
  Claim C5. Both \<open>react_to\<close> return the result of the same scan over the output vector:
  when the perceptron answers \<open>i\<close>, then \<open>i\<close> is the scan of the vector that \<open>dot\<close> returned,
  and when the network answers \<open>i\<close>, then \<open>i\<close> is the scan of the vector that the last
  layer returned. On every non-empty vector the scan returns an index of the vector at
  which no element is strictly greater, and every earlier index has a strictly greater
  element somewhere: it is the smallest such index. On [0.5, 0.9, 0.9, 0.2] it returns 1.
\<close>

theorem react_to_first_maximum:
  "(fst (perceptron_react_to A obs s) = Inr i \<longrightarrow>
      (\<exists>x t out u. perceptron_normalize A obs s = (Inr x, t) \<and>
         dot (perceptron_matrix A) x t = (Inr out, u) \<and> i = scan_max (vec_elems u out))) \<and>
   (fst (nn_react_to B obs s) = Inr i' \<longrightarrow>
      (\<exists>x t out u. nn_normalize B obs s = (Inr x, t) \<and>
         feed (layers B) x t = (Inr out, u) \<and> i' = scan_max (vec_elems u out))) \<and>
   (outputs \<noteq> [] \<longrightarrow>
      scan_max outputs < length outputs \<and>
      (\<forall>j<length outputs. \<not> outputs ! j > outputs ! scan_max outputs) \<and>
      (\<forall>k<scan_max outputs. \<exists>j<length outputs. outputs ! j > outputs ! k)) \<and>
   scan_max [1/2, 9/10, 9/10, 1/5] = 1"
proof (intro conjI impI)
  assume "fst (perceptron_react_to A obs s) = Inr i"
  then show "\<exists>x t out u. perceptron_normalize A obs s = (Inr x, t) \<and>
         dot (perceptron_matrix A) x t = (Inr out, u) \<and> i = scan_max (vec_elems u out)"
    by (auto simp: perceptron_react_to_def seq_def argmax_of_def split: prod.splits sum.splits)
next
  assume "fst (nn_react_to B obs s) = Inr i'"
  then show "\<exists>x t out u. nn_normalize B obs s = (Inr x, t) \<and>
         feed (layers B) x t = (Inr out, u) \<and> i' = scan_max (vec_elems u out)"
    by (auto simp: nn_react_to_def seq_def argmax_of_def split: prod.splits sum.splits)
next
  assume ne: "outputs \<noteq> []"
  note f = scan_max_first_max[OF ne, unfolded first_max_def]
  show "scan_max outputs < length outputs" using f by simp
  show "\<forall>j<length outputs. \<not> outputs ! j > outputs ! scan_max outputs"
    using f by (simp add: not_less)
  show "\<forall>k<scan_max outputs. \<exists>j<length outputs. outputs ! j > outputs ! k"
    using f by blast
next
  show "scan_max [1/2, 9/10, 9/10, 1/5] = 1" by (simp add: scan_max_def)
qed

theorem react_to_first_maximum_witness:
  "fst (perceptron_react_to ex_perceptron ex_obs ex_store) = Inr 0 \<and>
   (\<exists>x t out u. perceptron_normalize ex_perceptron ex_obs ex_store = (Inr x, t) \<and>
      dot (perceptron_matrix ex_perceptron) x t = (Inr out, u) \<and> 0 = scan_max (vec_elems u out)) \<and>
   fst (nn_react_to ex_nn ex_obs ex_store) = Inr 0 \<and>
   (\<exists>x t out u. nn_normalize ex_nn ex_obs ex_store = (Inr x, t) \<and>
      feed (layers ex_nn) x t = (Inr out, u) \<and> 0 = scan_max (vec_elems u out)) \<and>
   [1/2, 9/10, 9/10, 1/5] \<noteq> ([] :: real list) \<and>
   scan_max [1/2, 9/10, 9/10, 1/5] < length [1/2, 9/10, 9/10, 1/5 :: real]"
proof -
  note t = react_to_first_maximum[of ex_perceptron ex_obs ex_store 0 ex_nn 0
      "[1/2, 9/10, 9/10, 1/5]"]
  have n: "[1/2, 9/10, 9/10, 1/5] \<noteq> ([] :: real list)" by simp
  from t ex_perceptron_react ex_nn_react n show ?thesis by blast
qed

text \<open>
  Claim C9. \<open>react_to\<close> leaves the array of the caller unchanged. Whatever the actor and
  the observation, and whether the call returns or raises, every buffer that existed
  before the call has the same contents afterwards: the two in-place operators write
  into the buffer of the copy made in the first line. So an observation that refers to
  an existing buffer reads the same elements after the call as before.
\<close>

theorem react_to_keeps_observation:
  "prefix (bufs s) (bufs (snd (perceptron_react_to A obs s))) \<and>
   prefix (bufs s) (bufs (snd (nn_react_to B obs s))) \<and>
   (buf obs < length (bufs s) \<longrightarrow>
      nd_elems (snd (perceptron_react_to A obs s)) obs = nd_elems s obs \<and>
      nd_elems (snd (nn_react_to B obs s)) obs = nd_elems s obs)"
  by (simp add: perceptron_react_to_prefix nn_react_to_prefix nd_elems_def rd_prefix)

theorem react_to_keeps_observation_witness:
  "buf ex_obs < length (bufs ex_store) \<and>
   nd_elems (snd (perceptron_react_to ex_perceptron ex_obs ex_store)) ex_obs = [1, 2] \<and>
   nd_elems (snd (nn_react_to ex_nn ex_obs ex_store)) ex_obs = [1, 2]"
proof -
  have b: "buf ex_obs < length (bufs ex_store)" by (simp add: ex_obs_def ex_store_def)
  from react_to_keeps_observation[of ex_store ex_perceptron ex_obs ex_nn] b
  show ?thesis by (simp add: ex_reads)
qed

text \<open>
  Claim C2. The genome has as many elements as the container has parameters. For a
  perceptron whose matrix has the shape (n_act, n_obs) that the constructor and
  \<open>from_genome\<close> give it, \<open>get_genome\<close> returns a vector of length \<open>rows * cols\<close>; for a
  network it returns a vector whose length is the sum of \<open>rows * cols\<close> over the layers.
  The stated length is both the length field of the returned vector and the number of
  elements read through it.
\<close>

theorem genome_length:
  "(valid_mat s (perceptron_matrix A) \<and> rows (perceptron_matrix A) = n_act A \<and>
    cols (perceptron_matrix A) = n_obs A \<longrightarrow>
      (\<exists>g s'. perceptron_get_genome A s = (Inr g, s') \<and>
         len g = rows (perceptron_matrix A) * cols (perceptron_matrix A) \<and>
         length (vec_elems s' g) = rows (perceptron_matrix A) * cols (perceptron_matrix A))) \<and>
   (list_all (valid_mat s) (layers B) \<longrightarrow>
      (\<exists>g s'. nn_get_genome B s = (Inr g, s') \<and>
         len g = sum_list (map (\<lambda>m. rows m * cols m) (layers B)) \<and>
         length (vec_elems s' g) = sum_list (map (\<lambda>m. rows m * cols m) (layers B))))"
proof (intro conjI impI)
  assume a: "valid_mat s (perceptron_matrix A) \<and> rows (perceptron_matrix A) = n_act A \<and>
    cols (perceptron_matrix A) = n_obs A"
  then obtain g s' where g: "perceptron_get_genome A s = (Inr g, s')" "valid_vec s' g"
    "len g = rows (perceptron_matrix A) * cols (perceptron_matrix A)"
    using perceptron_get_genome_spec[of s A] by blast
  show "\<exists>g s'. perceptron_get_genome A s = (Inr g, s') \<and>
         len g = rows (perceptron_matrix A) * cols (perceptron_matrix A) \<and>
         length (vec_elems s' g) = rows (perceptron_matrix A) * cols (perceptron_matrix A)"
    using g vec_elems_length[OF g(2)] by auto
next
  assume vl: "list_all (valid_mat s) (layers B)"
  obtain g s' where g: "nn_get_genome B s = (Inr g, s')" "valid_vec s' g"
    "len g = length (concat (map (mat_elems s) (layers B)))"
    using nn_get_genome_run[OF vl] by blast
  show "\<exists>g s'. nn_get_genome B s = (Inr g, s') \<and>
         len g = sum_list (map (\<lambda>m. rows m * cols m) (layers B)) \<and>
         length (vec_elems s' g) = sum_list (map (\<lambda>m. rows m * cols m) (layers B))"
    using g vec_elems_length[OF g(2)] length_concat_mat_elems[OF vl] by auto
qed

lemma ex_valid_matrix: "valid_mat ex_store ex_matrix"
  by (simp add: valid_mat_def valid_def ex_store_def ex_matrix_def)

lemma ex_valid_layers2: "list_all (valid_mat ex_store2) (layers ex_nn2)"
  by (simp add: valid_mat_def valid_def ex_store2_def ex_nn2_def)

theorem genome_length_witness:
  "(\<exists>g s'. perceptron_get_genome ex_perceptron ex_store = (Inr g, s') \<and> len g = 4 \<and>
      length (vec_elems s' g) = 4) \<and>
   (\<exists>g s'. nn_get_genome ex_nn ex_store = (Inr g, s') \<and> len g = 4 \<and>
      length (vec_elems s' g) = 4) \<and>
   (\<exists>g s'. nn_get_genome ex_nn2 ex_store2 = (Inr g, s') \<and> len g = 38 \<and>
      length (vec_elems s' g) = 38)"
proof -
  have 1: "(\<exists>g s'. perceptron_get_genome ex_perceptron ex_store = (Inr g, s') \<and> len g = 4 \<and>
      length (vec_elems s' g) = 4) \<and>
   (\<exists>g s'. nn_get_genome ex_nn ex_store = (Inr g, s') \<and> len g = 4 \<and>
      length (vec_elems s' g) = 4)"
    using genome_length[of ex_store ex_perceptron ex_nn] ex_valid_matrix
    by (simp add: ex_fields)
  have k: "sum_list (map (\<lambda>m. rows m * cols m) (layers ex_nn2)) = 38"
    by (simp add: ex_nn2_def)
  have 2: "\<exists>g s'. nn_get_genome ex_nn2 ex_store2 = (Inr g, s') \<and> len g = 38 \<and>
      length (vec_elems s' g) = 38"
    using genome_length[of ex_store2 ex_perceptron ex_nn2, THEN conjunct2, rule_format,
        OF ex_valid_layers2]
    unfolding k .
  from 1 2 show ?thesis by blast
qed

text \<open>
  Claim C3. When every weight of the container lies in [-1, 1], every element of the
  genome lies in [0, 1]: \<open>get_genome\<close> returns the weights in row-major order, layer after
  layer, each weight \<open>w\<close> mapped to \<open>(w + 1) / 2\<close>. The construction gives such weights:
  when the random stream yields values in [0, 1), both constructors return matrices
  whose entries lie in [-1, 1).
\<close>

theorem genome_range:
  "(valid_mat s (perceptron_matrix A) \<and> rows (perceptron_matrix A) = n_act A \<and>
    cols (perceptron_matrix A) = n_obs A \<and>
    (\<forall>w\<in>set (mat_elems s (perceptron_matrix A)). - 1 \<le> w \<and> w \<le> 1) \<longrightarrow>
      (\<exists>g s'. perceptron_get_genome A s = (Inr g, s') \<and>
         vec_elems s' g = map (\<lambda>w. (w + 1) / 2) (mat_elems s (perceptron_matrix A)) \<and>
         (\<forall>x\<in>set (vec_elems s' g). 0 \<le> x \<and> x \<le> 1))) \<and>
   (list_all (valid_mat s) (layers B) \<and>
    (\<forall>m\<in>set (layers B). \<forall>w\<in>set (mat_elems s m). - 1 \<le> w \<and> w \<le> 1) \<longrightarrow>
      (\<exists>g s'. nn_get_genome B s = (Inr g, s') \<and>
         vec_elems s' g = map (\<lambda>w. (w + 1) / 2) (concat (map (mat_elems s) (layers B))) \<and>
         (\<forall>x\<in>set (vec_elems s' g). 0 \<le> x \<and> x \<le> 1))) \<and>
   (wf_space s sp \<and> (\<forall>k. 0 \<le> rand s k \<and> rand s k < 1) \<longrightarrow>
      (\<exists>A s1. perceptron_init sp act s = (Inr A, s1) \<and>
         (\<forall>w\<in>set (mat_elems s1 (perceptron_matrix A)). - 1 \<le> w \<and> w < 1)) \<and>
      (\<exists>B s1. nn_init sp act hidden s = (Inr B, s1) \<and>
         (\<forall>m\<in>set (layers B). \<forall>w\<in>set (mat_elems s1 m). - 1 \<le> w \<and> w < 1)))"
proof (intro conjI impI)
  assume a: "valid_mat s (perceptron_matrix A) \<and> rows (perceptron_matrix A) = n_act A \<and>
    cols (perceptron_matrix A) = n_obs A \<and>
    (\<forall>w\<in>set (mat_elems s (perceptron_matrix A)). - 1 \<le> w \<and> w \<le> 1)"
  then obtain g s' where g: "perceptron_get_genome A s = (Inr g, s')"
    "vec_elems s' g = map (\<lambda>w. (w + 1) / 2) (mat_elems s (perceptron_matrix A))"
    using perceptron_get_genome_spec[of s A] by blast
  have "\<forall>x\<in>set (vec_elems s' g). 0 \<le> x \<and> x \<le> 1"
    using a by (auto simp: g(2))
  then show "\<exists>g s'. perceptron_get_genome A s = (Inr g, s') \<and>
         vec_elems s' g = map (\<lambda>w. (w + 1) / 2) (mat_elems s (perceptron_matrix A)) \<and>
         (\<forall>x\<in>set (vec_elems s' g). 0 \<le> x \<and> x \<le> 1)"
    using g by blast
next
  assume a: "list_all (valid_mat s) (layers B) \<and>
    (\<forall>m\<in>set (layers B). \<forall>w\<in>set (mat_elems s m). - 1 \<le> w \<and> w \<le> 1)"
  then obtain g s' where g: "nn_get_genome B s = (Inr g, s')"
    "vec_elems s' g = map (\<lambda>x. (x + 1) / 2) (concat (map (mat_elems s) (layers B)))"
    using nn_get_genome_run[of s B] by blast
  have "\<forall>x\<in>set (vec_elems s' g). 0 \<le> x \<and> x \<le> 1"
  proof
    fix x assume "x \<in> set (vec_elems s' g)"
    then obtain m w where mw: "m \<in> set (layers B)" "w \<in> set (mat_elems s m)" "x = (w + 1) / 2"
      by (auto simp: g(2))
    then have "- 1 \<le> w \<and> w \<le> 1" using a by blast
    then show "0 \<le> x \<and> x \<le> 1" by (simp add: mw(3))
  qed
  then show "\<exists>g s'. nn_get_genome B s = (Inr g, s') \<and>
         vec_elems s' g = map (\<lambda>w. (w + 1) / 2) (concat (map (mat_elems s) (layers B))) \<and>
         (\<forall>x\<in>set (vec_elems s' g). 0 \<le> x \<and> x \<le> 1)"
    using g by blast
next
  assume a: "wf_space s sp \<and> (\<forall>k. 0 \<le> rand s k \<and> rand s k < 1)"
  obtain A s1 where i: "perceptron_init sp act s = (Inr A, s1)"
    "mat_elems s1 (perceptron_matrix A) =
       map (\<lambda>k. rand s (pos s + k) * 2 - 1) [0..<act_n act * prod_list (sp_shape sp)]"
    using perceptron_init_spec[of s sp act] a by blast
  have "\<forall>w\<in>set (mat_elems s1 (perceptron_matrix A)). - 1 \<le> w \<and> w < 1"
  proof
    fix w assume "w \<in> set (mat_elems s1 (perceptron_matrix A))"
    then obtain k where "w = rand s k * 2 - 1" by (auto simp: i(2))
    moreover have "0 \<le> rand s k \<and> rand s k < 1" using a by simp
    ultimately show "- 1 \<le> w \<and> w < 1" by simp
  qed
  then show "\<exists>A s1. perceptron_init sp act s = (Inr A, s1) \<and>
         (\<forall>w\<in>set (mat_elems s1 (perceptron_matrix A)). - 1 \<le> w \<and> w < 1)"
    using i(1) by blast
next
  assume a: "wf_space s sp \<and> (\<forall>k. 0 \<le> rand s k \<and> rand s k < 1)"
  obtain B s1 where i: "nn_init sp act hidden s = (Inr B, s1)"
    "\<forall>m\<in>set (layers B). \<forall>w\<in>set (mat_elems s1 m). \<exists>k. w = rand s k * 2 - 1"
    using nn_init_spec[of s sp act hidden] a by blast
  have "\<forall>m\<in>set (layers B). \<forall>w\<in>set (mat_elems s1 m). - 1 \<le> w \<and> w < 1"
  proof (intro ballI)
    fix m w assume "m \<in> set (layers B)" "w \<in> set (mat_elems s1 m)"
    then obtain k where "w = rand s k * 2 - 1" using i(2) by blast
    moreover have "0 \<le> rand s k \<and> rand s k < 1" using a by simp
    ultimately show "- 1 \<le> w \<and> w < 1" by simp
  qed
  then show "\<exists>B s1. nn_init sp act hidden s = (Inr B, s1) \<and>
         (\<forall>m\<in>set (layers B). \<forall>w\<in>set (mat_elems s1 m). - 1 \<le> w \<and> w < 1)"
    using i(1) by blast
qed

lemma ex_rand: "\<forall>k. 0 \<le> rand ex_store k \<and> rand ex_store k < 1"
  by (simp add: ex_store_def)

theorem genome_range_witness:
  "(\<exists>g s'. perceptron_get_genome ex_perceptron ex_store = (Inr g, s') \<and>
      vec_elems s' g = [3/4, 1/2, 1/2, 5/8] \<and> (\<forall>x\<in>set (vec_elems s' g). 0 \<le> x \<and> x \<le> 1)) \<and>
   (\<exists>g s'. nn_get_genome ex_nn ex_store = (Inr g, s') \<and>
      vec_elems s' g = [3/4, 1/2, 1/2, 5/8] \<and> (\<forall>x\<in>set (vec_elems s' g). 0 \<le> x \<and> x \<le> 1)) \<and>
   (\<exists>A s1. perceptron_init ex_space \<lparr>act_n = 2\<rparr> ex_store = (Inr A, s1) \<and>
      (\<forall>w\<in>set (mat_elems s1 (perceptron_matrix A)). - 1 \<le> w \<and> w < 1)) \<and>
   (\<exists>B s1. nn_init ex_space \<lparr>act_n = 2\<rparr> [3] ex_store = (Inr B, s1) \<and>
      (\<forall>m\<in>set (layers B). \<forall>w\<in>set (mat_elems s1 m). - 1 \<le> w \<and> w < 1))"
  using genome_range[of ex_store ex_perceptron ex_nn ex_space "\<lparr>act_n = 2\<rparr>" "[3]"]
    ex_valid_matrix ex_wf_space ex_rand
  by (simp add: ex_fields ex_reads)

text \<open>
  Claim C1. Decoding the encoding of an actor against the actor itself gives back its
  weights. For a freshly constructed perceptron \<open>A\<close>, \<open>A.from_genome(A.get_genome())\<close>
  returns an actor whose matrix has the shape and the elements of the matrix of \<open>A\<close>; for a
  freshly constructed network, with any list of hidden layers, it returns an actor whose
  layers have, one by one, the shapes and the elements of the layers of \<open>A\<close>. The same
  holds for every well-formed actor, fresh or not. Arithmetic is exact in this model, so
  the elements are equal, and equal within the tolerance 1e-9 in particular.
\<close>

theorem genome_roundtrip:
  "(wf_space s sp \<longrightarrow>
      (\<exists>A s1 g s2 A' s3. perceptron_init sp act s = (Inr A, s1) \<and>
         perceptron_get_genome A s1 = (Inr g, s2) \<and>
         perceptron_from_genome A g s2 = (Inr A', s3) \<and>
         rows (perceptron_matrix A') = rows (perceptron_matrix A) \<and>
         cols (perceptron_matrix A') = cols (perceptron_matrix A) \<and>
         mat_elems s3 (perceptron_matrix A') = mat_elems s1 (perceptron_matrix A) \<and>
         list_all2 (\<lambda>x y. \<bar>x - y\<bar> \<le> 1 / 10 ^ 9)
           (mat_elems s3 (perceptron_matrix A')) (mat_elems s1 (perceptron_matrix A))) \<and>
      (\<exists>B t1 g t2 B' t3. nn_init sp act hidden s = (Inr B, t1) \<and>
         nn_get_genome B t1 = (Inr g, t2) \<and>
         nn_from_genome B g t2 = (Inr B', t3) \<and>
         map (\<lambda>m. (rows m, cols m)) (layers B') = map (\<lambda>m. (rows m, cols m)) (layers B) \<and>
         map (mat_elems t3) (layers B') = map (mat_elems t1) (layers B) \<and>
         list_all2 (list_all2 (\<lambda>x y. \<bar>x - y\<bar> \<le> 1 / 10 ^ 9))
           (map (mat_elems t3) (layers B')) (map (mat_elems t1) (layers B)))) \<and>
   (wf_perceptron s P \<longrightarrow>
      (\<exists>g s2 P' s3. perceptron_get_genome P s = (Inr g, s2) \<and>
         perceptron_from_genome P g s2 = (Inr P', s3) \<and>
         rows (perceptron_matrix P') = rows (perceptron_matrix P) \<and>
         cols (perceptron_matrix P') = cols (perceptron_matrix P) \<and>
         mat_elems s3 (perceptron_matrix P') = mat_elems s (perceptron_matrix P))) \<and>
   (wf_nn s N \<longrightarrow>
      (\<exists>g s2 N' s3. nn_get_genome N s = (Inr g, s2) \<and>
         nn_from_genome N g s2 = (Inr N', s3) \<and>
         map (\<lambda>m. (rows m, cols m)) (layers N') = map (\<lambda>m. (rows m, cols m)) (layers N) \<and>
         map (mat_elems s3) (layers N') = map (mat_elems s) (layers N)))"
proof (intro conjI impI)
  assume sp: "wf_space s sp"
  obtain A s1 where i: "perceptron_init sp act s = (Inr A, s1)" "wf_perceptron s1 A"
    using perceptron_init_spec[OF sp] by blast
  obtain g s2 A' s3 where r: "perceptron_get_genome A s1 = (Inr g, s2)"
     "perceptron_from_genome A g s2 = (Inr A', s3)"
     "rows (perceptron_matrix A') = rows (perceptron_matrix A)"
     "cols (perceptron_matrix A') = cols (perceptron_matrix A)"
     "mat_elems s3 (perceptron_matrix A') = mat_elems s1 (perceptron_matrix A)"
    using perceptron_roundtrip[OF i(2)] by blast
  have "list_all2 (\<lambda>x y. \<bar>x - y\<bar> \<le> 1 / 10 ^ 9)
           (mat_elems s3 (perceptron_matrix A')) (mat_elems s1 (perceptron_matrix A))"
    by (simp add: r(5) list_all2_same)
  then show "\<exists>A s1 g s2 A' s3. perceptron_init sp act s = (Inr A, s1) \<and>
         perceptron_get_genome A s1 = (Inr g, s2) \<and>
         perceptron_from_genome A g s2 = (Inr A', s3) \<and>
         rows (perceptron_matrix A') = rows (perceptron_matrix A) \<and>
         cols (perceptron_matrix A') = cols (perceptron_matrix A) \<and>
         mat_elems s3 (perceptron_matrix A') = mat_elems s1 (perceptron_matrix A) \<and>
         list_all2 (\<lambda>x y. \<bar>x - y\<bar> \<le> 1 / 10 ^ 9)
           (mat_elems s3 (perceptron_matrix A')) (mat_elems s1 (perceptron_matrix A))"
    using i(1) r by blast
next
  assume sp: "wf_space s sp"
  obtain B t1 where i: "nn_init sp act hidden s = (Inr B, t1)" "wf_nn t1 B"
    using nn_init_spec[OF sp] by blast
  obtain g t2 B' t3 where r: "nn_get_genome B t1 = (Inr g, t2)"
     "nn_from_genome B g t2 = (Inr B', t3)"
     "map (\<lambda>m. (rows m, cols m)) (layers B') = map (\<lambda>m. (rows m, cols m)) (layers B)"
     "map (mat_elems t3) (layers B') = map (mat_elems t1) (layers B)"
    using nn_roundtrip[OF i(2)] by blast
  have "list_all2 (list_all2 (\<lambda>x y. \<bar>x - y\<bar> \<le> 1 / 10 ^ 9))
           (map (mat_elems t3) (layers B')) (map (mat_elems t1) (layers B))"
    unfolding r(4) by (simp add: list_all2_same)
  then show "\<exists>B t1 g t2 B' t3. nn_init sp act hidden s = (Inr B, t1) \<and>
         nn_get_genome B t1 = (Inr g, t2) \<and>
         nn_from_genome B g t2 = (Inr B', t3) \<and>
         map (\<lambda>m. (rows m, cols m)) (layers B') = map (\<lambda>m. (rows m, cols m)) (layers B) \<and>
         map (mat_elems t3) (layers B') = map (mat_elems t1) (layers B) \<and>
         list_all2 (list_all2 (\<lambda>x y. \<bar>x - y\<bar> \<le> 1 / 10 ^ 9))
           (map (mat_elems t3) (layers B')) (map (mat_elems t1) (layers B))"
    using i(1) r by blast
next
  assume "wf_perceptron s P"
  then show "\<exists>g s2 P' s3. perceptron_get_genome P s = (Inr g, s2) \<and>
         perceptron_from_genome P g s2 = (Inr P', s3) \<and>
         rows (perceptron_matrix P') = rows (perceptron_matrix P) \<and>
         cols (perceptron_matrix P') = cols (perceptron_matrix P) \<and>
         mat_elems s3 (perceptron_matrix P') = mat_elems s (perceptron_matrix P)"
    by (rule perceptron_roundtrip)
next
  assume "wf_nn s N"
  then show "\<exists>g s2 N' s3. nn_get_genome N s = (Inr g, s2) \<and>
         nn_from_genome N g s2 = (Inr N', s3) \<and>
         map (\<lambda>m. (rows m, cols m)) (layers N') = map (\<lambda>m. (rows m, cols m)) (layers N) \<and>
         map (mat_elems s3) (layers N') = map (mat_elems s) (layers N)"
    by (rule nn_roundtrip)
qed

theorem genome_roundtrip_witness:
  "(\<exists>A s1 g s2 A' s3. perceptron_init ex_space \<lparr>act_n = 2\<rparr> ex_store = (Inr A, s1) \<and>
      perceptron_get_genome A s1 = (Inr g, s2) \<and>
      perceptron_from_genome A g s2 = (Inr A', s3) \<and>
      mat_elems s3 (perceptron_matrix A') = mat_elems s1 (perceptron_matrix A)) \<and>
   (\<exists>B t1 g t2 B' t3. nn_init ex_space \<lparr>act_n = 2\<rparr> [3] ex_store = (Inr B, t1) \<and>
      nn_get_genome B t1 = (Inr g, t2) \<and>
      nn_from_genome B g t2 = (Inr B', t3) \<and>
      map (mat_elems t3) (layers B') = map (mat_elems t1) (layers B)) \<and>
   (\<exists>g s2 P' s3. perceptron_get_genome ex_perceptron ex_store = (Inr g, s2) \<and>
      perceptron_from_genome ex_perceptron g s2 = (Inr P', s3) \<and>
      mat_elems s3 (perceptron_matrix P') = [1/2, 0, 0, 1/4]) \<and>
   (\<exists>g s2 N' s3. nn_get_genome ex_nn ex_store = (Inr g, s2) \<and>
      nn_from_genome ex_nn g s2 = (Inr N', s3) \<and>
      map (mat_elems s3) (layers N') = [[1/2, 0, 0, 1/4]])"
proof -
  note t = genome_roundtrip[of ex_store ex_space "\<lparr>act_n = 2\<rparr>" "[3]" ex_perceptron ex_nn]
  note t1 = t[THEN conjunct1, rule_format, OF ex_wf_space]
  note t3 = t[THEN conjunct2, THEN conjunct1, rule_format, OF ex_wf_perceptron]
  note t4 = t[THEN conjunct2, THEN conjunct2, rule_format, OF ex_wf_nn]
  have 1: "\<exists>A s1 g s2 A' s3. perceptron_init ex_space \<lparr>act_n = 2\<rparr> ex_store = (Inr A, s1) \<and>
      perceptron_get_genome A s1 = (Inr g, s2) \<and>
      perceptron_from_genome A g s2 = (Inr A', s3) \<and>
      mat_elems s3 (perceptron_matrix A') = mat_elems s1 (perceptron_matrix A)"
    using t1[THEN conjunct1] by blast
  have 2: "\<exists>B t1 g t2 B' t3. nn_init ex_space \<lparr>act_n = 2\<rparr> [3] ex_store = (Inr B, t1) \<and>
      nn_get_genome B t1 = (Inr g, t2) \<and>
      nn_from_genome B g t2 = (Inr B', t3) \<and>
      map (mat_elems t3) (layers B') = map (mat_elems t1) (layers B)"
    using t1[THEN conjunct2] by blast
  obtain g s2 P' s3 where p: "perceptron_get_genome ex_perceptron ex_store = (Inr g, s2)"
      "perceptron_from_genome ex_perceptron g s2 = (Inr P', s3)"
      "mat_elems s3 (perceptron_matrix P') = mat_elems ex_store (perceptron_matrix ex_perceptron)"
    using t3 by blast
  have 3: "\<exists>g s2 P' s3. perceptron_get_genome ex_perceptron ex_store = (Inr g, s2) \<and>
      perceptron_from_genome ex_perceptron g s2 = (Inr P', s3) \<and>
      mat_elems s3 (perceptron_matrix P') = [1/2, 0, 0, 1/4]"
    using p by (auto simp: ex_fields ex_reads)
  obtain h u2 N' u3 where n: "nn_get_genome ex_nn ex_store = (Inr h, u2)"
      "nn_from_genome ex_nn h u2 = (Inr N', u3)"
      "map (mat_elems u3) (layers N') = map (mat_elems ex_store) (layers ex_nn)"
    using t4 by blast
  have 4: "\<exists>g s2 N' s3. nn_get_genome ex_nn ex_store = (Inr g, s2) \<and>
      nn_from_genome ex_nn g s2 = (Inr N', s3) \<and>
      map (mat_elems s3) (layers N') = [[1/2, 0, 0, 1/4]]"
    using n by (auto simp: ex_fields ex_reads)
  from 1 2 3 4 show ?thesis by blast
qed

text \<open>
  Claim C7, as stated: \<open>react_to\<close> normalises every observation of the shape of the space.
  This fails for an observation whose dtype is integer: the copy made in the first line
  is an integer array, and the in-place subtraction of the floating bound raises
  TypeError. On the concrete store, with low = [0, 0], high = [2, 4] and the integer
  observation [1, 2], neither \<open>react_to\<close> normalises anything: both raise.
\<close>

theorem react_to_integer_observation:
  "wf_space ex_store ex_space \<and>
   list_all2 (<) (nd_elems ex_store (low ex_space)) (nd_elems ex_store (high ex_space)) \<and>
   valid_nd ex_store ex_obs_int \<and> shape ex_obs_int = sp_shape ex_space \<and>
   nd_elems ex_store ex_obs_int = [1, 2] \<and>
   (\<exists>A s1. perceptron_init ex_space \<lparr>act_n = 2\<rparr> ex_store = (Inr A, s1) \<and>
      fst (perceptron_normalize A ex_obs_int s1) = Inl TypeError \<and>
      fst (perceptron_react_to A ex_obs_int s1) = Inl TypeError) \<and>
   (\<exists>B t1. nn_init ex_space \<lparr>act_n = 2\<rparr> [3] ex_store = (Inr B, t1) \<and>
      fst (nn_normalize B ex_obs_int t1) = Inl TypeError \<and>
      fst (nn_react_to B ex_obs_int t1) = Inl TypeError)"
proof -
  have lt: "list_all2 (<) (nd_elems ex_store (low ex_space)) (nd_elems ex_store (high ex_space))"
    by (simp add: ex_reads)
  obtain A s1 where i: "perceptron_init ex_space \<lparr>act_n = 2\<rparr> ex_store = (Inr A, s1)"
    "prefix (bufs ex_store) (bufs s1)" "wf_perceptron s1 A" "observation_space A = ex_space"
    using perceptron_init_spec[OF ex_wf_space] by blast
  have v1: "valid_nd s1 ex_obs_int" by (rule valid_nd_prefix[OF i(2) ex_valid_obs_int])
  have sh1: "shape ex_obs_int = sp_shape (observation_space A)"
    using ex_shape_obs_int i(4) by simp
  have 1: "\<exists>A s1. perceptron_init ex_space \<lparr>act_n = 2\<rparr> ex_store = (Inr A, s1) \<and>
      fst (perceptron_normalize A ex_obs_int s1) = Inl TypeError \<and>
      fst (perceptron_react_to A ex_obs_int s1) = Inl TypeError"
    using i(1) perceptron_normalize_int[OF i(3) v1 sh1 ex_dtype_obs_int]
      perceptron_react_to_int[OF i(3) v1 sh1 ex_dtype_obs_int] by blast
  obtain B t1 where j: "nn_init ex_space \<lparr>act_n = 2\<rparr> [3] ex_store = (Inr B, t1)"
    "prefix (bufs ex_store) (bufs t1)" "wf_nn t1 B" "nn_observation_space B = ex_space"
    using nn_init_spec[OF ex_wf_space] by blast
  have w1: "valid_nd t1 ex_obs_int" by (rule valid_nd_prefix[OF j(2) ex_valid_obs_int])
  have th1: "shape ex_obs_int = sp_shape (nn_observation_space B)"
    using ex_shape_obs_int j(4) by simp
  have 2: "\<exists>B t1. nn_init ex_space \<lparr>act_n = 2\<rparr> [3] ex_store = (Inr B, t1) \<and>
      fst (nn_normalize B ex_obs_int t1) = Inl TypeError \<and>
      fst (nn_react_to B ex_obs_int t1) = Inl TypeError"
    using j(1) nn_normalize_int[OF j(3) w1 th1 ex_dtype_obs_int]
      nn_react_to_int[OF j(3) w1 th1 ex_dtype_obs_int] by blast
  show ?thesis
    using ex_wf_space lt ex_valid_obs_int ex_shape_obs_int ex_reads_int 1 2 by blast
qed

text \<open>
  Claim C7, amended. \<open>react_to\<close> normalises a floating-point observation before it
  applies the weights. For a box space whose bounds satisfy low < high element by
  element, an actor constructed over it, and an observation of floating dtype that has
  the shape of the space: the first lines of \<open>react_to\<close> return the one-dimensional vector
  of the elements \<open>(x - l) / (h - l)\<close> in row-major order, whose length is the product of
  the dimensions of the shape, and \<open>react_to\<close> answers the scan of the weights applied to
  that vector. With low = [0, 0], high = [2, 4] and the floating observation [1, 2] the
  vector is [0.5, 0.5], as the instance after the theorem shows.
\<close>

theorem react_to_normalizes_floating:
  "wf_space s sp \<and> list_all2 (<) (nd_elems s (low sp)) (nd_elems s (high sp)) \<and>
   valid_nd s obs \<and> shape obs = sp_shape sp \<and> dtype obs = Floating \<longrightarrow>
     (\<exists>A s1 v s2. perceptron_init sp act s = (Inr A, s1) \<and>
        perceptron_normalize A obs s1 = (Inr v, s2) \<and>
        len v = prod_list (sp_shape sp) \<and>
        length (vec_elems s2 v) = prod_list (sp_shape sp) \<and>
        vec_elems s2 v = map (\<lambda>(x, l, h). (x - l) / (h - l))
                           (zip (nd_elems s obs) (zip (nd_elems s (low sp)) (nd_elems s (high sp)))) \<and>
        fst (perceptron_react_to A obs s1)
          = Inr (scan_max (matvec (n_act A) (n_obs A) (mat_elems s1 (perceptron_matrix A))
                            (vec_elems s2 v)))) \<and>
     (\<exists>B t1 v t2. nn_init sp act hidden s = (Inr B, t1) \<and>
        nn_normalize B obs t1 = (Inr v, t2) \<and>
        len v = prod_list (sp_shape sp) \<and>
        length (vec_elems t2 v) = prod_list (sp_shape sp) \<and>
        vec_elems t2 v = map (\<lambda>(x, l, h). (x - l) / (h - l))
                           (zip (nd_elems s obs) (zip (nd_elems s (low sp)) (nd_elems s (high sp)))) \<and>
        fst (nn_react_to B obs t1)
          = map_sum id scan_max (feed_spec (logistic t1) (map (layer_of t1) (layers B)) (vec_elems t2 v)))"
proof (intro impI conjI)
  assume a: "wf_space s sp \<and> list_all2 (<) (nd_elems s (low sp)) (nd_elems s (high sp)) \<and>
   valid_nd s obs \<and> shape obs = sp_shape sp \<and> dtype obs = Floating"
  then have sp: "wf_space s sp" and lt: "list_all2 (<) (nd_elems s (low sp)) (nd_elems s (high sp))"
    and v: "valid_nd s obs" and sh: "shape obs = sp_shape sp" and fl: "dtype obs = Floating"
    by simp_all
  have vl: "valid_nd s (low sp)" using sp by (simp add: wf_space_def)
  note ll = wf_space_lengths(2)[OF sp] and lh = wf_space_lengths(1)[OF sp]
  have lx: "length (nd_elems s obs) = prod_list (sp_shape sp)"
    using nd_elems_length[OF v] sh by simp
  define zs where "zs = map (\<lambda>(x, l, h). (x - l) / (h - l))
                           (zip (nd_elems s obs) (zip (nd_elems s (low sp)) (nd_elems s (high sp))))"
  have nrm: "map2 (/) (map2 (-) (nd_elems s obs) (nd_elems s (low sp)))
               (map2 (-) (nd_elems s (high sp)) (nd_elems s (low sp))) = zs"
    unfolding zs_def by (rule map2_normalized) (simp_all add: lx ll lh)
  obtain A s1 where i: "perceptron_init sp act s = (Inr A, s1)" "prefix (bufs s) (bufs s1)"
    "wf_perceptron s1 A" "observation_space A = sp"
    "nd_elems s1 (obs_range A) = map2 (-) (nd_elems s (high sp)) (nd_elems s (low sp))"
    using perceptron_init_spec[OF sp] by blast
  have v1: "valid_nd s1 obs" by (rule valid_nd_prefix[OF i(2) v])
  have sh1: "shape obs = sp_shape (observation_space A)" using sh i(4) by simp
  have nz: "0 \<notin> set (nd_elems s1 (obs_range A))" using range_nonzero[OF lt] by (simp add: i(5))
  have n: "n_obs A = prod_list (sp_shape sp)" using i(3,4) by (simp add: wf_perceptron_def)
  obtain x s2 where r: "perceptron_normalize A obs s1 = (Inr x, s2)" "len x = n_obs A"
    "vec_elems s2 x = map2 (/) (map2 (-) (nd_elems s1 obs) (nd_elems s1 (low (observation_space A))))
                        (nd_elems s1 (obs_range A))"
    "length (vec_elems s2 x) = n_obs A"
    using perceptron_normalize_spec[OF i(3) v1 sh1 fl nz] by blast
  have ez: "vec_elems s2 x = zs"
    by (simp add: r(3) i(4,5) nd_elems_prefix[OF i(2) v] nd_elems_prefix[OF i(2) vl] nrm)
  have "fst (perceptron_react_to A obs s1)
          = Inr (scan_max (matvec (n_act A) (n_obs A) (mat_elems s1 (perceptron_matrix A))
                            (vec_elems s2 x)))"
    using nz by (simp add: perceptron_react_to_run(1)[OF i(3) v1 sh1 fl] r(3))
  then show "\<exists>A s1 v s2. perceptron_init sp act s = (Inr A, s1) \<and>
        perceptron_normalize A obs s1 = (Inr v, s2) \<and>
        len v = prod_list (sp_shape sp) \<and>
        length (vec_elems s2 v) = prod_list (sp_shape sp) \<and>
        vec_elems s2 v = map (\<lambda>(x, l, h). (x - l) / (h - l))
                           (zip (nd_elems s obs) (zip (nd_elems s (low sp)) (nd_elems s (high sp)))) \<and>
        fst (perceptron_react_to A obs s1)
          = Inr (scan_max (matvec (n_act A) (n_obs A) (mat_elems s1 (perceptron_matrix A))
                            (vec_elems s2 v)))"
    using i(1) r(1,2,4) ez n unfolding zs_def by auto
  obtain B t1 where j: "nn_init sp act hidden s = (Inr B, t1)" "prefix (bufs s) (bufs t1)"
    "wf_nn t1 B" "nn_observation_space B = sp"
    "nd_elems t1 (nn_obs_range B) = map2 (-) (nd_elems s (high sp)) (nd_elems s (low sp))"
    using nn_init_spec[OF sp] by blast
  have w1: "valid_nd t1 obs" by (rule valid_nd_prefix[OF j(2) v])
  have th1: "shape obs = sp_shape (nn_observation_space B)" using sh j(4) by simp
  have nz': "0 \<notin> set (nd_elems t1 (nn_obs_range B))" using range_nonzero[OF lt] by (simp add: j(5))
  have n': "nn_n_obs B = prod_list (sp_shape sp)" using j(3,4) by (simp add: wf_nn_def)
  obtain y t2 where q: "nn_normalize B obs t1 = (Inr y, t2)" "len y = nn_n_obs B"
    "vec_elems t2 y = map2 (/) (map2 (-) (nd_elems t1 obs) (nd_elems t1 (low (nn_observation_space B))))
                        (nd_elems t1 (nn_obs_range B))"
    "length (vec_elems t2 y) = nn_n_obs B"
    using nn_normalize_spec[OF j(3) w1 th1 fl nz'] by blast
  have ez': "vec_elems t2 y = zs"
    by (simp add: q(3) j(4,5) nd_elems_prefix[OF j(2) v] nd_elems_prefix[OF j(2) vl] nrm)
  have "fst (nn_react_to B obs t1)
          = map_sum id scan_max (feed_spec (logistic t1) (map (layer_of t1) (layers B)) (vec_elems t2 y))"
    using nz' by (simp add: nn_react_to_run(1)[OF j(3) w1 th1 fl] q(3))
  then show "\<exists>B t1 v t2. nn_init sp act hidden s = (Inr B, t1) \<and>
        nn_normalize B obs t1 = (Inr v, t2) \<and>
        len v = prod_list (sp_shape sp) \<and>
        length (vec_elems t2 v) = prod_list (sp_shape sp) \<and>
        vec_elems t2 v = map (\<lambda>(x, l, h). (x - l) / (h - l))
                           (zip (nd_elems s obs) (zip (nd_elems s (low sp)) (nd_elems s (high sp)))) \<and>
        fst (nn_react_to B obs t1)
          = map_sum id scan_max (feed_spec (logistic t1) (map (layer_of t1) (layers B)) (vec_elems t2 v))"
    using j(1) q(1,2,4) ez' n' unfolding zs_def by auto
qed

theorem react_to_normalizes_floating_witness:
  "dtype ex_obs = Floating \<and>
   list_all2 (<) (nd_elems ex_store (low ex_space)) (nd_elems ex_store (high ex_space)) \<and>
   (\<exists>A s1 v s2. perceptron_init ex_space \<lparr>act_n = 2\<rparr> ex_store = (Inr A, s1) \<and>
      perceptron_normalize A ex_obs s1 = (Inr v, s2) \<and> len v = 2 \<and>
      vec_elems s2 v = [1/2, 1/2]) \<and>
   (\<exists>B t1 v t2. nn_init ex_space \<lparr>act_n = 2\<rparr> [3] ex_store = (Inr B, t1) \<and>
      nn_normalize B ex_obs t1 = (Inr v, t2) \<and> len v = 2 \<and>
      vec_elems t2 v = [1/2, 1/2])"
proof -
  have lt: "list_all2 (<) (nd_elems ex_store (low ex_space)) (nd_elems ex_store (high ex_space))"
    by (simp add: ex_reads)
  note t = react_to_normalizes_floating[of ex_store ex_space ex_obs "\<lparr>act_n = 2\<rparr>" "[3]", rule_format,
      OF conjI[OF ex_wf_space conjI[OF lt conjI[OF ex_valid_obs conjI[OF ex_shape_obs ex_dtype_obs]]]]]
  have p: "prod_list (sp_shape ex_space) = 2" by (simp add: ex_space_def)
  have z: "map (\<lambda>(x, l, h). (x - l) / (h - l))
             (zip (nd_elems ex_store ex_obs)
               (zip (nd_elems ex_store (low ex_space)) (nd_elems ex_store (high ex_space))))
           = [1/2, 1/2]"
    by (simp add: ex_reads)
  have 1: "\<exists>A s1 v s2. perceptron_init ex_space \<lparr>act_n = 2\<rparr> ex_store = (Inr A, s1) \<and>
      perceptron_normalize A ex_obs s1 = (Inr v, s2) \<and> len v = 2 \<and>
      vec_elems s2 v = [1/2, 1/2]"
    using t[THEN conjunct1] unfolding p z by blast
  have 2: "\<exists>B t1 v t2. nn_init ex_space \<lparr>act_n = 2\<rparr> [3] ex_store = (Inr B, t1) \<and>
      nn_normalize B ex_obs t1 = (Inr v, t2) \<and> len v = 2 \<and>
      vec_elems t2 v = [1/2, 1/2]"
    using t[THEN conjunct2] unfolding p z by blast
  from ex_dtype_obs lt 1 2 show ?thesis by blast
qed

text \<open>
  Claim C8. \<open>from_genome\<close> returns a new actor and leaves the template as it was. For a
  well-formed actor \<open>A\<close> and a genome of matching length, the call succeeds; every buffer
  that existed before the call is unchanged after it, so the matrices of \<open>A\<close> read the
  same elements; the matrices of the returned actor lie in buffers allocated during the
  call; and \<open>A.react_to\<close> answers every observation of the space as it did before the
  call. For the network a genome longer than the parameter count is accepted as well:
  the surplus is not read.
\<close>

theorem from_genome_keeps_template:
  "(wf_perceptron s A \<and> valid_vec s g \<and>
    len g = rows (perceptron_matrix A) * cols (perceptron_matrix A) \<longrightarrow>
      (\<exists>A' s'. perceptron_from_genome A g s = (Inr A', s') \<and>
         prefix (bufs s) (bufs s') \<and>
         length (bufs s) \<le> buf (perceptron_matrix A') \<and>
         mat_elems s' (perceptron_matrix A) = mat_elems s (perceptron_matrix A) \<and>
         (\<forall>obs. valid_nd s obs \<and> shape obs = sp_shape (observation_space A) \<longrightarrow>
            fst (perceptron_react_to A obs s') = fst (perceptron_react_to A obs s)))) \<and>
   (wf_nn s B \<and> valid_vec s h \<and>
    sum_list (map (\<lambda>m. rows m * cols m) (layers B)) \<le> len h \<longrightarrow>
      (\<exists>B' s'. nn_from_genome B h s = (Inr B', s') \<and>
         prefix (bufs s) (bufs s') \<and>
         list_all (\<lambda>m. length (bufs s) \<le> buf m) (layers B') \<and>
         map (mat_elems s') (layers B) = map (mat_elems s) (layers B) \<and>
         (\<forall>obs. valid_nd s obs \<and> shape obs = sp_shape (nn_observation_space B) \<longrightarrow>
            fst (nn_react_to B obs s') = fst (nn_react_to B obs s))))"
proof (intro conjI impI)
  assume a: "wf_perceptron s A \<and> valid_vec s g \<and>
    len g = rows (perceptron_matrix A) * cols (perceptron_matrix A)"
  then have wf: "wf_perceptron s A" by simp
  have vm: "valid_mat s (perceptron_matrix A)" using wf by (simp add: wf_perceptron_def)
  obtain A' s' where r: "perceptron_from_genome A g s = (Inr A', s')" "prefix (bufs s) (bufs s')"
    "length (bufs s) \<le> buf (perceptron_matrix A')"
    using perceptron_from_genome_run[of s A g] a by blast
  have "\<forall>obs. valid_nd s obs \<and> shape obs = sp_shape (observation_space A) \<longrightarrow>
            fst (perceptron_react_to A obs s') = fst (perceptron_react_to A obs s)"
    using perceptron_react_to_stable[OF wf _ _ r(2)] by blast
  then show "\<exists>A' s'. perceptron_from_genome A g s = (Inr A', s') \<and>
         prefix (bufs s) (bufs s') \<and>
         length (bufs s) \<le> buf (perceptron_matrix A') \<and>
         mat_elems s' (perceptron_matrix A) = mat_elems s (perceptron_matrix A) \<and>
         (\<forall>obs. valid_nd s obs \<and> shape obs = sp_shape (observation_space A) \<longrightarrow>
            fst (perceptron_react_to A obs s') = fst (perceptron_react_to A obs s))"
    using r mat_elems_prefix[OF r(2) vm] by blast
next
  assume a: "wf_nn s B \<and> valid_vec s h \<and>
    sum_list (map (\<lambda>m. rows m * cols m) (layers B)) \<le> len h"
  then have wf: "wf_nn s B" by simp
  have vl: "list_all (valid_mat s) (layers B)" using wf by (simp add: wf_nn_def)
  obtain B' s' where r: "nn_from_genome B h s = (Inr B', s')" "prefix (bufs s) (bufs s')"
    "list_all (\<lambda>m. length (bufs s) \<le> buf m) (layers B')"
    using nn_from_genome_run[of s B h] a by blast
  have lg: "logistic s' = logistic s"
    using nn_from_genome_logistic[of B h s] r(1) by simp
  have "\<forall>obs. valid_nd s obs \<and> shape obs = sp_shape (nn_observation_space B) \<longrightarrow>
            fst (nn_react_to B obs s') = fst (nn_react_to B obs s)"
    using nn_react_to_stable[OF wf _ _ r(2) lg] by blast
  then show "\<exists>B' s'. nn_from_genome B h s = (Inr B', s') \<and>
         prefix (bufs s) (bufs s') \<and>
         list_all (\<lambda>m. length (bufs s) \<le> buf m) (layers B') \<and>
         map (mat_elems s') (layers B) = map (mat_elems s) (layers B) \<and>
         (\<forall>obs. valid_nd s obs \<and> shape obs = sp_shape (nn_observation_space B) \<longrightarrow>
            fst (nn_react_to B obs s') = fst (nn_react_to B obs s))"
    using r map_mat_elems_prefix[OF r(2) vl] by blast
qed

lemma ex_valid_genome: "valid_vec ex_store ex_genome"
  by (simp add: valid_vec_def valid_def ex_store_def ex_genome_def)

theorem from_genome_keeps_template_witness:
  "(\<exists>A' s'. perceptron_from_genome ex_perceptron ex_genome ex_store = (Inr A', s') \<and>
      mat_elems s' (perceptron_matrix ex_perceptron) = [1/2, 0, 0, 1/4] \<and>
      fst (perceptron_react_to ex_perceptron ex_obs s') = Inr 0) \<and>
   (\<exists>B' s'. nn_from_genome ex_nn ex_genome ex_store = (Inr B', s') \<and>
      map (mat_elems s') (layers ex_nn) = [[1/2, 0, 0, 1/4]] \<and>
      fst (nn_react_to ex_nn ex_obs s') = Inr 0)"
proof -
  note t = from_genome_keeps_template[of ex_store ex_perceptron ex_genome ex_nn ex_genome]
  have lp: "len ex_genome = rows (perceptron_matrix ex_perceptron) * cols (perceptron_matrix ex_perceptron)"
    by (simp add: ex_fields)
  have ln: "sum_list (map (\<lambda>m. rows m * cols m) (layers ex_nn)) \<le> len ex_genome"
    by (simp add: ex_fields)
  note t1 = t[THEN conjunct1, rule_format, OF conjI[OF ex_wf_perceptron conjI[OF ex_valid_genome lp]]]
  note t2 = t[THEN conjunct2, rule_format, OF conjI[OF ex_wf_nn conjI[OF ex_valid_genome ln]]]
  have o: "valid_nd ex_store ex_obs \<and> shape ex_obs = sp_shape (observation_space ex_perceptron)"
    using ex_valid_obs ex_shape_obs by (simp add: ex_fields)
  have o': "valid_nd ex_store ex_obs \<and> shape ex_obs = sp_shape (nn_observation_space ex_nn)"
    using ex_valid_obs ex_shape_obs by (simp add: ex_fields)
  obtain A' s' where p: "perceptron_from_genome ex_perceptron ex_genome ex_store = (Inr A', s')"
    "mat_elems s' (perceptron_matrix ex_perceptron) = mat_elems ex_store (perceptron_matrix ex_perceptron)"
    "fst (perceptron_react_to ex_perceptron ex_obs s') = fst (perceptron_react_to ex_perceptron ex_obs ex_store)"
    using t1 o by blast
  obtain B' u' where q: "nn_from_genome ex_nn ex_genome ex_store = (Inr B', u')"
    "map (mat_elems u') (layers ex_nn) = map (mat_elems ex_store) (layers ex_nn)"
    "fst (nn_react_to ex_nn ex_obs u') = fst (nn_react_to ex_nn ex_obs ex_store)"
    using t2 o' by blast
  have 1: "\<exists>A' s'. perceptron_from_genome ex_perceptron ex_genome ex_store = (Inr A', s') \<and>
      mat_elems s' (perceptron_matrix ex_perceptron) = [1/2, 0, 0, 1/4] \<and>
      fst (perceptron_react_to ex_perceptron ex_obs s') = Inr 0"
    using p by (auto simp: ex_fields ex_reads ex_perceptron_react)
  have 2: "\<exists>B' s'. nn_from_genome ex_nn ex_genome ex_store = (Inr B', s') \<and>
      map (mat_elems s') (layers ex_nn) = [[1/2, 0, 0, 1/4]] \<and>
      fst (nn_react_to ex_nn ex_obs s') = Inr 0"
    using q by (auto simp: ex_fields ex_reads ex_nn_react)
  from 1 2 show ?thesis by blast
qed




text \<open>
  The condition on the logistic function of the machine is needed. On the third store
  the matrix gives the outputs 40 and 48, and the machine maps both to 1: the network
  answers 0, the first of two equal values, and the perceptron answers 1.
\<close>

lemma inner_replicate: "inner (replicate n a) (replicate n c) = of_nat n * (a * c)"
  by (simp add: inner_def sum_list_replicate)

lemma matvec_two_rows:
  "matvec 2 n (replicate n a @ replicate n b) (replicate n c)
     = [of_nat n * (a * c), of_nat n * (b * c)]"
proof -
  have u: "[0..<2] = [0, Suc 0]" by (simp add: upt_rec)
  show ?thesis by (simp add: matvec_def u row_def inner_replicate)
qed

lemma ex_wf_space3: "wf_space ex_store3 ex_space3"
  by (simp add: wf_space_def valid_nd_def valid_def ex_store3_def ex_space3_def)

lemma ex_wf_perceptron3: "wf_perceptron ex_store3 ex_perceptron3"
  using ex_wf_space3
  by (simp add: wf_perceptron_def ex_perceptron3_def valid_nd_def valid_mat_def valid_def
      ex_store3_def ex_space3_def ex_matrix3_def)

lemma ex_wf_nn3: "wf_nn ex_store3 ex_nn3"
  using ex_wf_space3
  by (simp add: wf_nn_def ex_nn3_def valid_nd_def valid_mat_def valid_def
      ex_store3_def ex_space3_def ex_matrix3_def)

lemma ex_obs3_facts:
  "valid_nd ex_store3 ex_obs3" "shape ex_obs3 = sp_shape ex_space3" "dtype ex_obs3 = Floating"
  by (simp_all add: valid_nd_def valid_def ex_store3_def ex_obs3_def ex_space3_def)

lemma ex_reads3:
  "nd_elems ex_store3 ex_obs3 = replicate 64 1"
  "nd_elems ex_store3 (low ex_space3) = replicate 64 0"
  "nd_elems ex_store3 (obs_range ex_perceptron3) = replicate 64 1"
  "nd_elems ex_store3 (nn_obs_range ex_nn3) = replicate 64 1"
  "mat_elems ex_store3 ex_matrix3 = replicate 64 (5/8) @ replicate 64 (3/4)"
  by (simp_all add: nd_elems_def mat_elems_def rd_def ex_store3_def ex_obs3_def
      ex_space3_def ex_perceptron3_def ex_nn3_def ex_matrix3_def)

lemma ex_fields3:
  "observation_space ex_perceptron3 = ex_space3" "n_obs ex_perceptron3 = 64"
  "n_act ex_perceptron3 = 2" "perceptron_matrix ex_perceptron3 = ex_matrix3"
  "nn_observation_space ex_nn3 = ex_space3" "nn_n_obs ex_nn3 = 64" "nn_n_act ex_nn3 = 2"
  "layers ex_nn3 = [ex_matrix3]" "rows ex_matrix3 = 2" "cols ex_matrix3 = 64"
  "logistic ex_store3 = ex_logistic"
  by (simp_all add: ex_perceptron3_def ex_nn3_def ex_matrix3_def ex_store3_def)

lemma network_saturated_differs:
  "layers ex_nn3 = [perceptron_matrix ex_perceptron3] \<and> dtype ex_obs3 = Floating \<and>
   matvec 2 64 (mat_elems ex_store3 ex_matrix3) (replicate 64 1) = [40, 48] \<and>
   logistic ex_store3 40 = 1 \<and> logistic ex_store3 48 = 1 \<and>
   fst (nn_react_to ex_nn3 ex_obs3 ex_store3) = Inr 0 \<and>
   fst (perceptron_react_to ex_perceptron3 ex_obs3 ex_store3) = Inr 1"
proof -
  have y': "matvec 2 64 (replicate 64 (5/8) @ replicate 64 (3/4)) (replicate 64 1) = [40, 48]"
    unfolding matvec_two_rows by simp
  have y: "matvec 2 64 (mat_elems ex_store3 ex_matrix3) (replicate 64 1) = [40, 48]"
    unfolding ex_reads3 by (rule y')
  have x: "map2 (/) (map2 (-) (replicate 64 (1::real)) (replicate 64 0)) (replicate 64 1)
      = replicate 64 1"
    by simp
  have sh: "shape ex_obs3 = sp_shape (observation_space ex_perceptron3)"
    "shape ex_obs3 = sp_shape (nn_observation_space ex_nn3)"
    using ex_obs3_facts(2) by (simp_all add: ex_fields3)
  have p: "fst (perceptron_react_to ex_perceptron3 ex_obs3 ex_store3) = Inr 1"
    unfolding perceptron_react_to_run(1)[OF ex_wf_perceptron3 ex_obs3_facts(1) sh(1) ex_obs3_facts(3)]
      ex_fields3 ex_reads3 x y'
    by (simp add: scan_max_def)
  have q: "fst (nn_react_to ex_nn3 ex_obs3 ex_store3) = Inr 0"
    unfolding nn_react_to_run(1)[OF ex_wf_nn3 ex_obs3_facts(1) sh(2) ex_obs3_facts(3)]
      ex_fields3 ex_reads3 x
    by (simp add: layer_of_def ex_fields3 ex_reads3 y' scan_max_def ex_logistic_def)
  show ?thesis
    using p q y ex_obs3_facts(3) by (simp add: ex_fields3 ex_logistic_def)
qed

text \<open>
  Claim C6. With \<open>hidden_layers = [4, 3]\<close>, five observation dimensions and two actions,
  the constructed network has exactly three matrices, of the shapes (4, 5), (3, 4) and
  (2, 3) in this order. \<open>from_genome\<close>, applied by a network of these shapes to a genome
  of length 38 = 4*5 + 3*4 + 2*3, returns a network with exactly these three shapes, and
  its layers hold the rescaled elements \<open>2 g - 1\<close> of the genome consecutively: the first
  20, the next 12 from offset 20, and the next 6 from offset 32.
\<close>

theorem hidden_layers_shapes:
  "(wf_space s sp \<and> prod_list (sp_shape sp) = 5 \<and> act_n act = 2 \<longrightarrow>
      (\<exists>A s1. nn_init sp act [4, 3] s = (Inr A, s1) \<and> wf_nn s1 A \<and>
         map (\<lambda>m. (rows m, cols m)) (layers A) = [(4, 5), (3, 4), (2, 3)])) \<and>
   (wf_nn t B \<and> map (\<lambda>m. (rows m, cols m)) (layers B) = [(4, 5), (3, 4), (2, 3)] \<and>
    valid_vec t g \<and> len g = 38 \<longrightarrow>
      (\<exists>B' t'. nn_from_genome B g t = (Inr B', t') \<and>
         map (\<lambda>m. (rows m, cols m)) (layers B') = [(4, 5), (3, 4), (2, 3)] \<and>
         map (mat_elems t') (layers B')
           = [take 20 (map (\<lambda>x. x * 2 - 1) (vec_elems t g)),
              take 12 (drop 20 (map (\<lambda>x. x * 2 - 1) (vec_elems t g))),
              take 6 (drop 32 (map (\<lambda>x. x * 2 - 1) (vec_elems t g)))]))"
proof (intro conjI impI)
  assume a: "wf_space s sp \<and> prod_list (sp_shape sp) = 5 \<and> act_n act = 2"
  then obtain A s1 where i: "nn_init sp act [4, 3] s = (Inr A, s1)" "wf_nn s1 A"
    "map (\<lambda>m. (rows m, cols m)) (layers A)
       = map (\<lambda>(i, u). (u, i)) (zip (prod_list (sp_shape sp) # [4, 3]) ([4, 3] @ [act_n act]))"
    using nn_init_spec[of s sp act "[4, 3]"] by blast
  have "map (\<lambda>m. (rows m, cols m)) (layers A) = [(4, 5), (3, 4), (2, 3)]"
    using a by (simp add: i(3))
  then show "\<exists>A s1. nn_init sp act [4, 3] s = (Inr A, s1) \<and> wf_nn s1 A \<and>
         map (\<lambda>m. (rows m, cols m)) (layers A) = [(4, 5), (3, 4), (2, 3)]"
    using i(1,2) by auto
next
  assume a: "wf_nn t B \<and> map (\<lambda>m. (rows m, cols m)) (layers B) = [(4, 5), (3, 4), (2, 3)] \<and>
    valid_vec t g \<and> len g = 38"
  then have wf: "wf_nn t B" and vg: "valid_vec t g" and lg: "len g = 38"
    and shp: "map (\<lambda>m. (rows m, cols m)) (layers B) = [(4, 5), (3, 4), (2, 3)]" by simp_all
  have "map (\<lambda>m. rows m * cols m) (layers B)
      = map (\<lambda>p. fst p * snd p) (map (\<lambda>m. (rows m, cols m)) (layers B))"
    by (simp add: o_def)
  then have sz: "map (\<lambda>m. rows m * cols m) (layers B) = [20, 12, 6]"
    by (simp add: shp)
  have le: "sum_list (map (\<lambda>m. rows m * cols m) (layers B)) \<le> len g"
    by (simp add: sz lg)
  obtain B' t' where r: "nn_from_genome B g t = (Inr B', t')"
    "map (\<lambda>m. (rows m, cols m)) (layers B') = map (\<lambda>m. (rows m, cols m)) (layers B)"
    "map (mat_elems t') (layers B')
       = split_sizes (map (\<lambda>m. rows m * cols m) (layers B))
           (map (\<lambda>x. x * 2 - 1) (vec_elems t g))"
    using nn_from_genome_run[OF wf vg le] by blast
  have "map (mat_elems t') (layers B')
           = [take 20 (map (\<lambda>x. x * 2 - 1) (vec_elems t g)),
              take 12 (drop 20 (map (\<lambda>x. x * 2 - 1) (vec_elems t g))),
              take 6 (drop 32 (map (\<lambda>x. x * 2 - 1) (vec_elems t g)))]"
    by (simp add: r(3) sz)
  then show "\<exists>B' t'. nn_from_genome B g t = (Inr B', t') \<and>
         map (\<lambda>m. (rows m, cols m)) (layers B') = [(4, 5), (3, 4), (2, 3)] \<and>
         map (mat_elems t') (layers B')
           = [take 20 (map (\<lambda>x. x * 2 - 1) (vec_elems t g)),
              take 12 (drop 20 (map (\<lambda>x. x * 2 - 1) (vec_elems t g))),
              take 6 (drop 32 (map (\<lambda>x. x * 2 - 1) (vec_elems t g)))]"
    using r(1,2) shp by auto
qed

lemma ex_wf_space2: "wf_space ex_store2 ex_space2"
  by (simp add: wf_space_def valid_nd_def valid_def ex_store2_def ex_space2_def)

lemma ex_wf_nn2: "wf_nn ex_store2 ex_nn2"
  using ex_wf_space2
  by (simp add: wf_nn_def ex_nn2_def valid_nd_def valid_mat_def valid_def
      ex_store2_def ex_space2_def)

lemma ex_valid_genome2: "valid_vec ex_store2 ex_genome2"
  by (simp add: valid_vec_def valid_def ex_store2_def ex_genome2_def)

lemma ex_genome2_elems: "vec_elems ex_store2 ex_genome2 = replicate 38 (3/4)"
  by (simp add: vec_elems_def rd_def ex_store2_def ex_genome2_def)

theorem hidden_layers_shapes_witness:
  "(\<exists>A s1. nn_init ex_space2 \<lparr>act_n = 2\<rparr> [4, 3] ex_store2 = (Inr A, s1) \<and>
      map (\<lambda>m. (rows m, cols m)) (layers A) = [(4, 5), (3, 4), (2, 3)]) \<and>
   (\<exists>B' t'. nn_from_genome ex_nn2 ex_genome2 ex_store2 = (Inr B', t') \<and>
      map (\<lambda>m. (rows m, cols m)) (layers B') = [(4, 5), (3, 4), (2, 3)] \<and>
      map (mat_elems t') (layers B')
        = [replicate 20 (1/2), replicate 12 (1/2), replicate 6 (1/2)])"
proof -
  note t = hidden_layers_shapes[of ex_store2 ex_space2 "\<lparr>act_n = 2\<rparr>" ex_store2 ex_nn2 ex_genome2]
  have h1: "wf_space ex_store2 ex_space2 \<and> prod_list (sp_shape ex_space2) = 5 \<and>
      act_n \<lparr>act_n = 2\<rparr> = 2"
    using ex_wf_space2 by (simp add: ex_space2_def)
  have h2: "wf_nn ex_store2 ex_nn2 \<and>
      map (\<lambda>m. (rows m, cols m)) (layers ex_nn2) = [(4, 5), (3, 4), (2, 3)] \<and>
      valid_vec ex_store2 ex_genome2 \<and> len ex_genome2 = 38"
    using ex_wf_nn2 ex_valid_genome2 by (simp add: ex_nn2_def ex_genome2_def)
  have 1: "\<exists>A s1. nn_init ex_space2 \<lparr>act_n = 2\<rparr> [4, 3] ex_store2 = (Inr A, s1) \<and>
      map (\<lambda>m. (rows m, cols m)) (layers A) = [(4, 5), (3, 4), (2, 3)]"
    using t[THEN conjunct1, rule_format, OF h1] by auto
  have 2: "\<exists>B' t'. nn_from_genome ex_nn2 ex_genome2 ex_store2 = (Inr B', t') \<and>
      map (\<lambda>m. (rows m, cols m)) (layers B') = [(4, 5), (3, 4), (2, 3)] \<and>
      map (mat_elems t') (layers B')
        = [replicate 20 (1/2), replicate 12 (1/2), replicate 6 (1/2)]"
    using t[THEN conjunct2, rule_format, OF h2] by (simp add: ex_genome2_elems)
  from 1 2 show ?thesis by (rule conjI)
qed

end
